theory Spec2Isabelle
  imports Complex_Main "HOL-Library.AList"
begin

section \<open>Timer formatting: \<open>secondsToHHMMSS\<close>\<close>

text \<open>
  The function is the same in \<^verbatim>\<open>public/input.js\<close> and \<^verbatim>\<open>public/inputfinal.js\<close>:
  \<^verbatim>\<open>
  function secondsToHHMMSS(secondsRaw) {
    if (!isFinite(secondsRaw) || secondsRaw === null) return '00:00:00';
    const s = Math.max(0, Math.round(secondsRaw));
    const h = Math.floor(s / 3600);
    const m = Math.floor((s % 3600) / 60);
    const sec = s % 60;
    return String(h).padStart(2, '0') + ':' + String(m).padStart(2, '0') + ':' + String(sec).padStart(2, '0');
  }
  \<close>
  Its argument is an element of the array \<open>computeLayerSeconds\<close> returns: a number
  (finite, \<open>NaN\<close> or an infinity), \<open>null\<close> or \<open>undefined\<close>. A number is an IEEE 754
  binary64 value, and a finite one is modelled by its exact rational value.
  \<open>Math.round\<close>, \<open>Math.max\<close>, \<open>Math.floor\<close> and \<open>%\<close> return the exact result, which is
  a binary64 value again. A quotient is the exact quotient rounded to the nearest
  binary64 value (\<open>binary64\<close>), and \<open>String\<close> of a number prints the shortest decimal
  that reads back as that number (\<open>Number_toString\<close>).
\<close>

datatype seconds_arg = Finite rat | NaN | PosInfinity | NegInfinity | Null | Undefined

text \<open>The global \<open>isFinite\<close> converts its argument to a number first: \<open>null\<close> becomes 0,
  \<open>undefined\<close> becomes \<open>NaN\<close>.\<close>

definition isFinite :: "seconds_arg \<Rightarrow> bool" where
  "isFinite x = (case x of Finite _ \<Rightarrow> True | Null \<Rightarrow> True | _ \<Rightarrow> False)"

text \<open>\<open>Math.round\<close> rounds to the nearest integer, a tie towards plus infinity.\<close>

definition Math_round :: "rat \<Rightarrow> int" where
  "Math_round x = \<lfloor>x + 1 / 2\<rfloor>"

subsection \<open>Rounding to binary64\<close>

text \<open>The binary exponent \<open>e\<close> of a positive rational \<open>q\<close>: \<open>2^e \<le> q < 2^(e+1)\<close>.\<close>

function exponent :: "rat \<Rightarrow> int" where
  "exponent q =
     (if q \<le> 0 then 0
      else if 2 \<le> q then exponent (q / 2) + 1
      else if q < 1 then exponent (2 * q) - 1
      else 0)"
  by pat_completeness auto
termination
proof (relation "measure (\<lambda>q. 2 * nat \<lceil>1 / q\<rceil> + nat \<lfloor>q\<rfloor>)")
  show "wf (measure (\<lambda>q::rat. 2 * nat \<lceil>1 / q\<rceil> + nat \<lfloor>q\<rfloor>))" by simp
next
  fix q :: rat
  assume "\<not> q \<le> 0" and q2: "2 \<le> q"
  then have q: "0 < q" by simp
  have "1 / q \<le> 1" using q2 q by (simp add: divide_le_eq)
  moreover have "0 < 1 / q" using q by simp
  ultimately have c1: "\<lceil>1 / q\<rceil> = 1" by (simp add: ceiling_eq_iff)
  have "1 / (q / 2) \<le> 1" using q2 q by (simp add: divide_le_eq)
  moreover have "0 < 1 / (q / 2)" using q by simp
  ultimately have c2: "\<lceil>1 / (q / 2)\<rceil> = 1" by (simp add: ceiling_eq_iff)
  have "2 \<le> \<lfloor>q\<rfloor>" using q2 by (simp add: le_floor_iff)
  moreover have "2 * \<lfloor>q / 2\<rfloor> \<le> \<lfloor>q\<rfloor>"
  proof -
    have "of_int \<lfloor>q / 2\<rfloor> \<le> q / 2" by (rule of_int_floor_le)
    then have "of_int (2 * \<lfloor>q / 2\<rfloor>) \<le> q" by simp
    then show ?thesis by (simp only: le_floor_iff)
  qed
  ultimately have "nat \<lfloor>q / 2\<rfloor> < nat \<lfloor>q\<rfloor>" by linarith
  then show "(q / 2, q) \<in> measure (\<lambda>q. 2 * nat \<lceil>1 / q\<rceil> + nat \<lfloor>q\<rfloor>)"
    using c1 c2 by simp
next
  fix q :: rat
  assume "\<not> q \<le> 0" and "\<not> 2 \<le> q" and q1: "q < 1"
  then have q: "0 < q" by simp
  define x where "x = 1 / q"
  have x1: "1 < x" using q q1 by (simp add: x_def)
  have h: "1 / (2 * q) = x / 2" by (simp add: x_def)
  have c2: "2 \<le> \<lceil>x\<rceil>" using x1 by (simp add: le_ceiling_iff)
  have "x / 2 \<le> of_int (\<lceil>x\<rceil> - 1)"
  proof (cases "x \<le> 2")
    case True
    then have "x / 2 \<le> 1" by simp
    also have "(1::rat) \<le> of_int (\<lceil>x\<rceil> - 1)" using c2 by linarith
    finally show ?thesis .
  next
    case False
    then have "x / 2 \<le> x - 1" by simp
    also have "x - 1 \<le> of_int (\<lceil>x\<rceil> - 1)" by simp
    finally show ?thesis .
  qed
  then have c: "\<lceil>x / 2\<rceil> \<le> \<lceil>x\<rceil> - 1" by (simp only: ceiling_le_iff)
  have f0: "\<lfloor>q\<rfloor> = 0" using q q1 by (simp add: floor_eq_iff)
  have f1: "\<lfloor>2 * q\<rfloor> \<le> 1" using q1 by (simp add: floor_le_iff)
  have "2 * nat \<lceil>x / 2\<rceil> + nat \<lfloor>2 * q\<rfloor> < 2 * nat \<lceil>x\<rceil> + nat \<lfloor>q\<rfloor>"
    using c c2 f0 f1 by linarith
  then show "(2 * q, q) \<in> measure (\<lambda>q. 2 * nat \<lceil>1 / q\<rceil> + nat \<lfloor>q\<rfloor>)"
    by (simp add: h x_def)
qed

declare exponent.simps [simp del]

text \<open>The nearest integer, a tie to the even one.\<close>

definition round_even :: "rat \<Rightarrow> int" where
  "round_even x =
     (let n = \<lfloor>x\<rfloor>; f = x - of_int n in
      if f < 1 / 2 then n else if 1 / 2 < f then n + 1 else if even n then n else n + 1)"

text \<open>
  The binary64 value nearest to \<open>q\<close>, a tie to the even significand. A significand has
  53 bits, so the values around \<open>q\<close> are the multiples of \<open>2^(e - 52)\<close>, where \<open>e\<close> is
  the exponent of \<open>q\<close> and at least \<open>-1022\<close> (the subnormal values lie below). The
  quotients formed here are below \<open>2^1024\<close>: none overflows to an infinity.
\<close>

definition binary64 :: "rat \<Rightarrow> rat" where
  "binary64 q =
     (let u = power_int 2 (max (exponent \<bar>q\<bar>) (- 1022) - 52)
      in of_int (round_even (q / u)) * u)"

subsection \<open>Printing a number\<close>

definition digit_char :: "nat \<Rightarrow> char" where
  "digit_char d = ''0123456789'' ! d"

text \<open>The decimal digits of a natural number.\<close>

fun String_nat :: "nat \<Rightarrow> string" where
  "String_nat n = (if n < 10 then [digit_char n] else String_nat (n div 10) @ [digit_char (n mod 10)])"

declare String_nat.simps [simp del]

text \<open>
  \<open>String(x)\<close> for a non-negative integral number \<open>x\<close> (\<open>Number::toString\<close>): of the
  decimals \<open>d * 10^j\<close> that read back as \<open>x\<close>, the one with the fewest digits \<open>d\<close>, and
  of two with as many digits the one closer to \<open>x\<close>. With \<open>k\<close> digits the two decimals
  next to \<open>x\<close> are candidates; \<open>shortest x j\<close> tries \<open>10^j\<close>, then \<open>10^(j - 1)\<close>, down to
  \<open>x\<close> itself. Up to 21 integer digits all digits are printed, from 22 on the exponent
  notation is used (\<open>1e+21\<close>, \<open>1.5e+22\<close>).
\<close>

definition round_trips :: "nat \<Rightarrow> nat \<Rightarrow> bool" where
  "round_trips x v = (binary64 (of_nat v) = of_nat x)"

fun shortest :: "nat \<Rightarrow> nat \<Rightarrow> nat" where
  "shortest x 0 = x"
| "shortest x (Suc j) =
     (let p = 10 ^ Suc j; lo = (x div p) * p; hi = lo + p in
      if round_trips x lo \<and> round_trips x hi then
        (if x - lo < hi - x then lo
         else if hi - x < x - lo then hi
         else if even (x div p) then lo else hi)
      else if round_trips x lo then lo
      else if round_trips x hi then hi
      else shortest x j)"

definition Number_toString :: "nat \<Rightarrow> string" where
  "Number_toString x =
     (let ds = String_nat (shortest x (length (String_nat x) - 1));
          n = length ds;
          s = rev (dropWhile (\<lambda>c. c = CHR ''0'') (rev ds))
      in if n \<le> 21 then ds
         else if length s = 1 then s @ ''e+'' @ String_nat (n - 1)
         else hd s # ''.'' @ tl s @ ''e+'' @ String_nat (n - 1))"

definition padStart :: "nat \<Rightarrow> char \<Rightarrow> string \<Rightarrow> string" where
  "padStart n c s = replicate (n - length s) c @ s"

definition secondsToHHMMSS :: "seconds_arg \<Rightarrow> string" where
  "secondsToHHMMSS secondsRaw =
     (if \<not> isFinite secondsRaw \<or> secondsRaw = Null then ''00:00:00''
      else case secondsRaw of
        Finite x \<Rightarrow>
          (let s = nat (max 0 (Math_round x));
               h = nat \<lfloor>binary64 (of_nat s / 3600)\<rfloor>;
               m = nat \<lfloor>binary64 (of_nat (s mod 3600) / 60)\<rfloor>;
               sec = s mod 60
           in padStart 2 (CHR ''0'') (Number_toString h) @ '':'' @
              padStart 2 (CHR ''0'') (Number_toString m) @ '':'' @
              padStart 2 (CHR ''0'') (Number_toString sec))
      | _ \<Rightarrow> ''00:00:00'')"

subsection \<open>Reading a timer string back\<close>

text \<open>
  What "a zero-padded HH:MM:SS string whose total in seconds is \<open>n\<close>" means, written
  independently of the formatter: three fields of decimal digits separated by colons,
  the hour field of two digits or more, the minute and second fields of exactly two digits
  and below 60, and \<open>n = 3600 * HH + 60 * MM + SS\<close>.
\<close>

definition digit_val :: "char \<Rightarrow> nat option" where
  "digit_val c = (let k = of_char c :: nat in if 48 \<le> k \<and> k \<le> 57 then Some (k - 48) else None)"

fun read_digits :: "nat \<Rightarrow> string \<Rightarrow> nat option" where
  "read_digits acc [] = Some acc"
| "read_digits acc (c # cs) =
     (case digit_val c of None \<Rightarrow> None | Some d \<Rightarrow> read_digits (10 * acc + d) cs)"

definition read_nat :: "string \<Rightarrow> nat option" where
  "read_nat s = (if s = [] then None else read_digits 0 s)"

fun split_colon :: "string \<Rightarrow> string list" where
  "split_colon [] = [] # []"
| "split_colon (c # cs) =
     (if c = CHR '':'' then [] # split_colon cs
      else (case split_colon cs of [] \<Rightarrow> [c] # [] | f # fs \<Rightarrow> (c # f) # fs))"

definition hhmmss_total :: "string \<Rightarrow> nat option" where
  "hhmmss_total str =
     (case split_colon str of
        [hh, mm, ss] \<Rightarrow>
          (if 2 \<le> length hh \<and> length mm = 2 \<and> length ss = 2 then
             (case (read_nat hh, read_nat mm, read_nat ss) of
                (Some h, Some m, Some s) \<Rightarrow>
                  (if m < 60 \<and> s < 60 then Some (3600 * h + 60 * m + s) else None)
              | _ \<Rightarrow> None)
           else None)
      | _ \<Rightarrow> None)"


section \<open>JavaScript values\<close>

text \<open>
  The values the cache engine of \<^verbatim>\<open>public/input.js\<close> handles: payloads, unit maps and
  server responses are JSON values, and a missing property reads as \<open>undefined\<close>. An
  object is the list of its own properties. Inherited (prototype) members are not modelled.
\<close>

datatype jsval =
    JUndefined
  | JNull
  | JBool bool
  | JNum rat
  | JStr string
  | JArr "jsval list"
  | JObj "(string \<times> jsval) list"

fun truthy :: "jsval \<Rightarrow> bool" where
  "truthy JUndefined = False"
| "truthy JNull = False"
| "truthy (JBool b) = b"
| "truthy (JNum n) = (n \<noteq> 0)"
| "truthy (JStr s) = (s \<noteq> [])"
| "truthy (JArr xs) = True"
| "truthy (JObj kvs) = True"

text \<open>\<open>a || b\<close> and \<open>a && b\<close>.\<close>

definition js_or :: "jsval \<Rightarrow> jsval \<Rightarrow> jsval" where
  "js_or a b = (if truthy a then a else b)"

definition js_and :: "jsval \<Rightarrow> jsval \<Rightarrow> jsval" where
  "js_and a b = (if truthy a then b else a)"

text \<open>\<open>String(i)\<close> for an integer, the property key a unit number turns into.\<close>

definition String_int :: "int \<Rightarrow> string" where
  "String_int i = (if i < 0 then CHR ''-'' # String_nat (nat (- i)) else String_nat (nat i))"

text \<open>A property key is an array index when it is the decimal form of a number.\<close>

definition array_index :: "string \<Rightarrow> nat option" where
  "array_index k =
     (case read_nat k of
        None \<Rightarrow> None
      | Some i \<Rightarrow> if String_nat i = k then Some i else None)"

text \<open>\<open>v[k]\<close> for a value that is neither \<open>undefined\<close> nor \<open>null\<close>.\<close>

fun js_prop :: "jsval \<Rightarrow> string \<Rightarrow> jsval" where
  "js_prop (JObj kvs) k = (case map_of kvs k of None \<Rightarrow> JUndefined | Some v \<Rightarrow> v)"
| "js_prop (JArr xs) k =
     (case array_index k of
        Some i \<Rightarrow> if i < length xs then xs ! i else JUndefined
      | None \<Rightarrow> if k = ''length'' then JNum (of_nat (length xs)) else JUndefined)"
| "js_prop (JStr s) k =
     (case array_index k of
        Some i \<Rightarrow> if i < length s then JStr [s ! i] else JUndefined
      | None \<Rightarrow> if k = ''length'' then JNum (of_nat (length s)) else JUndefined)"
| "js_prop v k = JUndefined"

text \<open>Reading a property of \<open>undefined\<close> or \<open>null\<close> throws a TypeError: \<open>None\<close>.\<close>

definition get_prop :: "jsval \<Rightarrow> string \<Rightarrow> jsval option" where
  "get_prop v k = (if v = JUndefined \<or> v = JNull then None else Some (js_prop v k))"

text \<open>
  \<open>v[k] = x\<close>. On \<open>undefined\<close> or \<open>null\<close> it throws (\<open>None\<close>); on another primitive
  it has no effect (the scripts are not in strict mode); an array grows to hold the index.
\<close>

fun assign :: "jsval \<Rightarrow> string \<Rightarrow> jsval \<Rightarrow> jsval option" where
  "assign JUndefined k x = None"
| "assign JNull k x = None"
| "assign (JObj kvs) k x = Some (JObj (AList.update k x kvs))"
| "assign (JArr xs) k x =
     (case array_index k of
        None \<Rightarrow> Some (JArr xs)
      | Some i \<Rightarrow>
          Some (JArr (if i < length xs then xs[i := x]
                      else xs @ replicate (i - length xs) JUndefined @ [x])))"
| "assign v k x = Some v"

text \<open>The own enumerable properties \<open>Object.assign\<close> copies from a source.\<close>

fun own_props :: "jsval \<Rightarrow> (string \<times> jsval) list" where
  "own_props (JObj kvs) = kvs"
| "own_props (JArr xs) = map (\<lambda>i. (String_nat i, xs ! i)) [0..<length xs]"
| "own_props (JStr s) = map (\<lambda>i. (String_nat i, JStr [s ! i])) [0..<length s]"
| "own_props v = []"

definition Object_assign :: "(string \<times> jsval) list \<Rightarrow> jsval \<Rightarrow> (string \<times> jsval) list" where
  "Object_assign target source = foldl (\<lambda>acc (k, v). AList.update k v acc) target (own_props source)"

text \<open>\<open>typeof v === 'object'\<close>.\<close>

fun typeof_object :: "jsval \<Rightarrow> bool" where
  "typeof_object JNull = True"
| "typeof_object (JArr xs) = True"
| "typeof_object (JObj kvs) = True"
| "typeof_object v = False"


section \<open>The page: environment and state\<close>

text \<open>
  What \<^verbatim>\<open>public/input.js\<close> takes from the platform and from the page around it is a
  parameter of the model: \<open>JSON.parse\<close> (\<open>None\<close> when it throws a SyntaxError) and
  \<open>JSON.stringify\<close>, the form fields \<open>collectFormData\<close> reads from the DOM, the DOM
  writes of \<open>populateFormFromPayload\<close> and \<open>clearFormForUnitUI\<close>, and the hooks of
  \<^verbatim>\<open>input.html\<close> (\<open>computeLayerSeconds\<close>, \<open>populateHiddenDropdownsAndPopup\<close>,
  \<open>updateBunkerColors\<close>, \<open>calculateBlended\<close>, \<open>validateMillPercentages\<close>,
  \<open>updateBunkerTotalsUI\<close>). The DOM is a value of type \<open>'ui\<close>.
\<close>

record 'ui env =
  JSON_parse :: "string \<Rightarrow> jsval option"
  JSON_stringify :: "jsval \<Rightarrow> string"
  Number_String :: "string \<Rightarrow> string"
    \<comment> \<open>\<open>String(Number(s))\<close>: the property key a stored unit selection turns into\<close>
  NUM_COAL_ROWS :: nat
  form_rows :: "'ui \<Rightarrow> jsval"
  form_flows :: "'ui \<Rightarrow> jsval"
  form_generation :: "'ui \<Rightarrow> jsval"
  form_bunkerCapacity :: "'ui \<Rightarrow> jsval"
  form_bunkerCapacities :: "'ui \<Rightarrow> jsval"
  computeLayerSeconds :: "'ui \<Rightarrow> nat \<Rightarrow> seconds_arg list"
  layer_cell :: "'ui \<Rightarrow> jsval \<Rightarrow> int \<Rightarrow> nat \<Rightarrow> (string \<times> jsval) list"
    \<comment> \<open>\<open>rowIndex\<close>, \<open>coal\<close>, \<open>percent\<close>, \<open>gcv\<close>, \<open>cost\<close>, \<open>color\<close> of a layer\<close>
  populateHiddenDropdownsAndPopup :: "'ui \<Rightarrow> 'ui"
  fill_form :: "jsval \<Rightarrow> 'ui \<Rightarrow> 'ui"
  fill_dispatches :: "jsval \<Rightarrow> 'ui \<Rightarrow> bool"
    \<comment> \<open>a percentage or flow input exists, so that filling dispatches an \<open>input\<close> event\<close>
  empty_form :: "'ui \<Rightarrow> 'ui"
  empty_dispatches :: "'ui \<Rightarrow> bool"
  ui_updates :: "string option \<Rightarrow> 'ui \<Rightarrow> 'ui"
    \<comment> \<open>the display hooks; of the local storage they read the colour map\<close>
  mark_unit :: "int \<Rightarrow> 'ui \<Rightarrow> 'ui"

datatype http_method = GET | POST | PUT

datatype endpoint =
    Units              \<comment> \<open>\<open>/units\<close>\<close>
  | UnitsInit          \<comment> \<open>\<open>/units/init\<close>\<close>
  | UnitsOf int        \<comment> \<open>\<open>/units/:unit\<close>\<close>
  | Blend              \<comment> \<open>\<open>/blend\<close>\<close>
  | BlendId jsval      \<comment> \<open>\<open>/blend/:id\<close>\<close>
  | BlendLatest        \<comment> \<open>\<open>/blend/latest\<close>\<close>

datatype request = Request http_method endpoint "jsval option"

text \<open>
  A \<open>fetch\<close> either rejects or resolves to a response with its \<open>ok\<close> flag and its body
  as \<open>res.json()\<close> reads it (\<open>None\<close> when the body is not JSON and \<open>res.json()\<close> rejects).
\<close>

datatype response = NetworkError | Response bool "jsval option"

text \<open>
  What a unit switch leaves pending when it returns: the background fetch of the unit,
  suspended at its first \<open>await\<close> (with \<open>Some id\<close> when \<open>getBlendIdForUnit\<close> found the
  id in the in-memory map and returned it, with \<open>None\<close> when it waits for the response
  to the request for \<open>/units\<close>), and the timers of the prefetch and of the listeners
  with the times at which they fire.
\<close>

datatype task =
    BackgroundFetch int "jsval option"
  | PrefetchOtherUnits int nat
  | AttachAutosaveListeners nat

datatype alert = SaveFailed | SaveError | Saved

text \<open>
  The state of the page. \<open>network\<close> holds the responses the server will give, in the order
  of the requests; \<open>requests\<close>, \<open>storageWrites\<close>, \<open>captures\<close> and \<open>alerts\<close> record what
  the page did. Timers hold the time, in milliseconds, at which they fire. An async
  function that is awaited is run to its end with the responses it receives
  (\<open>fetch\<close>). An async function that is called and not awaited runs up to its first
  \<open>await\<close>: a request it makes there is sent (\<open>send\<close>), and the rest is left pending.
\<close>

record 'ui state =
  currentUnit :: int
  serverUnitMap :: jsval
  inMemoryPayloadCache :: "(string \<times> jsval) list"
  localStorage :: "string \<Rightarrow> string option"
  deferredPayloadWriteTimer :: "nat option"
  debounceTimer :: "nat option"
  autosaveAttached :: bool
  document :: 'ui
  clock :: nat
  tasks :: "task list"
  network :: "response list"
  requests :: "request list"
  storageWrites :: "(string \<times> string) list"
  captures :: "(string \<times> jsval) list"
  alerts :: "alert list"

definition BLEND_IDS_KEY :: string where
  "BLEND_IDS_KEY = ''__blendIdsByUnit_v1''"

definition PAYLOAD_CACHE_KEY :: string where
  "PAYLOAD_CACHE_KEY = ''__blendPayloadByUnit_v1''"

definition COLOR_MAP_KEY :: string where
  "COLOR_MAP_KEY = ''__coalColorMap_v2''"

definition AUTOSAVE_DEBOUNCE_MS :: nat where
  "AUTOSAVE_DEBOUNCE_MS = 180"

definition setItem :: "string \<Rightarrow> string \<Rightarrow> 'ui state \<Rightarrow> 'ui state" where
  "setItem k v st =
     st\<lparr>localStorage := (localStorage st)(k \<mapsto> v), storageWrites := storageWrites st @ [(k, v)]\<rparr>"

text \<open>\<open>localStorage.getItem(k) || '{}'\<close>\<close>

definition getItem_or_braces :: "string \<Rightarrow> 'ui state \<Rightarrow> string" where
  "getItem_or_braces k st =
     (case localStorage st k of None \<Rightarrow> ''{}'' | Some s \<Rightarrow> if s = [] then ''{}'' else s)"

definition fetch :: "request \<Rightarrow> 'ui state \<Rightarrow> response \<times> 'ui state" where
  "fetch req st =
     (case network st of [] \<Rightarrow> NetworkError | r # rs \<Rightarrow> r,
      st\<lparr>network := tl (network st), requests := requests st @ [req]\<rparr>)"

text \<open>The call \<open>fetch(url)\<close> itself: the request leaves, no response is there yet.\<close>

definition send :: "request \<Rightarrow> 'ui state \<Rightarrow> 'ui state" where
  "send req st = st\<lparr>requests := requests st @ [req]\<rparr>"

section \<open>Unit mapping\<close>

definition readBlendIds :: "'ui env \<Rightarrow> 'ui state \<Rightarrow> jsval" where
  "readBlendIds env st =
     (case JSON_parse env (getItem_or_braces BLEND_IDS_KEY st) of
        None \<Rightarrow> JObj []
      | Some v \<Rightarrow> v)"

definition writeBlendIds :: "'ui env \<Rightarrow> jsval \<Rightarrow> 'ui state \<Rightarrow> 'ui state" where
  "writeBlendIds env obj st = setItem BLEND_IDS_KEY (JSON_stringify env obj) st"

text \<open>
  \<^verbatim>\<open>
  async function fetchServerUnitMap(){
    try {
      const res = await fetch(API_BASE + '/units');
      if (!res.ok) { console.warn('fetchServerUnitMap failed', res.status); return {}; }
      const map = await res.json();
      try { writeBlendIds(map); } catch(e){} // persist fallback
      window.serverUnitMap = map || {};
      return map || {};
    } catch(e) { console.warn('fetchServerUnitMap error', e); return {}; }
  }
  \<close>
\<close>

definition fetchServerUnitMap :: "'ui env \<Rightarrow> 'ui state \<Rightarrow> jsval \<times> 'ui state" where
  "fetchServerUnitMap env st =
     (let (res, st1) = fetch (Request GET Units None) st in
      case res of
        NetworkError \<Rightarrow> (JObj [], st1)
      | Response ok body \<Rightarrow>
          if \<not> ok then (JObj [], st1)
          else (case body of
                  None \<Rightarrow> (JObj [], st1)
                | Some m \<Rightarrow>
                    (js_or m (JObj []),
                     (writeBlendIds env m st1)\<lparr>serverUnitMap := js_or m (JObj [])\<rparr>)))"

text \<open>
  \<^verbatim>\<open>
  async function ensureServerUnitMapping(){
    const map = await fetchServerUnitMap();
    const have3 = map && map['1'] && map['2'] && map['3'];
    if (have3) return map;
    try {
      const res = await fetch(API_BASE + '/units/init', { method: 'POST' });
      if (!res.ok) { console.warn('units/init failed', res.status); return await fetchServerUnitMap(); }
      const data = await res.json();
      const createdMap = data.map || (data && data.map) || {};
      window.serverUnitMap = createdMap;
      try { writeBlendIds(createdMap); } catch(e){}
      return createdMap;
    } catch (e) { console.warn('ensureServerUnitMapping error', e); return {}; }
  }
  \<close>
\<close>

definition ensureServerUnitMapping :: "'ui env \<Rightarrow> 'ui state \<Rightarrow> jsval \<times> 'ui state" where
  "ensureServerUnitMapping env st =
     (let (m, st1) = fetchServerUnitMap env st;
          have3 = js_and (js_and (js_and m (js_prop m ''1'')) (js_prop m ''2'')) (js_prop m ''3'')
      in if truthy have3 then (m, st1)
         else
           (let (res, st2) = fetch (Request POST UnitsInit None) st1 in
            case res of
              NetworkError \<Rightarrow> (JObj [], st2)
            | Response ok body \<Rightarrow>
                if \<not> ok then fetchServerUnitMap env st2
                else (case body of
                        None \<Rightarrow> (JObj [], st2)
                      | Some data \<Rightarrow>
                          (case get_prop data ''map'' of
                             None \<Rightarrow> (JObj [], st2)
                           | Some dm \<Rightarrow>
                               (let createdMap = js_or (js_or dm (js_and data dm)) (JObj [])
                                in (createdMap,
                                    writeBlendIds env createdMap
                                      (st2\<lparr>serverUnitMap := createdMap\<rparr>)))))))"

text \<open>
  A unit number is an integer; \<open>!unit\<close> is \<open>unit = 0\<close>.
  \<^verbatim>\<open>
  async function getBlendIdForUnit(unit){
    unit = Number(unit || window.currentUnit || 1);
    if (!unit) return null;
    if (window.serverUnitMap && window.serverUnitMap[String(unit)]) return window.serverUnitMap[String(unit)];
    await fetchServerUnitMap();
    if (window.serverUnitMap && window.serverUnitMap[String(unit)]) return window.serverUnitMap[String(unit)];
    const local = readBlendIds();
    return local && local[unit] ? local[unit] : null;
  }
  \<close>
\<close>

definition getBlendIdForUnit :: "'ui env \<Rightarrow> int \<Rightarrow> 'ui state \<Rightarrow> jsval \<times> 'ui state" where
  "getBlendIdForUnit env unit0 st =
     (let unit = (if unit0 \<noteq> 0 then unit0 else if currentUnit st \<noteq> 0 then currentUnit st else 1);
          key = String_int unit
      in if unit = 0 then (JNull, st)
         else if truthy (js_and (serverUnitMap st) (js_prop (serverUnitMap st) key))
         then (js_prop (serverUnitMap st) key, st)
         else
           (let st1 = snd (fetchServerUnitMap env st) in
            if truthy (js_and (serverUnitMap st1) (js_prop (serverUnitMap st1) key))
            then (js_prop (serverUnitMap st1) key, st1)
            else
              (let local = readBlendIds env st1 in
               (if truthy (js_and local (js_prop local key)) then js_prop local key else JNull,
                st1))))"

section \<open>Payload cache\<close>

definition readPayloadCache :: "'ui env \<Rightarrow> 'ui state \<Rightarrow> jsval" where
  "readPayloadCache env st =
     (case JSON_parse env (getItem_or_braces PAYLOAD_CACHE_KEY st) of
        None \<Rightarrow> JObj []
      | Some v \<Rightarrow> v)"

definition writePayloadCache :: "'ui env \<Rightarrow> jsval \<Rightarrow> 'ui state \<Rightarrow> 'ui state" where
  "writePayloadCache env obj st = setItem PAYLOAD_CACHE_KEY (JSON_stringify env obj) st"

text \<open>
  \<^verbatim>\<open>
  let _deferredPayloadWriteTimer = null;
  function schedulePersistPayloadCache() {
    if (_deferredPayloadWriteTimer) return;
    _deferredPayloadWriteTimer = setTimeout(() => {
      try { writePayloadCache(inMemoryPayloadCache); } catch(e) { ... }
      _deferredPayloadWriteTimer = null;
    }, 300); // 300ms batch window
  }
  \<close>
\<close>

definition schedulePersistPayloadCache :: "'ui state \<Rightarrow> 'ui state" where
  "schedulePersistPayloadCache st =
     (if deferredPayloadWriteTimer st \<noteq> None then st
      else st\<lparr>deferredPayloadWriteTimer := Some (clock st + 300)\<rparr>)"

text \<open>The callback of the 300 ms timer.\<close>

definition persist_flush :: "'ui env \<Rightarrow> 'ui state \<Rightarrow> 'ui state" where
  "persist_flush env st =
     (writePayloadCache env (JObj (inMemoryPayloadCache st)) st)\<lparr>deferredPayloadWriteTimer := None\<rparr>"


section \<open>Collecting and rendering the form\<close>

definition num_rows :: "'ui env \<Rightarrow> nat" where
  "num_rows env = (if NUM_COAL_ROWS env = 0 then 5 else NUM_COAL_ROWS env)"

definition read_coalColorMap :: "'ui env \<Rightarrow> 'ui state \<Rightarrow> jsval" where
  "read_coalColorMap env st =
     (case localStorage st COLOR_MAP_KEY of
        None \<Rightarrow> JObj []
      | Some rawMap \<Rightarrow>
          if rawMap = [] then JObj []
          else (case JSON_parse env rawMap of None \<Rightarrow> JObj [] | Some v \<Rightarrow> v))"

definition rawSeconds :: "seconds_arg \<Rightarrow> jsval" where
  "rawSeconds seconds =
     (if isFinite seconds
      then (case seconds of Finite x \<Rightarrow> JNum (of_int (Math_round x)) | _ \<Rightarrow> JNum 0)
      else JNull)"

definition layer :: "'ui env \<Rightarrow> 'ui \<Rightarrow> jsval \<Rightarrow> nat \<Rightarrow> nat \<Rightarrow> seconds_arg \<Rightarrow> jsval" where
  "layer env doc coalColorMap bi li seconds =
     JObj (layer_cell env doc coalColorMap (int (num_rows env) - int li) bi @
           [(''timer'', JStr (secondsToHHMMSS seconds)), (''rawSeconds'', rawSeconds seconds)])"

definition clientBunkers :: "'ui env \<Rightarrow> 'ui \<Rightarrow> jsval \<Rightarrow> jsval" where
  "clientBunkers env doc coalColorMap =
     JArr (map (\<lambda>bi. JObj [(''layers'',
                  JArr (map (\<lambda>(li, seconds). layer env doc coalColorMap bi li seconds)
                         (enumerate 0 (computeLayerSeconds env doc bi))))])
            [0..<8])"

definition collectFormData :: "'ui env \<Rightarrow> 'ui state \<Rightarrow> jsval" where
  "collectFormData env st =
     (let doc = document st; coalColorMap = read_coalColorMap env st in
      JObj [(''rows'', form_rows env doc),
            (''flows'', form_flows env doc),
            (''generation'', form_generation env doc),
            (''ts'', JNum (of_nat (clock st))),
            (''bunkerCapacity'', form_bunkerCapacity env doc),
            (''bunkerCapacities'', form_bunkerCapacities env doc),
            (''coalColorMap'', coalColorMap),
            (''clientBunkers'', clientBunkers env doc coalColorMap)])"

text \<open>
  The listeners \<open>attachAutosaveListenersOnce\<close> puts on the document call the debounced
  save on every \<open>input\<close> and \<open>change\<close> event: the pending timer is cleared and a new one
  is set.
\<close>

definition debouncedTransientSave :: "'ui state \<Rightarrow> 'ui state" where
  "debouncedTransientSave st = st\<lparr>debounceTimer := Some (clock st + AUTOSAVE_DEBOUNCE_MS)\<rparr>"

definition attachAutosaveListenersOnce :: "'ui state \<Rightarrow> 'ui state" where
  "attachAutosaveListenersOnce st = (if autosaveAttached st then st else st\<lparr>autosaveAttached := True\<rparr>)"

text \<open>An \<open>input\<close> event dispatched on a field of the form bubbles to the document.\<close>

definition dispatch_input :: "'ui state \<Rightarrow> 'ui state" where
  "dispatch_input st = (if autosaveAttached st then debouncedTransientSave st else st)"

definition run_ui_updates :: "'ui env \<Rightarrow> 'ui state \<Rightarrow> 'ui state" where
  "run_ui_updates env st =
     st\<lparr>document := ui_updates env (localStorage st COLOR_MAP_KEY) (document st)\<rparr>"

definition clearFormForUnitUI :: "'ui env \<Rightarrow> 'ui state \<Rightarrow> 'ui state" where
  "clearFormForUnitUI env st =
     (let st1 = st\<lparr>document := empty_form env (document st)\<rparr>;
          st2 = (if empty_dispatches env (document st) then dispatch_input st1 else st1)
      in run_ui_updates env st2)"

definition persist_coalColorMap :: "'ui env \<Rightarrow> jsval \<Rightarrow> 'ui state \<Rightarrow> 'ui state" where
  "persist_coalColorMap env payload st =
     (let colors = js_prop payload ''coalColorMap'' in
      if truthy colors \<and> typeof_object colors then
        (case JSON_parse env (getItem_or_braces COLOR_MAP_KEY st) of
           None \<Rightarrow> st
         | Some existing \<Rightarrow>
             setItem COLOR_MAP_KEY
               (JSON_stringify env (JObj (Object_assign (Object_assign [] existing) colors))) st)
      else st)"

definition populateFormFromPayload :: "'ui env \<Rightarrow> jsval \<Rightarrow> 'ui state \<Rightarrow> 'ui state" where
  "populateFormFromPayload env payload st =
     (if \<not> truthy payload then clearFormForUnitUI env st
      else
        (let doc = populateHiddenDropdownsAndPopup env (document st);
             st1 = st\<lparr>document := fill_form env payload doc\<rparr>;
             st2 = (if fill_dispatches env payload doc then dispatch_input st1 else st1);
             st3 = persist_coalColorMap env payload st2
         in run_ui_updates env st3))"

section \<open>Autosave\<close>

text \<open>
  \<^verbatim>\<open>
  function debounce(fn, wait){
    let t = null;
    return function(...args){ clearTimeout(t); t = setTimeout(() => fn.apply(this, args), wait); };
  }
  function saveTransientToMemory(){
    try {
      if (typeof collectFormData !== 'function') return;
      const unit = Number(window.currentUnit || localStorage.getItem('currentUnit') || 1);
      const payload = collectFormData();
      inMemoryPayloadCache[unit] = payload;       // instant
      schedulePersistPayloadCache();              // schedule async localStorage write
    } catch(e) { console.warn('saveTransientToMemory error', e); }
  }
  const debouncedTransientSave = debounce(saveTransientToMemory, AUTOSAVE_DEBOUNCE_MS);
  \<close>
\<close>

definition saveTransientToMemory :: "'ui env \<Rightarrow> 'ui state \<Rightarrow> 'ui state" where
  "saveTransientToMemory env st =
     (let unit =
            (if currentUnit st \<noteq> 0 then String_int (currentUnit st)
             else (case localStorage st ''currentUnit'' of
                     None \<Rightarrow> ''1''
                   | Some s \<Rightarrow> if s = [] then ''1'' else Number_String env s));
          payload = collectFormData env st
      in schedulePersistPayloadCache
           (st\<lparr>inMemoryPayloadCache := AList.update unit payload (inMemoryPayloadCache st),
               captures := captures st @ [(unit, payload)]\<rparr>))"

text \<open>The callback of the debounce timer.\<close>

definition debounce_fire :: "'ui env \<Rightarrow> 'ui state \<Rightarrow> 'ui state" where
  "debounce_fire env st = saveTransientToMemory env (st\<lparr>debounceTimer := None\<rparr>)"

section \<open>Unwrapping a fetched record\<close>

text \<open>\<open>data.payload || data.data || data\<close>, of the background fetch and of the prefetch.\<close>

definition unwrap_background :: "jsval \<Rightarrow> jsval option" where
  "unwrap_background data =
     (case get_prop data ''payload'' of
        None \<Rightarrow> None
      | Some p \<Rightarrow> Some (js_or (js_or p (js_prop data ''data'')) data))"

text \<open>\<open>(data && (data.rows || data.flows || data.clientBunkers)) ? data : (data && data.data ? data.data : data)\<close>\<close>

definition unwrap_loadUnitData :: "jsval \<Rightarrow> jsval" where
  "unwrap_loadUnitData data =
     (if truthy (js_and data (js_or (js_or (js_prop data ''rows'') (js_prop data ''flows''))
                                (js_prop data ''clientBunkers'')))
      then data
      else if truthy (js_and data (js_prop data ''data'')) then js_prop data ''data''
      else data)"


section \<open>Switching units\<close>

text \<open>\<open>inMemoryPayloadCache[u]\<close>\<close>

definition cached :: "'ui state \<Rightarrow> string \<Rightarrow> jsval" where
  "cached st key = js_prop (JObj (inMemoryPayloadCache st)) key"

text \<open>\<open>u = Number(u) || 1; if (u < 1) u = 1; if (u > 3) u = 3;\<close>\<close>

definition normalize_unit :: "int \<Rightarrow> int" where
  "normalize_unit u0 =
     (let u = (if u0 = 0 then 1 else u0);
          u = (if u < 1 then 1 else u)
      in if u > 3 then 3 else u)"

text \<open>The instant render of \<open>setCurrentUnitFast\<close>: memory, else local storage, else empty.\<close>

definition render_unit :: "'ui env \<Rightarrow> int \<Rightarrow> 'ui state \<Rightarrow> 'ui state" where
  "render_unit env u st =
     (let key = String_int u in
      if truthy (cached st key) then populateFormFromPayload env (cached st key) st
      else
        (case localStorage st ''__blendPayloadByUnit_v1'' of
           None \<Rightarrow> clearFormForUnitUI env st
         | Some ls \<Rightarrow>
             if ls = [] then clearFormForUnitUI env st
             else
               (case JSON_parse env ls of
                  None \<Rightarrow> clearFormForUnitUI env st
                | Some parsed \<Rightarrow>
                    if truthy (js_and parsed (js_prop parsed key)) then
                      populateFormFromPayload env (js_prop parsed key)
                        (st\<lparr>inMemoryPayloadCache :=
                              AList.update key (js_prop parsed key) (inMemoryPayloadCache st)\<rparr>)
                    else clearFormForUnitUI env st)))"

text \<open>
  The part of \<open>backgroundFetch\<close> that runs inside the switch. The switch calls the
  async function and does not await it, so it runs up to its first \<open>await\<close>:
  \<open>getBlendIdForUnit(u)\<close> is called, which returns the id of the in-memory map when
  there is one, and otherwise calls \<open>fetchServerUnitMap\<close>, whose first statement is
  \<open>fetch(API_BASE + '/units')\<close>. That request is sent inside the switch; its response,
  and everything after it, is handled when the switch has returned.
\<close>

definition backgroundFetch_start :: "int \<Rightarrow> 'ui state \<Rightarrow> 'ui state" where
  "backgroundFetch_start u st =
     (let unit = (if u \<noteq> 0 then u else if currentUnit st \<noteq> 0 then currentUnit st else 1);
          key = String_int unit
      in if unit = 0 then st\<lparr>tasks := tasks st @ [BackgroundFetch u (Some JNull)]\<rparr>
         else if truthy (js_and (serverUnitMap st) (js_prop (serverUnitMap st) key))
         then st\<lparr>tasks := tasks st @ [BackgroundFetch u (Some (js_prop (serverUnitMap st) key))]\<rparr>
         else (send (Request GET Units None) st)
                \<lparr>tasks := tasks st @ [BackgroundFetch u None]\<rparr>)"

text \<open>
  \<open>setCurrentUnitFast\<close>, as far as it runs before it returns: the snapshot, the
  selection, the instant render and the start of the background fetch. The prefetch
  (after 240 ms) and the re-attachment of the listeners (after 120 ms) are timers.
\<close>

definition setCurrentUnitFast :: "'ui env \<Rightarrow> int \<Rightarrow> 'ui state \<Rightarrow> 'ui state" where
  "setCurrentUnitFast env u0 st =
     (let st1 = saveTransientToMemory env st;
          u = normalize_unit u0;
          st2 = setItem ''currentUnit'' (String_int u) (st1\<lparr>currentUnit := u\<rparr>);
          st3 = st2\<lparr>document := mark_unit env u (document st2)\<rparr>;
          st4 = render_unit env u st3;
          st5 = backgroundFetch_start u st4
      in st5\<lparr>tasks := tasks st5 @
                 [PrefetchOtherUnits u (clock st5 + 240),
                  AttachAutosaveListeners (clock st5 + 120)]\<rparr>)"

text \<open>
  The whole of \<open>backgroundFetch\<close>, for the unit \<open>u\<close> the switch went to, from its
  start to its end with the responses it receives.
\<close>

text \<open>
  \<^verbatim>\<open>
  (async function backgroundFetch(){
    try {
      const id = await getBlendIdForUnit(u);
      if (!id) return;
      const res = await fetch(API_BASE + '/blend/' + id);
      if (!res.ok) return;
      const data = await res.json();
      const payload = data.payload || data.data || data;
      try {
        const oldStr = JSON.stringify(inMemoryPayloadCache[u] || {});
        const newStr = JSON.stringify(payload || {});
        if (oldStr !== newStr) {
          inMemoryPayloadCache[u] = payload;
          populateFormFromPayload(payload);
          schedulePersistPayloadCache(); // persist new authoritative payload
        }
      } catch(e){}
    } catch(e){ /* background fetch failed - ignore */ }
  })();
  \<close>
\<close>

definition reconcile :: "'ui env \<Rightarrow> string \<Rightarrow> jsval \<Rightarrow> 'ui state \<Rightarrow> 'ui state" where
  "reconcile env key payload st =
     (let oldStr = JSON_stringify env (js_or (cached st key) (JObj []));
          newStr = JSON_stringify env (js_or payload (JObj []))
      in if oldStr \<noteq> newStr then
           schedulePersistPayloadCache
             (populateFormFromPayload env payload
                (st\<lparr>inMemoryPayloadCache := AList.update key payload (inMemoryPayloadCache st)\<rparr>))
         else st)"

definition backgroundFetch :: "'ui env \<Rightarrow> int \<Rightarrow> 'ui state \<Rightarrow> 'ui state" where
  "backgroundFetch env u st =
     (let (blend_id, st1) = getBlendIdForUnit env u st in
      if \<not> truthy blend_id then st1
      else
        (let (res, st2) = fetch (Request GET (BlendId blend_id) None) st1 in
         case res of
           NetworkError \<Rightarrow> st2
         | Response ok body \<Rightarrow>
             if \<not> ok then st2
             else (case body of
                     None \<Rightarrow> st2
                   | Some data \<Rightarrow>
                       (case unwrap_background data of
                          None \<Rightarrow> st2
                        | Some payload \<Rightarrow> reconcile env (String_int u) payload st2))))"

text \<open>
  The body of the timer of \<open>prefetchOtherUnits\<close>. The loop issues its requests without
  waiting; a TypeError in it (\<open>readBlendIds()[u]\<close> on \<open>null\<close>) ends the loop. The responses
  are handled afterwards.
\<close>

fun prefetch_loop ::
  "'ui env \<Rightarrow> int \<Rightarrow> int list \<Rightarrow> 'ui state \<Rightarrow> (string \<times> response) list \<times> 'ui state" where
  "prefetch_loop env current [] st = ([], st)"
| "prefetch_loop env current (u # us) st =
     (let key = String_int u in
      if u = current then prefetch_loop env current us st
      else if truthy (cached st key) then prefetch_loop env current us st
      else
        (case (if truthy (js_and (serverUnitMap st) (js_prop (serverUnitMap st) key))
               then Some (js_prop (serverUnitMap st) key)
               else (case get_prop (readBlendIds env st) key of
                       None \<Rightarrow> None
                     | Some v \<Rightarrow> Some (js_or v JNull))) of
           None \<Rightarrow> ([], st)
         | Some blend_id \<Rightarrow>
             if \<not> truthy blend_id then prefetch_loop env current us st
             else
               (let (r, st1) = fetch (Request GET (BlendId blend_id) None) st;
                    (rs, st2) = prefetch_loop env current us st1
                in ((key, r) # rs, st2))))"

definition prefetch_done :: "string \<Rightarrow> response \<Rightarrow> 'ui state \<Rightarrow> 'ui state" where
  "prefetch_done key r st =
     (case r of
        NetworkError \<Rightarrow> st
      | Response ok body \<Rightarrow>
          if \<not> ok then st
          else (case body of
                  None \<Rightarrow> st
                | Some d \<Rightarrow>
                    (case unwrap_background d of
                       None \<Rightarrow> st
                     | Some p \<Rightarrow>
                         schedulePersistPayloadCache
                           (st\<lparr>inMemoryPayloadCache :=
                                 AList.update key p (inMemoryPayloadCache st)\<rparr>))))"

definition prefetchOtherUnits :: "'ui env \<Rightarrow> int \<Rightarrow> 'ui state \<Rightarrow> 'ui state" where
  "prefetchOtherUnits env current st =
     (let st1 = snd (fetchServerUnitMap env st);
          (rs, st2) = prefetch_loop env current [1, 2, 3] st1
      in foldl (\<lambda>s (key, r). prefetch_done key r s) st2 rs)"

section \<open>Loading a unit\<close>

text \<open>"If no id, or the fetch fails: the cache was shown already; otherwise clear."\<close>

definition clear_unless_cached :: "'ui env \<Rightarrow> string \<Rightarrow> 'ui state \<Rightarrow> 'ui state" where
  "clear_unless_cached env key st =
     (let cache = readPayloadCache env st in
      if \<not> truthy cache \<or> \<not> truthy (js_prop cache key) then clearFormForUnitUI env st else st)"

text \<open>The \<open>catch\<close> block of \<open>loadUnitData\<close>.\<close>

definition loadUnitData_catch :: "'ui env \<Rightarrow> string \<Rightarrow> 'ui state \<Rightarrow> jsval \<times> 'ui state" where
  "loadUnitData_catch env key st =
     (let cache = readPayloadCache env st in
      if truthy (js_and cache (js_prop cache key))
      then (js_prop cache key, populateFormFromPayload env (js_prop cache key) st)
      else (JNull, clearFormForUnitUI env st))"

text \<open>The \<open>try\<close> block that stores the fetched payload in the durable and the memory tier.\<close>

definition loadUnitData_store :: "'ui env \<Rightarrow> string \<Rightarrow> jsval \<Rightarrow> 'ui state \<Rightarrow> 'ui state" where
  "loadUnitData_store env key payload st =
     (case assign (readPayloadCache env st) key payload of
        None \<Rightarrow> st
      | Some cache \<Rightarrow>
          (writePayloadCache env cache st)
            \<lparr>inMemoryPayloadCache := AList.update key payload (inMemoryPayloadCache st)\<rparr>)"

text \<open>\<open>loadUnitData\<close> from \<open>const res = await fetch(API_BASE + '/blend/' + id)\<close> on.\<close>

definition loadUnitData_fetch ::
  "'ui env \<Rightarrow> string \<Rightarrow> jsval \<Rightarrow> 'ui state \<Rightarrow> jsval \<times> 'ui state" where
  "loadUnitData_fetch env key blend_id st1 =
     (let (res, st2) = fetch (Request GET (BlendId blend_id) None) st1 in
      case res of
        NetworkError \<Rightarrow> loadUnitData_catch env key st2
      | Response ok body \<Rightarrow>
          if \<not> ok then (JNull, clear_unless_cached env key st2)
          else (case body of
                  None \<Rightarrow> loadUnitData_catch env key st2
                | Some data \<Rightarrow>
                    (let payload = unwrap_loadUnitData data;
                         st3 = st2\<lparr>document := populateHiddenDropdownsAndPopup env (document st2)\<rparr>;
                         st4 = populateFormFromPayload env payload st3
                     in (payload, loadUnitData_store env key payload st4))))"

definition loadUnitData :: "'ui env \<Rightarrow> int \<Rightarrow> 'ui state \<Rightarrow> jsval \<times> 'ui state" where
  "loadUnitData env unit0 st =
     (let unit = (if unit0 \<noteq> 0 then unit0 else if currentUnit st \<noteq> 0 then currentUnit st else 1);
          key = String_int unit;
          cache0 = readPayloadCache env st;
          st0 = (if truthy (js_and cache0 (js_prop cache0 key))
                 then populateFormFromPayload env (js_prop cache0 key) st else st);
          (blend_id, st1) = getBlendIdForUnit env unit st0
      in if \<not> truthy blend_id then (JNull, clear_unless_cached env key st1)
         else loadUnitData_fetch env key blend_id st1)"

section \<open>Saving\<close>

definition alert :: "alert \<Rightarrow> 'ui state \<Rightarrow> 'ui state" where
  "alert a st = st\<lparr>alerts := alerts st @ [a]\<rparr>"

text \<open>
  After a POST that returned an id: the id goes into the local map and to
  \<open>PUT /units/:unit\<close>, and the server map is fetched again. \<open>None\<close> is the TypeError of
  \<open>ids[unit] = returnedId\<close> on \<open>null\<close>.
\<close>

definition record_created_id ::
  "'ui env \<Rightarrow> int \<Rightarrow> jsval \<Rightarrow> jsval \<Rightarrow> jsval \<Rightarrow> 'ui state \<Rightarrow> (jsval \<times> 'ui state) option" where
  "record_created_id env unit idForUnit returnedId ids st =
     (if \<not> truthy idForUnit \<and> truthy returnedId then
        (case assign ids (String_int unit) returnedId of
           None \<Rightarrow> None
         | Some ids' \<Rightarrow>
             (let st1 = writeBlendIds env ids' st;
                  (r, st2) = fetch (Request PUT (UnitsOf unit)
                                      (Some (JObj [(''blendId'', returnedId)]))) st1
              in case r of
                   NetworkError \<Rightarrow> Some (ids', st2)
                 | Response ok body \<Rightarrow> Some (ids', snd (fetchServerUnitMap env st2))))
      else Some (ids, st))"

text \<open>"Save payload to local cache for immediate restore on unit switch."\<close>

definition cache_saved_payload :: "'ui env \<Rightarrow> int \<Rightarrow> jsval \<Rightarrow> jsval \<Rightarrow> 'ui state \<Rightarrow> 'ui state" where
  "cache_saved_payload env unit data payload st =
     (let serverPayload = js_or (js_or (js_prop data ''payload'') (js_prop data ''data'')) JNull;
          key = String_int unit
      in case assign (readPayloadCache env st) key (js_or serverPayload payload) of
           None \<Rightarrow> st
         | Some cache \<Rightarrow>
             (let st1 = writePayloadCache env cache st in
              st1\<lparr>inMemoryPayloadCache :=
                    AList.update key (js_prop cache key) (inMemoryPayloadCache st1)\<rparr>))"

text \<open>\<open>saveToServer\<close> from \<open>var data = await res.json()\<close> on.\<close>

definition saveToServer_saved ::
  "'ui env \<Rightarrow> int \<Rightarrow> jsval \<Rightarrow> jsval \<Rightarrow> jsval \<Rightarrow> jsval \<Rightarrow> 'ui state \<Rightarrow> 'ui state" where
  "saveToServer_saved env unit idForUnit ids payload data st2 =
     (case get_prop data ''id'' of
        None \<Rightarrow> alert SaveError st2
      | Some data_id \<Rightarrow>
          (let returnedId = js_or (js_or data_id (js_prop data ''_id'')) JNull in
           case record_created_id env unit idForUnit returnedId ids st2 of
             None \<Rightarrow> alert SaveError st2
           | Some (ids', st3) \<Rightarrow>
               (let st4 = cache_saved_payload env unit data payload st3;
                    key = String_int unit;
                    sm = serverUnitMap st4
                in if truthy (js_and sm (js_prop sm key)) then alert Saved st4
                   else (case get_prop ids' key of
                           None \<Rightarrow> alert SaveError st4
                         | Some v \<Rightarrow> alert Saved st4))))"

definition saveToServer :: "'ui env \<Rightarrow> 'ui state \<Rightarrow> 'ui state" where
  "saveToServer env st =
     (let payload = collectFormData env st;
          ids = readBlendIds env st;
          unit = (if currentUnit st \<noteq> 0 then currentUnit st else 1);
          (idForUnit, st1) = getBlendIdForUnit env unit st;
          req = (if truthy idForUnit then Request PUT (BlendId idForUnit) (Some payload)
                 else Request POST Blend (Some payload));
          (res, st2) = fetch req st1
      in case res of
           NetworkError \<Rightarrow> alert SaveError st2
         | Response ok body \<Rightarrow>
             if \<not> ok then alert SaveFailed st2
             else (case body of
                     None \<Rightarrow> alert SaveError st2
                   | Some data \<Rightarrow> saveToServer_saved env unit idForUnit ids payload data st2))"

section \<open>Timers\<close>

datatype timer = PersistTimer | DebounceTimer

text \<open>The timer that fires next, if one is due at time \<open>t\<close>; the earlier deadline first.\<close>

definition due :: "nat \<Rightarrow> 'ui state \<Rightarrow> (timer \<times> nat) option" where
  "due t st =
     (case (deferredPayloadWriteTimer st, debounceTimer st) of
        (None, None) \<Rightarrow> None
      | (Some p, None) \<Rightarrow> if p \<le> t then Some (PersistTimer, p) else None
      | (None, Some d) \<Rightarrow> if d \<le> t then Some (DebounceTimer, d) else None
      | (Some p, Some d) \<Rightarrow>
          if p \<le> d then (if p \<le> t then Some (PersistTimer, p) else None)
          else (if d \<le> t then Some (DebounceTimer, d) else None))"

definition fire :: "'ui env \<Rightarrow> timer \<Rightarrow> nat \<Rightarrow> 'ui state \<Rightarrow> 'ui state" where
  "fire env tm deadline st =
     (let st1 = st\<lparr>clock := max (clock st) deadline\<rparr> in
      case tm of PersistTimer \<Rightarrow> persist_flush env st1 | DebounceTimer \<Rightarrow> debounce_fire env st1)"

definition pending :: "'ui state \<Rightarrow> nat" where
  "pending st =
     (if debounceTimer st = None then 0 else 2) + (if deferredPayloadWriteTimer st = None then 0 else 1)"

text \<open>Time passes until \<open>t\<close>: every timer due by then fires.\<close>

function run_timers :: "'ui env \<Rightarrow> nat \<Rightarrow> 'ui state \<Rightarrow> 'ui state" where
  "run_timers env t st =
     (case due t st of
        None \<Rightarrow> st\<lparr>clock := max (clock st) t\<rparr>
      | Some (tm, deadline) \<Rightarrow> run_timers env t (fire env tm deadline st))"
  by pat_completeness auto
termination
proof (relation "measure (\<lambda>(env, t, st). pending st)")
  show "wf (measure (\<lambda>(env :: 'ui env, t :: nat, st :: 'ui state). pending st))"
    by simp
next
  fix env :: "'ui env" and t :: nat and st :: "'ui state" and x tm deadline
  assume "due t st = Some x" and "(tm, deadline) = x"
  then have d: "due t st = Some (tm, deadline)" by simp
  have "pending (fire env tm deadline st) < pending st"
  proof (cases tm)
    case PersistTimer
    with d show ?thesis
      by (auto simp: due_def fire_def pending_def persist_flush_def writePayloadCache_def
            setItem_def split: option.splits if_splits)
  next
    case DebounceTimer
    with d show ?thesis
      by (auto simp: due_def fire_def pending_def debounce_fire_def saveTransientToMemory_def
            schedulePersistPayloadCache_def Let_def split: option.splits if_splits)
  qed
  then show "((env, t, fire env tm deadline st), (env, t, st))
      \<in> measure (\<lambda>(env, t, st). pending st)"
    by simp
qed

declare run_timers.simps [simp del]



section \<open>Notions the properties are stated with\<close>

text \<open>A unit map has an entry for a key: \<open>m && m[key]\<close> is truthy.\<close>

definition has_entry :: "jsval \<Rightarrow> string \<Rightarrow> bool" where
  "has_entry m key = truthy (js_and m (js_prop m key))"

text \<open>
  The unwrapping of a fetched record in the specification's words: the top-level
  object when it has the shape of a payload already (\<open>rows\<close>, \<open>flows\<close> or
  \<open>clientBunkers\<close>, the test of \<open>loadUnitData\<close>), otherwise a nested \<open>payload\<close> or
  \<open>data\<close> field, otherwise the object itself.
\<close>

definition has_payload_shape :: "jsval \<Rightarrow> bool" where
  "has_payload_shape data =
     truthy (js_and data (js_or (js_or (js_prop data ''rows'') (js_prop data ''flows''))
                            (js_prop data ''clientBunkers'')))"

definition unwrap_spec :: "jsval \<Rightarrow> jsval" where
  "unwrap_spec data =
     (if has_payload_shape data then data
      else if truthy (js_prop data ''payload'') then js_prop data ''payload''
      else if truthy (js_prop data ''data'') then js_prop data ''data''
      else data)"

text \<open>
  The state in which the durable payload-cache key holds \<open>v\<close> (\<open>None\<close>: the key is
  absent), and the contents that are absent or that \<open>JSON.parse\<close> rejects.
\<close>

definition stored_cache :: "string option \<Rightarrow> 'ui state \<Rightarrow> 'ui state" where
  "stored_cache v st = st\<lparr>localStorage := (localStorage st)(PAYLOAD_CACHE_KEY := v)\<rparr>"

definition corrupt_or_absent :: "'ui env \<Rightarrow> string option \<Rightarrow> bool" where
  "corrupt_or_absent env v = (case v of None \<Rightarrow> True | Some s \<Rightarrow> s = [] \<or> JSON_parse env s = None)"

text \<open>
  Two runs have the same outcome up to the stored text of the payload cache: the same
  result, the same state once the payload-cache key is set aside, and the same reading of
  the durable tier.
\<close>

definition same_outcome :: "'ui env \<Rightarrow> jsval \<times> 'ui state \<Rightarrow> jsval \<times> 'ui state \<Rightarrow> bool" where
  "same_outcome env a b =
     (fst a = fst b
      \<and> stored_cache None (snd a) = stored_cache None (snd b)
      \<and> readPayloadCache env (snd a) = readPayloadCache env (snd b))"

text \<open>The writes of the durable payload-cache key so far, in order.\<close>

definition cache_writes :: "'ui state \<Rightarrow> string list" where
  "cache_writes st = map snd (filter (\<lambda>kv. fst kv = PAYLOAD_CACHE_KEY) (storageWrites st))"

text \<open>
  The requests a switch to \<open>u\<close> sends before it returns: the unit map is asked for
  when the in-memory map has no id for \<open>u\<close>.
\<close>

definition started_requests :: "'ui state \<Rightarrow> int \<Rightarrow> request list" where
  "started_requests st u =
     (if truthy (js_and (serverUnitMap st) (js_prop (serverUnitMap st) (String_int u)))
      then [] else [Request GET Units None])"

text \<open>
  Captures taken directly, as \<open>setCurrentUnitFast\<close> takes them, at the given times, each
  after a change to the form.
\<close>

fun captures_at :: "'ui env \<Rightarrow> (nat \<times> ('ui \<Rightarrow> 'ui)) list \<Rightarrow> 'ui state \<Rightarrow> 'ui state" where
  "captures_at env [] st = st"
| "captures_at env ((t, change) # cs) st =
     captures_at env cs
       (let st1 = run_timers env t st in
        saveTransientToMemory env (st1\<lparr>document := change (document st1)\<rparr>))"


section \<open>A small page for evaluating the model\<close>

text \<open>
  The DOM is the value the form shows. \<open>JSON.parse\<close> knows a few texts, and
  \<open>JSON.stringify\<close> tells the empty object from \<open>null\<close> and from everything else.
\<close>

definition demo_ids :: jsval where
  "demo_ids = JObj [(''2'', JStr ''abc123'')]"

definition demo_payload :: jsval where
  "demo_payload = JObj [(''rows'', JArr []), (''generation'', JNum 210)]"

definition demo_created :: jsval where
  "demo_created = JObj [(''1'', JStr ''abc123'')]"

definition demo_parse :: "string \<Rightarrow> jsval option" where
  "demo_parse s =
     (if s = ''{}'' then Some (JObj [])
      else if s = ''null'' then Some JNull
      else if s = ''ids'' then Some demo_ids
      else if s = ''created'' then Some demo_created
      else if s = ''cache'' then Some (JObj [(''2'', demo_payload)])
      else None)"

definition demo_stringify :: "jsval \<Rightarrow> string" where
  "demo_stringify v =
     (if v = JObj [] then ''{}''
      else if v = JNull then ''null''
      else if v = demo_ids then ''ids''
      else if v = demo_created then ''created''
      else if v = JObj [(''2'', demo_payload)] then ''cache''
      else ''other'')"

definition demo_env :: "jsval env" where
  "demo_env =
     \<lparr>JSON_parse = demo_parse,
      JSON_stringify = demo_stringify,
      Number_String = (\<lambda>s. s),
      NUM_COAL_ROWS = 5,
      form_rows = (\<lambda>doc. js_prop doc ''rows''),
      form_flows = (\<lambda>doc. js_prop doc ''flows''),
      form_generation = (\<lambda>doc. js_prop doc ''generation''),
      form_bunkerCapacity = (\<lambda>doc. js_prop doc ''bunkerCapacity''),
      form_bunkerCapacities = (\<lambda>doc. js_prop doc ''bunkerCapacities''),
      computeLayerSeconds = (\<lambda>doc bi. []),
      layer_cell = (\<lambda>doc colors row bi. []),
      populateHiddenDropdownsAndPopup = (\<lambda>doc. doc),
      fill_form = (\<lambda>payload doc. payload),
      fill_dispatches = (\<lambda>payload doc. False),
      empty_form = (\<lambda>doc. JObj []),
      empty_dispatches = (\<lambda>doc. False),
      ui_updates = (\<lambda>colors doc. doc),
      mark_unit = (\<lambda>u doc. doc)\<rparr>"

definition demo_state :: "jsval state" where
  "demo_state =
     \<lparr>currentUnit = 1,
      serverUnitMap = JObj [],
      inMemoryPayloadCache = [],
      localStorage = Map.empty,
      deferredPayloadWriteTimer = None,
      debounceTimer = None,
      autosaveAttached = True,
      document = demo_payload,
      clock = 1000,
      tasks = [],
      network = [],
      requests = [],
      storageWrites = [],
      captures = [],
      alerts = []\<rparr>"

text \<open>Unit 2 is mapped to a record on the server, which answers with the payload.\<close>

definition demo_mapped :: "jsval state" where
  "demo_mapped =
     demo_state\<lparr>serverUnitMap := demo_ids, network := [Response True (Some demo_payload)]\<rparr>"

definition demo_fetched :: "jsval state" where
  "demo_fetched =
     demo_state\<lparr>serverUnitMap := demo_ids, network := [],
                requests := [Request GET (BlendId (JStr ''abc123'')) None]\<rparr>"

text \<open>
  Unit 1 has no record yet. The server knows no unit, creates the record \<open>abc123\<close> on
  the POST, accepts the PUT of the mapping and then lists it.
\<close>

definition demo_unsaved :: "jsval state" where
  "demo_unsaved =
     demo_state\<lparr>network :=
       [Response True (Some (JObj [])),
        Response True (Some (JObj [(''id'', JStr ''abc123'')])),
        Response True None,
        Response True (Some demo_created)]\<rparr>"

section \<open>Properties of the timer formatting\<close>

subsection \<open>Rounding\<close>

lemma exponent_bounds:
  "0 < q \<Longrightarrow> power_int 2 (exponent q) \<le> q \<and> q < power_int 2 (exponent q + 1)"
proof (induction q rule: exponent.induct)
  case (1 q)
  show ?case
  proof (cases "2 \<le> q")
    case True
    then have e: "exponent q = exponent (q / 2) + 1"
      using 1(3) by (subst exponent.simps) simp
    have "power_int 2 (exponent (q / 2)) \<le> q / 2 \<and> q / 2 < power_int 2 (exponent (q / 2) + 1)"
      using 1(1) True 1(3) by simp
    moreover have "power_int (2::rat) (exponent (q / 2) + 1 + 1) = power_int 2 (exponent (q / 2) + 1) * 2"
      by (rule power_int_add_1) simp
    moreover have "power_int (2::rat) (exponent (q / 2) + 1) = power_int 2 (exponent (q / 2)) * 2"
      by (rule power_int_add_1) simp
    ultimately show ?thesis unfolding e by linarith
  next
    case False
    show ?thesis
    proof (cases "q < 1")
      case True
      then have e: "exponent q = exponent (2 * q) - 1"
        using 1(3) False by (subst exponent.simps) simp
      have ih: "power_int 2 (exponent (2 * q)) \<le> 2 * q \<and> 2 * q < power_int 2 (exponent (2 * q) + 1)"
        using 1(2) True False 1(3) by simp
      have m: "power_int (2::rat) (exponent (2 * q) - 1) * 2 = power_int 2 (exponent (2 * q))"
        by (rule power_int_minus_mult) simp
      have m2: "power_int (2::rat) (exponent (2 * q) + 1) = power_int 2 (exponent (2 * q)) * 2"
        by (rule power_int_add_1) simp
      show ?thesis unfolding e using ih m m2 by simp
    next
      case nl: False
      then have e: "exponent q = 0"
        using 1(3) False by (subst exponent.simps) simp
      show ?thesis unfolding e using False nl by simp
    qed
  qed
qed

lemma round_even_of_int: "round_even (of_int n) = n"
  by (simp add: round_even_def)

lemma round_even_upper: "of_int (round_even x) \<le> x + 1 / 2"
proof -
  have fl: "of_int \<lfloor>x\<rfloor> \<le> x" by (rule of_int_floor_le)
  consider "x - of_int \<lfloor>x\<rfloor> < 1 / 2" | "1 / 2 < x - of_int \<lfloor>x\<rfloor>"
    | "x - of_int \<lfloor>x\<rfloor> = 1 / 2" by linarith
  then show ?thesis
  proof cases
    case 1
    then have "round_even x = \<lfloor>x\<rfloor>" by (simp add: round_even_def Let_def)
    then show ?thesis using fl by linarith
  next
    case 2
    then have "round_even x = \<lfloor>x\<rfloor> + 1" by (simp add: round_even_def Let_def)
    then show ?thesis using 2 by simp
  next
    case 3
    then have "round_even x = \<lfloor>x\<rfloor> \<or> round_even x = \<lfloor>x\<rfloor> + 1"
      by (simp add: round_even_def Let_def)
    then show ?thesis using 3 fl by auto
  qed
qed

lemma round_even_ge: "of_int n \<le> x \<Longrightarrow> n \<le> round_even x"
proof -
  assume "of_int n \<le> x"
  then have "n \<le> \<lfloor>x\<rfloor>" by (simp only: le_floor_iff)
  moreover have "\<lfloor>x\<rfloor> \<le> round_even x" by (simp add: round_even_def Let_def)
  ultimately show ?thesis by simp
qed

lemma exponent_less:
  assumes "0 < q" and "q < 2 ^ n"
  shows "exponent q < int n"
proof (rule ccontr)
  assume "\<not> exponent q < int n"
  then have "int n \<le> exponent q" by simp
  then have "power_int (2::rat) (int n) \<le> power_int 2 (exponent q)"
    by (intro power_int_increasing) simp_all
  also have "\<dots> \<le> q" using exponent_bounds[OF assms(1)] by simp
  finally show False using assms(2) by simp
qed

lemma exponent_ge:
  assumes "2 ^ n \<le> q"
  shows "int n \<le> exponent q"
proof (rule ccontr)
  have q: "0 < q" using assms by (rule less_le_trans[rotated]) simp
  assume "\<not> int n \<le> exponent q"
  then have "exponent q + 1 \<le> int n" by simp
  then have "power_int (2::rat) (exponent q + 1) \<le> power_int 2 (int n)"
    by (intro power_int_increasing) simp_all
  moreover have "q < power_int 2 (exponent q + 1)" using exponent_bounds[OF q] by simp
  ultimately show False using assms by simp
qed

text \<open>Below \<open>2^53\<close> the unit of the last place is \<open>1 / 2^k\<close>.\<close>

lemma ulp_small:
  assumes "0 < q" and "q < 2 ^ 53"
  obtains k where "power_int (2::rat) (max (exponent q) (- 1022) - 52) = 1 / 2 ^ k"
proof -
  have "exponent q < 53" using exponent_less[OF assms] by simp
  then have le: "max (exponent q) (- 1022) - 52 \<le> 0" by simp
  define k where "k = nat (- (max (exponent q) (- 1022) - 52))"
  have "max (exponent q) (- 1022) - 52 = - int k" using le by (simp add: k_def)
  then have "power_int (2::rat) (max (exponent q) (- 1022) - 52) = 1 / 2 ^ k"
    by (simp add: power_int_minus inverse_eq_divide)
  then show ?thesis by (rule that)
qed

lemma binary64_0: "binary64 0 = 0"
  by (simp add: binary64_def round_even_def)

lemma binary64_exact:
  assumes "v < 2 ^ 53"
  shows "binary64 (of_nat v) = of_nat v"
proof (cases "v = 0")
  case True
  then show ?thesis by (simp add: binary64_0)
next
  case False
  then have p: "0 < (of_nat v :: rat)" by simp
  have b: "(of_nat v :: rat) < 2 ^ 53" using assms
    by (metis of_nat_less_iff of_nat_numeral of_nat_power)
  obtain k where u: "power_int (2::rat) (max (exponent (of_nat v)) (- 1022) - 52) = 1 / 2 ^ k"
    using ulp_small[OF p b] by blast
  have "(of_nat v :: rat) / (1 / 2 ^ k) = of_int (int (v * 2 ^ k))" by simp
  then have "round_even (of_nat v / (1 / 2 ^ k)) = int (v * 2 ^ k)"
    by (simp only: round_even_of_int)
  then show ?thesis
    using p by (simp add: binary64_def Let_def u)
qed

lemma binary64_large:
  assumes "2 ^ 53 \<le> v"
  shows "(2 ^ 53 :: rat) \<le> binary64 (of_nat v)"
proof -
  let ?q = "of_nat v :: rat"
  have q53: "(2 ^ 53 :: rat) \<le> ?q" using assms
    by (metis of_nat_le_iff of_nat_numeral of_nat_power)
  then have q: "0 < ?q" by (rule less_le_trans[rotated]) simp
  have e: "53 \<le> exponent ?q" using exponent_ge[OF q53] by simp
  then have m: "max (exponent ?q) (- 1022) = exponent ?q" by simp
  define u :: rat where "u = power_int 2 (exponent ?q - 52)"
  have u0: "0 < u" by (simp add: u_def)
  have "power_int (2::rat) 1 \<le> power_int 2 (exponent ?q - 52)"
    using e by (intro power_int_increasing) simp_all
  then have u2: "2 \<le> u" by (simp add: u_def)
  have "power_int (2::rat) (52 + (exponent ?q - 52)) = power_int 2 52 * power_int 2 (exponent ?q - 52)"
    by (rule power_int_add) simp
  then have "power_int (2::rat) (exponent ?q) = 2 ^ 52 * power_int 2 (exponent ?q - 52)"
    by simp
  then have "2 ^ 52 * u \<le> ?q"
    using exponent_bounds[OF q] by (simp add: u_def)
  then have "of_int (2 ^ 52) \<le> ?q / u" using u0 by (simp add: le_divide_eq)
  then have "2 ^ 52 \<le> round_even (?q / u)" by (rule round_even_ge)
  then have "(2 ^ 52 :: rat) \<le> of_int (round_even (?q / u))"
    by (metis of_int_le_iff of_int_numeral of_int_power)
  then have "2 ^ 52 * 2 \<le> of_int (round_even (?q / u)) * u"
    using u2 by (intro mult_mono) simp_all
  then show ?thesis
    using q by (simp add: binary64_def Let_def m u_def)
qed

lemma floor_binary64_div:
  assumes "a < 2 ^ 53" and "0 < d" and "d \<le> 4096"
  shows "\<lfloor>binary64 (of_nat a / of_nat d)\<rfloor> = int (a div d)"
proof (cases "a = 0")
  case True
  then show ?thesis by (simp add: binary64_0)
next
  case False
  let ?q = "of_nat a / of_nat d :: rat"
  let ?n = "a div d"
  have d0: "0 < (of_nat d :: rat)" using assms(2) by simp
  have q: "0 < ?q" using False assms(2) by simp
  have a53: "(of_nat a :: rat) < 2 ^ 53" using assms(1)
    by (metis of_nat_less_iff of_nat_numeral of_nat_power)
  have d1: "(1::rat) \<le> of_nat d" using assms(2) by (simp add: Suc_le_eq)
  have "?q \<le> of_nat a / 1" using d1 by (intro divide_left_mono) simp_all
  then have q53: "?q < 2 ^ 53" using a53 by simp
  define u :: rat where "u = power_int 2 (max (exponent ?q) (- 1022) - 52)"
  have u0: "0 < u" by (simp add: u_def)
  obtain k where uk: "u = 1 / 2 ^ k"
    using ulp_small[OF q q53] unfolding u_def by blast
  have b: "binary64 ?q = of_int (round_even (?q / u)) * u"
    using q by (simp add: binary64_def Let_def u_def)
  have nq: "of_nat ?n \<le> ?q"
  proof -
    have "?n * d \<le> a" by simp
    then have "(of_nat (?n * d) :: rat) \<le> of_nat a" by (simp only: of_nat_le_iff)
    then show ?thesis using d0 by (simp add: le_divide_eq)
  qed
  have lower: "of_nat ?n \<le> binary64 ?q"
  proof -
    have "of_nat ?n * 2 ^ k \<le> ?q * 2 ^ k"
      using nq by (intro mult_right_mono) simp_all
    then have "of_int (int (?n * 2 ^ k)) \<le> ?q / u"
      by (simp add: uk)
    then have "int (?n * 2 ^ k) \<le> round_even (?q / u)" by (rule round_even_ge)
    then have "(of_int (int (?n * 2 ^ k)) :: rat) \<le> of_int (round_even (?q / u))"
      by (simp only: of_int_le_iff)
    then have "of_int (int (?n * 2 ^ k)) * u \<le> of_int (round_even (?q / u)) * u"
      using u0 by (simp only: mult_le_cancel_right_pos)
    then show ?thesis unfolding b by (simp add: uk)
  qed
  have qn: "?q \<le> of_nat ?n + 1 - 1 / of_nat d"
  proof -
    have "a mod d < d" using assms(2) by simp
    then have "a + 1 \<le> ?n * d + d"
      by (metis Suc_eq_plus1 Suc_leI add_less_cancel_left div_mult_mod_eq mult.commute)
    then have "(of_nat (a + 1) :: rat) \<le> of_nat (?n * d + d)" by (simp only: of_nat_le_iff)
    then have "(of_nat a :: rat) \<le> (of_nat ?n + 1 - 1 / of_nat d) * of_nat d"
      using d0 by (simp add: algebra_simps)
    then show ?thesis using d0 by (simp add: divide_le_eq)
  qed
  have half: "u / 2 < 1 / of_nat d"
  proof (cases "- 1022 \<le> exponent ?q")
    case True
    then have "u = power_int 2 (exponent ?q - 52)" by (simp add: u_def max_def)
    also have "\<dots> = power_int 2 (exponent ?q) * power_int 2 (- 52)"
      using power_int_add[of "2::rat" "exponent ?q" "- 52"] by simp
    also have "\<dots> \<le> ?q * power_int 2 (- 52)"
      using exponent_bounds[OF q] by (intro mult_right_mono) simp_all
    finally have "u / 2 \<le> ?q / 2 ^ 53" by (simp add: power_int_minus inverse_eq_divide)
    also have "\<dots> < 1 / of_nat d"
      using a53 d0 by (simp add: divide_simps)
    finally show ?thesis .
  next
    case False
    then have "u = power_int 2 (- 1074)" by (simp add: u_def max_def)
    then have "u / 2 = 1 / 2 ^ 1075" by (simp add: power_int_minus inverse_eq_divide)
    also have "\<dots> < 1 / 4096" by simp
    also have "(1::rat) / 4096 \<le> 1 / of_nat d"
      using assms(2,3) d0 by (simp add: divide_simps)
    finally show ?thesis .
  qed
  have "binary64 ?q \<le> (?q / u + 1 / 2) * u"
    unfolding b using round_even_upper[of "?q / u"] u0 by (simp only: mult_le_cancel_right_pos)
  also have "\<dots> = ?q + u / 2" using u0 by (simp add: algebra_simps)
  also have "\<dots> < of_nat ?n + 1" using qn half by linarith
  finally have upper: "binary64 ?q < of_int (int ?n) + 1" by simp
  from lower have "of_int (int ?n) \<le> binary64 ?q" by simp
  then show ?thesis using upper by (rule floor_unique)
qed

subsection \<open>Reading back what was printed\<close>

lemma digit_val_digit_char: "d < 10 \<Longrightarrow> digit_val (digit_char d) = Some d"
proof -
  assume "d < 10"
  then have "d \<in> {0, 1, 2, 3, 4, 5, 6, 7, 8, 9}" by auto
  then show ?thesis
    by (auto simp: digit_val_def digit_char_def)
qed

lemma digit_char_not_colon: "d < 10 \<Longrightarrow> digit_char d \<noteq> CHR '':''"
proof
  assume "d < 10" and "digit_char d = CHR '':''"
  then have "digit_val (CHR '':'') = Some d"
    using digit_val_digit_char[of d] by simp
  then show False by (simp add: digit_val_def)
qed

lemma read_digits_snoc:
  "read_digits acc (xs @ [c]) =
     (case read_digits acc xs of None \<Rightarrow> None
      | Some a \<Rightarrow> (case digit_val c of None \<Rightarrow> None | Some d \<Rightarrow> Some (10 * a + d)))"
  by (induction xs arbitrary: acc) (auto split: option.splits)

lemma String_nat_nonempty: "String_nat n \<noteq> []"
  by (subst String_nat.simps) simp

lemma read_digits_String_nat: "read_digits 0 (String_nat n) = Some n"
proof (induction n rule: String_nat.induct)
  case (1 n)
  show ?case
  proof (cases "n < 10")
    case True
    then show ?thesis
      by (subst String_nat.simps) (simp add: digit_val_digit_char)
  next
    case False
    with 1 have "read_digits 0 (String_nat (n div 10)) = Some (n div 10)" by simp
    with False show ?thesis
      by (subst String_nat.simps) (simp add: read_digits_snoc digit_val_digit_char)
  qed
qed

lemma String_nat_no_colon: "CHR '':'' \<notin> set (String_nat n)"
proof (induction n rule: String_nat.induct)
  case (1 n)
  show ?case
  proof (cases "n < 10")
    case True
    then show ?thesis
      using digit_char_not_colon[of n] by (subst String_nat.simps) auto
  next
    case False
    with 1 have "CHR '':'' \<notin> set (String_nat (n div 10))" by simp
    with False show ?thesis
      using digit_char_not_colon[of "n mod 10"] by (subst String_nat.simps) auto
  qed
qed

lemma length_String_nat_small: "n < 100 \<Longrightarrow> length (String_nat n) \<le> 2"
  by (subst String_nat.simps, subst String_nat.simps) auto

lemma split_colon_no_colon: "CHR '':'' \<notin> set a \<Longrightarrow> split_colon a = [a]"
  by (induction a) auto

lemma split_colon_append:
  "CHR '':'' \<notin> set a \<Longrightarrow> split_colon (a @ CHR '':'' # rest) = a # split_colon rest"
  by (induction a) auto

lemma read_digits_zeros: "read_digits 0 (replicate k (CHR ''0'') @ s) = read_digits 0 s"
  by (induction k) (auto simp: digit_val_def)

lemma read_nat_padStart: "read_nat (padStart k (CHR ''0'') (String_nat n)) = Some n"
  by (simp add: read_nat_def padStart_def String_nat_nonempty read_digits_zeros read_digits_String_nat)

lemma padStart_no_colon: "CHR '':'' \<notin> set (padStart k (CHR ''0'') (String_nat n))"
  using String_nat_no_colon[of n] by (auto simp: padStart_def)

lemma length_padStart_ge: "k \<le> length (padStart k c s)"
  by (simp add: padStart_def)

lemma length_padStart_small: "n < 100 \<Longrightarrow> length (padStart 2 c (String_nat n)) = 2"
  using length_String_nat_small[of n] by (simp add: padStart_def)

lemma hhmmss_total_format:
  assumes "m < 60" "s < 60"
  shows "hhmmss_total (padStart 2 (CHR ''0'') (String_nat h) @ '':'' @
            padStart 2 (CHR ''0'') (String_nat m) @ '':'' @
            padStart 2 (CHR ''0'') (String_nat s)) = Some (3600 * h + 60 * m + s)"
proof -
  let ?H = "padStart 2 (CHR ''0'') (String_nat h)"
  let ?M = "padStart 2 (CHR ''0'') (String_nat m)"
  let ?S = "padStart 2 (CHR ''0'') (String_nat s)"
  have sp: "split_colon (?H @ '':'' @ ?M @ '':'' @ ?S) = [?H, ?M, ?S]"
    using padStart_no_colon[of 2 h] padStart_no_colon[of 2 m] padStart_no_colon[of 2 s]
    by (simp add: split_colon_append split_colon_no_colon)
  have len: "2 \<le> length ?H" "length ?M = 2" "length ?S = 2"
    using assms by (simp_all add: length_padStart_ge length_padStart_small)
  show ?thesis
    unfolding hhmmss_total_def sp using len assms by (simp add: read_nat_padStart)
qed

lemma String_nat_0: "String_nat 0 = ''0''"
  by (subst String_nat.simps) (simp add: digit_char_def)

lemma hms_recompose: "3600 * (n div 3600) + 60 * ((n mod 3600) div 60) + n mod 60 = (n::nat)"
proof -
  have a: "n = 3600 * (n div 3600) + n mod 3600" by simp
  have b: "n mod 3600 = 60 * ((n mod 3600) div 60) + (n mod 3600) mod 60" by simp
  have c: "(n mod 3600) mod 60 = n mod 60" by (simp add: mod_mod_cancel)
  from a b c show ?thesis by linarith
qed

subsection \<open>Numbers below \<open>2^53\<close>\<close>

lemma binary64_inj_small:
  assumes "x < 2 ^ 53" and "binary64 (of_nat v) = of_nat x"
  shows "v = x"
proof (cases "v < 2 ^ 53")
  case True
  then have "binary64 (of_nat v) = of_nat v" by (rule binary64_exact)
  with assms(2) have "(of_nat v :: rat) = of_nat x" by simp
  then show ?thesis by (simp only: of_nat_eq_iff)
next
  case False
  then have "(2 ^ 53 :: rat) \<le> binary64 (of_nat v)" by (intro binary64_large) simp
  with assms(2) have "(2 ^ 53 :: rat) \<le> of_nat x" by simp
  then have "(of_nat (2 ^ 53) :: rat) \<le> of_nat x" by simp
  then have "2 ^ 53 \<le> x" by (simp only: of_nat_le_iff)
  with assms(1) show ?thesis by simp
qed

lemma shortest_small: "x < 2 ^ 53 \<Longrightarrow> shortest x j = x"
proof (induction j)
  case 0
  show ?case by simp
next
  case (Suc j)
  let ?p = "10 ^ Suc j :: nat"
  let ?lo = "(x div ?p) * ?p"
  have lo: "round_trips x ?lo \<Longrightarrow> ?lo = x"
    unfolding round_trips_def by (rule binary64_inj_small[OF Suc.prems])
  have "x mod ?p < ?p" by simp
  moreover have "x = ?lo + x mod ?p" by (rule div_mult_mod_eq[symmetric])
  ultimately have "x < ?lo + ?p" by linarith
  then have hi: "\<not> round_trips x (?lo + ?p)"
    unfolding round_trips_def using binary64_inj_small[OF Suc.prems, of "?lo + ?p"] by auto
  show ?case
    using lo hi Suc.IH[OF Suc.prems] by (auto simp: Let_def simp del: power_Suc)
qed

lemma length_String_nat: "0 < k \<Longrightarrow> n < 10 ^ k \<Longrightarrow> length (String_nat n) \<le> k"
proof (induction n arbitrary: k rule: String_nat.induct)
  case (1 n)
  show ?case
  proof (cases "n < 10")
    case True
    then show ?thesis using 1(2) by (subst String_nat.simps) simp
  next
    case False
    then obtain k' where k: "k = Suc k'" and k': "0 < k'"
      using 1(2,3) by (cases k; cases "k - 1") auto
    have "n div 10 < 10 ^ k'" using 1(3) k by (simp add: less_mult_imp_div_less)
    then have "length (String_nat (n div 10)) \<le> k'" using 1(1) False k' by simp
    then show ?thesis using False k by (subst String_nat.simps) simp
  qed
qed

lemma Number_toString_small: "x < 2 ^ 53 \<Longrightarrow> Number_toString x = String_nat x"
proof -
  assume x: "x < 2 ^ 53"
  then have "x < 10 ^ 21" by simp
  then have "length (String_nat x) \<le> 21" by (intro length_String_nat) simp_all
  then show ?thesis
    by (simp add: Number_toString_def Let_def shortest_small[OF x])
qed

lemma secondsToHHMMSS_exact:
  assumes "Math_round r < 2 ^ 53"
  shows "secondsToHHMMSS (Finite r) =
     (let s = nat (max 0 (Math_round r)) in
      padStart 2 (CHR ''0'') (String_nat (s div 3600)) @ '':'' @
      padStart 2 (CHR ''0'') (String_nat ((s mod 3600) div 60)) @ '':'' @
      padStart 2 (CHR ''0'') (String_nat (s mod 60)))"
proof -
  define s where "s = nat (max 0 (Math_round r))"
  have s: "s < 2 ^ 53" using assms by (simp add: s_def)
  have m: "s mod 3600 < 2 ^ 53" using s by (rule le_less_trans[OF mod_less_eq_dividend])
  have sec: "s mod 60 < 2 ^ 53" using s by (rule le_less_trans[OF mod_less_eq_dividend])
  have h': "nat \<lfloor>binary64 (of_nat s / 3600)\<rfloor> = s div 3600"
    using floor_binary64_div[OF s, of 3600] by simp
  have m': "nat \<lfloor>binary64 (of_nat (s mod 3600) / 60)\<rfloor> = (s mod 3600) div 60"
    using floor_binary64_div[OF m, of 60] by simp
  have hs: "s div 3600 < 2 ^ 53" using s by (rule le_less_trans[OF div_le_dividend])
  have ms: "(s mod 3600) div 60 < 2 ^ 53" using m by (rule le_less_trans[OF div_le_dividend])
  have e: "secondsToHHMMSS (Finite r) =
      padStart 2 (CHR ''0'') (Number_toString (nat \<lfloor>binary64 (of_nat s / 3600)\<rfloor>)) @ '':'' @
      padStart 2 (CHR ''0'') (Number_toString (nat \<lfloor>binary64 (of_nat (s mod 3600) / 60)\<rfloor>)) @ '':'' @
      padStart 2 (CHR ''0'') (Number_toString (s mod 60))"
    unfolding s_def by (simp add: secondsToHHMMSS_def isFinite_def Let_def)
  show ?thesis
    unfolding e h' m' Number_toString_small[OF hs] Number_toString_small[OF ms]
      Number_toString_small[OF sec]
    by (simp add: s_def Let_def)
qed


lemma floor_rat_numeral:
  "\<lfloor>numeral a / numeral b :: rat\<rfloor> = numeral a div numeral b"
  using floor_divide_of_int_eq[of "numeral a" "numeral b", where ?'a = rat] by simp

lemma shortest_unfold:
  "0 < j \<Longrightarrow> shortest x j =
     (let p = 10 ^ j; lo = (x div p) * p; hi = lo + p in
      if round_trips x lo \<and> round_trips x hi then
        (if x - lo < hi - x then lo
         else if hi - x < x - lo then hi
         else if even (x div p) then lo else hi)
      else if round_trips x lo then lo
      else if round_trips x hi then hi
      else shortest x (j - 1))"
  by (cases j) (simp_all add: Let_def del: power_Suc)


lemmas binary64_eval = binary64_def Let_def exponent.simps round_even_def floor_rat_numeral

lemma secondsToHHMMSS_zero: "Math_round x \<le> 0 \<Longrightarrow> secondsToHHMMSS (Finite x) = ''00:00:00''"
proof -
  assume a: "Math_round x \<le> 0"
  then have "Math_round x < 2 ^ 53" by simp
  then show ?thesis
    using a by (simp add: secondsToHHMMSS_exact padStart_def String_nat_0)
qed

lemma secondsToHHMMSS_Finite:
  assumes "nat (max 0 (Math_round x)) = s"
    and "nat \<lfloor>binary64 (of_nat s / 3600)\<rfloor> = h"
    and "nat \<lfloor>binary64 (of_nat (s mod 3600) / 60)\<rfloor> = m"
  shows "secondsToHHMMSS (Finite x) =
      padStart 2 (CHR ''0'') (Number_toString h) @ '':'' @
      padStart 2 (CHR ''0'') (Number_toString m) @ '':'' @
      padStart 2 (CHR ''0'') (Number_toString (s mod 60))"
  unfolding assms(3)[symmetric] assms(2)[symmetric] assms(1)[symmetric]
  by (simp add: secondsToHHMMSS_def isFinite_def Let_def)

text \<open>
  Claim C10, as the code has it. \<open>secondsToHHMMSS\<close> returns \<open>'00:00:00'\<close> when the
  argument is not a finite number (\<open>NaN\<close>, an infinity, \<open>null\<close>, \<open>undefined\<close>); for a
  finite number \<open>s\<close> with \<open>Math.round(s)\<close> below \<open>2^53\<close> it returns a zero-padded
  HH:MM:SS string whose total in seconds is \<open>max(0, Math.round(s))\<close>; and every negative
  number formats as \<open>'00:00:00'\<close>.
\<close>

theorem secondsToHHMMSS_total:
  "(x \<in> {NaN, PosInfinity, NegInfinity, Null, Undefined} \<longrightarrow> secondsToHHMMSS x = ''00:00:00'')
   \<and> (Math_round r < 2 ^ 53 \<longrightarrow>
        hhmmss_total (secondsToHHMMSS (Finite r)) = Some (nat (max 0 (Math_round r))))
   \<and> (r < 0 \<longrightarrow> secondsToHHMMSS (Finite r) = ''00:00:00'')"
proof (intro conjI impI)
  assume "x \<in> {NaN, PosInfinity, NegInfinity, Null, Undefined}"
  then show "secondsToHHMMSS x = ''00:00:00''"
    by (auto simp: secondsToHHMMSS_def isFinite_def)
next
  assume b: "Math_round r < 2 ^ 53"
  let ?s = "nat (max 0 (Math_round r))"
  have fmt: "secondsToHHMMSS (Finite r) =
      padStart 2 (CHR ''0'') (String_nat (?s div 3600)) @ '':'' @
      padStart 2 (CHR ''0'') (String_nat ((?s mod 3600) div 60)) @ '':'' @
      padStart 2 (CHR ''0'') (String_nat (?s mod 60))"
    by (simp add: secondsToHHMMSS_exact[OF b] Let_def)
  have m: "(?s mod 3600) div 60 < 60" by (simp add: less_mult_imp_div_less)
  have s: "?s mod 60 < 60" by simp
  have "hhmmss_total (secondsToHHMMSS (Finite r)) =
      Some (3600 * (?s div 3600) + 60 * ((?s mod 3600) div 60) + ?s mod 60)"
    unfolding fmt by (rule hhmmss_total_format[OF m s])
  then show "hhmmss_total (secondsToHHMMSS (Finite r)) = Some ?s"
    by (simp only: hms_recompose)
next
  assume "r < 0"
  then have "Math_round r \<le> 0"
    unfolding Math_round_def by (simp add: floor_le_iff)
  then show "secondsToHHMMSS (Finite r) = ''00:00:00''"
    by (rule secondsToHHMMSS_zero)
qed

theorem secondsToHHMMSS_total_witness:
  "NaN \<in> {NaN, PosInfinity, NegInfinity, Null, Undefined} \<and> secondsToHHMMSS NaN = ''00:00:00''
   \<and> Math_round (14651 / 2) < 2 ^ 53
   \<and> hhmmss_total (secondsToHHMMSS (Finite (14651 / 2))) = Some 7326
   \<and> (- (7 / 2) :: rat) < 0 \<and> secondsToHHMMSS (Finite (- (7 / 2))) = ''00:00:00''"
proof -
  have a: "secondsToHHMMSS NaN = ''00:00:00''"
    using secondsToHHMMSS_total[of NaN 0, THEN conjunct1] by simp
  have r: "Math_round (14651 / 2) = 7326" by (simp add: Math_round_def)
  have b: "hhmmss_total (secondsToHHMMSS (Finite (14651 / 2))) = Some 7326"
    using secondsToHHMMSS_total[of NaN "14651 / 2", THEN conjunct2, THEN conjunct1]
    by (simp add: r)
  have c: "secondsToHHMMSS (Finite (- (7 / 2))) = ''00:00:00''"
    using secondsToHHMMSS_total[of NaN "- (7 / 2)", THEN conjunct2, THEN conjunct2] by simp
  from a b c r show ?thesis by simp
qed

lemma String_nat_digits:
  "String_nat 2777777777777778 = ''2777777777777778''"
  "String_nat 46 = ''46''" "String_nat 40 = ''40''"
  by (simp_all add: String_nat.simps digit_char_def)

text \<open>
  Above \<open>2^53\<close> the total can be wrong. At \<open>s = 10^19\<close> the quotient
  \<open>s / 3600 = 2777777777777777.77...\<close> lies between the binary64 values
  \<open>2777777777777777.5\<close> and \<open>2777777777777778\<close> and is rounded to the second, so that the
  hour field is one too large and the string totals \<open>10^19 + 3600\<close> seconds, not \<open>10^19\<close>.
\<close>

theorem secondsToHHMMSS_rounding_counterexample:
  "secondsToHHMMSS (Finite 10000000000000000000) = ''2777777777777778:46:40''
   \<and> hhmmss_total (secondsToHHMMSS (Finite 10000000000000000000)) = Some 10000000000000003600
   \<and> hhmmss_total (secondsToHHMMSS (Finite 10000000000000000000)) \<noteq>
       Some (nat (max 0 (Math_round 10000000000000000000)))"
proof -
  have r: "Math_round 10000000000000000000 = 10000000000000000000"
    by (simp add: Math_round_def floor_rat_numeral)
  have e: "secondsToHHMMSS (Finite 10000000000000000000) =
      padStart 2 (CHR ''0'') (String_nat 2777777777777778) @ '':'' @
      padStart 2 (CHR ''0'') (String_nat 46) @ '':'' @
      padStart 2 (CHR ''0'') (String_nat 40)"
  proof -
    have "secondsToHHMMSS (Finite 10000000000000000000) =
      padStart 2 (CHR ''0'') (Number_toString 2777777777777778) @ '':'' @
      padStart 2 (CHR ''0'') (Number_toString 46) @ '':'' @
      padStart 2 (CHR ''0'') (Number_toString (10000000000000000000 mod 60))"
      by (rule secondsToHHMMSS_Finite) (simp_all add: r binary64_eval)
    then show ?thesis by (simp add: Number_toString_small)
  qed
  have t: "hhmmss_total (secondsToHHMMSS (Finite 10000000000000000000)) =
      Some (3600 * 2777777777777778 + 60 * 46 + 40)"
    unfolding e by (rule hhmmss_total_format) simp_all
  have f: "secondsToHHMMSS (Finite 10000000000000000000) = ''2777777777777778:46:40''"
    unfolding e by (simp add: String_nat_digits padStart_def)
  from f t r show ?thesis by simp
qed


text \<open>
  From \<open>10^21\<close> hours on the hour is printed in exponent notation, and the result is no
  HH:MM:SS string. The argument is the binary64 value of the literal \<open>3.6e24\<close>.
\<close>

lemma Math_round_36e23: "Math_round 3599999999999999832227840 = 3599999999999999832227840"
  by (simp add: Math_round_def floor_rat_numeral)

lemma String_nat_1e21:
  "String_nat 1000000000000000000000 = ''1000000000000000000000''"
  "String_nat 21 = ''21''" "String_nat 37 = ''37''" "String_nat 20 = ''20''"
  by (simp_all add: String_nat.simps digit_char_def)


lemma round_trips_1e21: "round_trips 1000000000000000000000 1000000000000000000000"
  by (simp add: round_trips_def binary64_eval)

lemma round_trips_2e21: "\<not> round_trips 1000000000000000000000 2000000000000000000000"
  by (simp add: round_trips_def binary64_eval)

lemma shortest_1e21: "shortest 1000000000000000000000 21 = 1000000000000000000000"
  by (subst shortest_unfold) (simp_all add: Let_def round_trips_1e21 round_trips_2e21 del: shortest.simps)


lemma Number_toString_1e21: "Number_toString 1000000000000000000000 = ''1e+21''"
proof -
  have ds: "String_nat (shortest 1000000000000000000000 (length (String_nat 1000000000000000000000) - 1)) =
      ''1000000000000000000000''"
  proof -
    have "length (String_nat 1000000000000000000000) - 1 = 21" by (simp add: String_nat_1e21)
    then show ?thesis by (simp only: shortest_1e21 String_nat_1e21)
  qed
  have len: "length ''1000000000000000000000'' = 22" by simp
  have strip: "rev (dropWhile (\<lambda>c. c = CHR ''0'') (rev ''1000000000000000000000'')) = ''1''"
    by simp
  show ?thesis
    unfolding Number_toString_def Let_def ds len strip by (simp add: String_nat_1e21)
qed

lemma secondsToHHMMSS_exponent_form:
  "secondsToHHMMSS (Finite 3599999999999999832227840) = ''1e+21:37:20''
   \<and> hhmmss_total (secondsToHHMMSS (Finite 3599999999999999832227840)) = None"
proof -
  have "secondsToHHMMSS (Finite 3599999999999999832227840) =
      padStart 2 (CHR ''0'') (Number_toString 1000000000000000000000) @ '':'' @
      padStart 2 (CHR ''0'') (Number_toString 37) @ '':'' @
      padStart 2 (CHR ''0'') (Number_toString (3599999999999999832227840 mod 60))"
    by (rule secondsToHHMMSS_Finite) (simp_all add: Math_round_36e23 binary64_eval)
  then have f: "secondsToHHMMSS (Finite 3599999999999999832227840) = ''1e+21:37:20''"
    by (simp add: Number_toString_1e21 Number_toString_small String_nat_1e21 padStart_def)
  have "hhmmss_total ''1e+21:37:20'' = None"
    by (simp add: hhmmss_total_def read_nat_def digit_val_def)
  with f show ?thesis by simp
qed

text \<open>
  Between \<open>2^53\<close> and \<open>10^21\<close> the hour is printed with the digits that suffice to read
  it back, followed by zeros: \<open>2^60 = 1152921504606846976\<close> hours are printed as
  \<open>1152921504606847000\<close>.
\<close>

lemma shortest_skip:
  "0 < j \<Longrightarrow> \<not> round_trips x ((x div 10 ^ j) * 10 ^ j) \<Longrightarrow>
   \<not> round_trips x ((x div 10 ^ j) * 10 ^ j + 10 ^ j) \<Longrightarrow> shortest x j = shortest x (j - 1)"
  by (subst shortest_unfold) (simp_all add: Let_def del: shortest.simps)

lemma shortest_hi:
  "0 < j \<Longrightarrow> \<not> round_trips x ((x div 10 ^ j) * 10 ^ j) \<Longrightarrow>
   round_trips x ((x div 10 ^ j) * 10 ^ j + 10 ^ j) \<Longrightarrow>
   shortest x j = (x div 10 ^ j) * 10 ^ j + 10 ^ j"
  by (subst shortest_unfold) (simp_all add: Let_def del: shortest.simps)

lemma shortest_both:
  "0 < j \<Longrightarrow> round_trips x ((x div 10 ^ j) * 10 ^ j) \<Longrightarrow>
   round_trips x ((x div 10 ^ j) * 10 ^ j + 10 ^ j) \<Longrightarrow>
   shortest x j =
     (if x - (x div 10 ^ j) * 10 ^ j < (x div 10 ^ j) * 10 ^ j + 10 ^ j - x
      then (x div 10 ^ j) * 10 ^ j
      else if (x div 10 ^ j) * 10 ^ j + 10 ^ j - x < x - (x div 10 ^ j) * 10 ^ j
      then (x div 10 ^ j) * 10 ^ j + 10 ^ j
      else if even (x div 10 ^ j) then (x div 10 ^ j) * 10 ^ j
      else (x div 10 ^ j) * 10 ^ j + 10 ^ j)"
  by (subst shortest_unfold) (simp_all add: Let_def del: shortest.simps)

lemma shortest_2_60: "shortest 1152921504606846976 18 = 1152921504606847000"
  by (simp add: shortest_skip shortest_hi round_trips_def binary64_eval del: shortest.simps)

lemma String_nat_2_60:
  "String_nat 1152921504606846976 = ''1152921504606846976''"
  "String_nat 1152921504606847000 = ''1152921504606847000''"
  by (simp_all add: String_nat.simps digit_char_def)

lemma Number_toString_2_60: "Number_toString 1152921504606846976 = ''1152921504606847000''"
proof -
  have "length (String_nat 1152921504606846976) - 1 = 18" by (simp add: String_nat_2_60)
  then have ds: "String_nat (shortest 1152921504606846976 (length (String_nat 1152921504606846976) - 1)) =
      ''1152921504606847000''"
    by (simp only: shortest_2_60 String_nat_2_60)
  show ?thesis
    unfolding Number_toString_def Let_def ds by simp
qed

lemma secondsToHHMMSS_shortest_digits:
  "secondsToHHMMSS (Finite 4150517416584649113600) = ''1152921504606847000:00:00''"
proof -
  have r: "Math_round 4150517416584649113600 = 4150517416584649113600"
    by (simp add: Math_round_def floor_rat_numeral)
  have "secondsToHHMMSS (Finite 4150517416584649113600) =
      padStart 2 (CHR ''0'') (Number_toString 1152921504606846976) @ '':'' @
      padStart 2 (CHR ''0'') (Number_toString 0) @ '':'' @
      padStart 2 (CHR ''0'') (Number_toString (4150517416584649113600 mod 60))"
    by (rule secondsToHHMMSS_Finite) (simp_all add: r binary64_eval binary64_0)
  then show ?thesis
    by (simp add: Number_toString_2_60 Number_toString_small String_nat_0 padStart_def)
qed

text \<open>\<open>2^70\<close> hours are printed with a fraction and an exponent.\<close>

lemma shortest_2_70: "shortest 1180591620717411303424 21 = 1180591620717411300000"
  by (simp add: shortest_skip shortest_hi shortest_both round_trips_def binary64_eval del: shortest.simps)

lemma String_nat_2_70:
  "String_nat 1180591620717411303424 = ''1180591620717411303424''"
  "String_nat 1180591620717411300000 = ''1180591620717411300000''"
  "String_nat 21 = ''21''"
  by (simp_all add: String_nat.simps digit_char_def)

lemma Number_toString_2_70: "Number_toString 1180591620717411303424 = ''1.1805916207174113e+21''"
proof -
  have "length (String_nat 1180591620717411303424) - 1 = 21" by (simp add: String_nat_2_70)
  then have ds: "String_nat (shortest 1180591620717411303424 (length (String_nat 1180591620717411303424) - 1)) =
      ''1180591620717411300000''"
    by (simp only: shortest_2_70 String_nat_2_70)
  have len: "length ''1180591620717411300000'' = 22" by simp
  have strip: "rev (dropWhile (\<lambda>c. c = CHR ''0'') (rev ''1180591620717411300000'')) = ''11805916207174113''"
    by simp
  show ?thesis
    unfolding Number_toString_def Let_def ds len strip by (simp add: String_nat_2_70)
qed

lemma secondsToHHMMSS_exponent_digits:
  "secondsToHHMMSS (Finite 4250129834582680692326400) = ''1.1805916207174113e+21:00:00''"
proof -
  have r: "Math_round 4250129834582680692326400 = 4250129834582680692326400"
    by (simp add: Math_round_def floor_rat_numeral)
  have "secondsToHHMMSS (Finite 4250129834582680692326400) =
      padStart 2 (CHR ''0'') (Number_toString 1180591620717411303424) @ '':'' @
      padStart 2 (CHR ''0'') (Number_toString 0) @ '':'' @
      padStart 2 (CHR ''0'') (Number_toString (4250129834582680692326400 mod 60))"
    by (rule secondsToHHMMSS_Finite) (simp_all add: r binary64_eval binary64_0)
  then show ?thesis
    by (simp add: Number_toString_2_70 Number_toString_small String_nat_0 padStart_def)
qed


section \<open>Properties of the unit mapping\<close>

lemma String_int_units:
  "String_int 1 = ''1''" "String_int 2 = ''2''" "String_int 3 = ''3''"
  by (simp_all add: String_int_def String_nat.simps digit_char_def)

lemma truthy_not_null: "truthy v \<Longrightarrow> v \<noteq> JNull"
  by auto

lemma requests_fetchServerUnitMap:
  "requests (snd (fetchServerUnitMap env st)) = requests st @ [Request GET Units None]"
  by (simp add: fetchServerUnitMap_def fetch_def writeBlendIds_def setItem_def
        split: response.splits option.splits list.splits)

lemma demo_env_simps [simp]:
  "JSON_parse demo_env = demo_parse" "JSON_stringify demo_env = demo_stringify"
  by (simp_all add: demo_env_def)




lemma have3_iff:
  "truthy (js_and (js_and (js_and m (js_prop m ''1'')) (js_prop m ''2'')) (js_prop m ''3''))
   \<longleftrightarrow> has_entry m ''1'' \<and> has_entry m ''2'' \<and> has_entry m ''3''"
  by (auto simp: has_entry_def js_and_def)

text \<open>
  Claim C5, as the code has it. \<open>ensureServerUnitMapping\<close> returns the fetched remote map
  unchanged whenever that map has entries for all three units. Otherwise it posts to
  \<open>/units/init\<close>: when that succeeds it returns the resulting map (\<open>data.map\<close>, or the
  empty map), which also becomes the remote map and the local map; when the server answers
  with a status that is not OK it returns the result of a second fetch of the remote map;
  when the request fails or its response cannot be read it returns the empty map. It
  never raises.
\<close>

theorem ensureServerUnitMapping_cases:
  assumes "fetchServerUnitMap env st = (m, st1)"
    and "fetch (Request POST UnitsInit None) st1 = (res, st2)"
  shows
    "(has_entry m ''1'' \<and> has_entry m ''2'' \<and> has_entry m ''3'' \<longrightarrow>
        ensureServerUnitMapping env st = (m, st1))
     \<and> (\<not> (has_entry m ''1'' \<and> has_entry m ''2'' \<and> has_entry m ''3'') \<longrightarrow>
          (\<forall>data. res = Response True (Some data) \<and> data \<noteq> JNull \<and> data \<noteq> JUndefined \<longrightarrow>
             ensureServerUnitMapping env st =
               (js_or (js_prop data ''map'') (JObj []),
                writeBlendIds env (js_or (js_prop data ''map'') (JObj []))
                  (st2\<lparr>serverUnitMap := js_or (js_prop data ''map'') (JObj [])\<rparr>)))
          \<and> (\<forall>body. res = Response False body \<longrightarrow>
                ensureServerUnitMapping env st = fetchServerUnitMap env st2)
          \<and> (res = NetworkError \<or> res = Response True None \<or> res = Response True (Some JNull)
                \<or> res = Response True (Some JUndefined) \<longrightarrow>
                ensureServerUnitMapping env st = (JObj [], st2)))"
proof (cases "has_entry m ''1'' \<and> has_entry m ''2'' \<and> has_entry m ''3''")
  case True
  with assms show ?thesis
    by (simp add: ensureServerUnitMapping_def Let_def have3_iff)
next
  case False
  have simp_or: "\<And>dm data. js_or (js_or dm (js_and data dm)) (JObj []) = js_or dm (JObj [])"
    by (simp add: js_or_def js_and_def)
  from False assms show ?thesis
    by (auto simp: ensureServerUnitMapping_def Let_def have3_iff get_prop_def simp_or)
qed

text \<open>
  The first fetch succeeds with a partial map and the initialization request fails: the
  result is the empty map, not the map the last successful fetch produced.
\<close>

theorem ensureServerUnitMapping_counterexample:
  "fst (fetchServerUnitMap demo_env
          (demo_state\<lparr>network := [Response True (Some demo_ids), NetworkError]\<rparr>)) = demo_ids
   \<and> fst (ensureServerUnitMapping demo_env
          (demo_state\<lparr>network := [Response True (Some demo_ids), NetworkError]\<rparr>)) = JObj []
   \<and> fst (fetch (Request POST UnitsInit None)
          (snd (fetchServerUnitMap demo_env
             (demo_state\<lparr>network := [Response True (Some demo_ids), NetworkError]\<rparr>)))) = NetworkError
   \<and> demo_ids \<noteq> JObj []"
  by (simp add: ensureServerUnitMapping_def fetchServerUnitMap_def fetch_def demo_state_def
        writeBlendIds_def setItem_def js_or_def js_and_def demo_ids_def Let_def)


theorem ensureServerUnitMapping_cases_witness:
  "fst (fetchServerUnitMap demo_env
          (demo_state\<lparr>network := [Response True (Some demo_ids), NetworkError]\<rparr>)) = demo_ids
   \<and> fst (fetch (Request POST UnitsInit None)
          (snd (fetchServerUnitMap demo_env
             (demo_state\<lparr>network := [Response True (Some demo_ids), NetworkError]\<rparr>)))) = NetworkError
   \<and> \<not> has_entry demo_ids ''1''
   \<and> ensureServerUnitMapping demo_env
        (demo_state\<lparr>network := [Response True (Some demo_ids), NetworkError]\<rparr>) =
       (JObj [],
        snd (fetch (Request POST UnitsInit None)
          (snd (fetchServerUnitMap demo_env
             (demo_state\<lparr>network := [Response True (Some demo_ids), NetworkError]\<rparr>)))))
   \<and> has_entry (JObj [(''1'', JStr ''a''), (''2'', JStr ''b''), (''3'', JStr ''c'')]) ''1''
   \<and> has_entry (JObj [(''1'', JStr ''a''), (''2'', JStr ''b''), (''3'', JStr ''c'')]) ''2''
   \<and> has_entry (JObj [(''1'', JStr ''a''), (''2'', JStr ''b''), (''3'', JStr ''c'')]) ''3''
   \<and> fst (ensureServerUnitMapping demo_env
        (demo_state\<lparr>network :=
           [Response True (Some (JObj [(''1'', JStr ''a''), (''2'', JStr ''b''), (''3'', JStr ''c'')]))]\<rparr>)) =
       JObj [(''1'', JStr ''a''), (''2'', JStr ''b''), (''3'', JStr ''c'')]"
proof -
  let ?S = "demo_state\<lparr>network := [Response True (Some demo_ids), NetworkError]\<rparr>"
  let ?S1 = "snd (fetchServerUnitMap demo_env ?S)"
  let ?S2 = "snd (fetch (Request POST UnitsInit None) ?S1)"
  let ?full = "JObj [(''1'', JStr ''a''), (''2'', JStr ''b''), (''3'', JStr ''c'')]"
  let ?T = "demo_state\<lparr>network := [Response True (Some ?full)]\<rparr>"
  have f: "fst (fetchServerUnitMap demo_env ?S) = demo_ids"
    by (simp add: fetchServerUnitMap_def fetch_def demo_state_def js_or_def demo_ids_def)
  then have a1: "fetchServerUnitMap demo_env ?S = (demo_ids, ?S1)"
    by (metis prod.collapse)
  have r: "fst (fetch (Request POST UnitsInit None) ?S1) = NetworkError"
    by (simp add: fetchServerUnitMap_def fetch_def demo_state_def writeBlendIds_def setItem_def)
  then have a2: "fetch (Request POST UnitsInit None) ?S1 = (NetworkError, ?S2)"
    by (metis prod.collapse)
  have n: "\<not> has_entry demo_ids ''1''"
    by (simp add: has_entry_def demo_ids_def js_and_def)
  from ensureServerUnitMapping_cases[OF a1 a2] n
  have e: "ensureServerUnitMapping demo_env ?S = (JObj [], ?S2)"
    by blast
  have g: "fst (fetchServerUnitMap demo_env ?T) = ?full"
    by (simp add: fetchServerUnitMap_def fetch_def demo_state_def js_or_def)
  then have b1: "fetchServerUnitMap demo_env ?T = (?full, snd (fetchServerUnitMap demo_env ?T))"
    by (metis prod.collapse)
  have b2: "fetch (Request POST UnitsInit None) (snd (fetchServerUnitMap demo_env ?T)) =
      (fst (fetch (Request POST UnitsInit None) (snd (fetchServerUnitMap demo_env ?T))),
       snd (fetch (Request POST UnitsInit None) (snd (fetchServerUnitMap demo_env ?T))))"
    by simp
  have h: "has_entry ?full ''1''" "has_entry ?full ''2''" "has_entry ?full ''3''"
    by (simp_all add: has_entry_def js_and_def)
  from ensureServerUnitMapping_cases[OF b1 b2] h
  have e2: "ensureServerUnitMapping demo_env ?T = (?full, snd (fetchServerUnitMap demo_env ?T))"
    by blast
  from f r n e h e2 show ?thesis by simp
qed

section \<open>Properties of the unwrapping\<close>

text \<open>
  Claim C6. Every read of a record from the remote tier should unwrap the response by
  accepting the top-level object when it has the shape of a payload, and only otherwise
  looking for a nested \<open>payload\<close> or \<open>data\<close> field. The two readers differ from that and
  from each other: for a record nested under \<open>payload\<close>, \<open>loadUnitData\<close> keeps the
  wrapper, while the background fetch finds the payload; for a top-level payload that
  also carries a \<open>data\<close> field, the background fetch takes the field, while
  \<open>loadUnitData\<close> keeps the payload.
\<close>

theorem unwrap_paths_differ:
  "unwrap_spec (JObj [(''_id'', JStr ''abc123''), (''payload'', demo_payload)]) = demo_payload
   \<and> unwrap_background (JObj [(''_id'', JStr ''abc123''), (''payload'', demo_payload)]) = Some demo_payload
   \<and> unwrap_loadUnitData (JObj [(''_id'', JStr ''abc123''), (''payload'', demo_payload)]) =
       JObj [(''_id'', JStr ''abc123''), (''payload'', demo_payload)]
   \<and> unwrap_spec (JObj [(''rows'', JArr []), (''data'', JObj [(''status'', JStr ''ok'')])]) =
       JObj [(''rows'', JArr []), (''data'', JObj [(''status'', JStr ''ok'')])]
   \<and> unwrap_loadUnitData (JObj [(''rows'', JArr []), (''data'', JObj [(''status'', JStr ''ok'')])]) =
       JObj [(''rows'', JArr []), (''data'', JObj [(''status'', JStr ''ok'')])]
   \<and> unwrap_background (JObj [(''rows'', JArr []), (''data'', JObj [(''status'', JStr ''ok'')])]) =
       Some (JObj [(''status'', JStr ''ok'')])"
  by (simp add: unwrap_spec_def has_payload_shape_def unwrap_background_def unwrap_loadUnitData_def
        get_prop_def js_or_def js_and_def demo_payload_def)

section \<open>Properties of the durable tier\<close>

lemma keys_distinct:
  "PAYLOAD_CACHE_KEY \<noteq> BLEND_IDS_KEY" "PAYLOAD_CACHE_KEY \<noteq> COLOR_MAP_KEY"
  "BLEND_IDS_KEY \<noteq> PAYLOAD_CACHE_KEY" "COLOR_MAP_KEY \<noteq> PAYLOAD_CACHE_KEY"
  "PAYLOAD_CACHE_KEY \<noteq> ''currentUnit''" "''currentUnit'' \<noteq> PAYLOAD_CACHE_KEY"
  by (simp_all add: PAYLOAD_CACHE_KEY_def BLEND_IDS_KEY_def COLOR_MAP_KEY_def)

lemma stored_cache_fields [simp]:
  "currentUnit (stored_cache v st) = currentUnit st"
  "serverUnitMap (stored_cache v st) = serverUnitMap st"
  "inMemoryPayloadCache (stored_cache v st) = inMemoryPayloadCache st"
  "deferredPayloadWriteTimer (stored_cache v st) = deferredPayloadWriteTimer st"
  "debounceTimer (stored_cache v st) = debounceTimer st"
  "autosaveAttached (stored_cache v st) = autosaveAttached st"
  "document (stored_cache v st) = document st"
  "clock (stored_cache v st) = clock st"
  "tasks (stored_cache v st) = tasks st"
  "network (stored_cache v st) = network st"
  "requests (stored_cache v st) = requests st"
  "storageWrites (stored_cache v st) = storageWrites st"
  "captures (stored_cache v st) = captures st"
  "alerts (stored_cache v st) = alerts st"
  "k \<noteq> PAYLOAD_CACHE_KEY \<Longrightarrow> localStorage (stored_cache v st) k = localStorage st k"
  "localStorage (stored_cache v st) PAYLOAD_CACHE_KEY = v"
  by (simp_all add: stored_cache_def)

lemma stored_cache_twice [simp]: "stored_cache a (stored_cache b st) = stored_cache a st"
  by (simp add: stored_cache_def)

lemma stored_cache_upd [simp]:
  "(stored_cache v st)\<lparr>document := d\<rparr> = stored_cache v (st\<lparr>document := d\<rparr>)"
  "(stored_cache v st)\<lparr>debounceTimer := t\<rparr> = stored_cache v (st\<lparr>debounceTimer := t\<rparr>)"
  "(stored_cache v st)\<lparr>serverUnitMap := m\<rparr> = stored_cache v (st\<lparr>serverUnitMap := m\<rparr>)"
  "(stored_cache v st)\<lparr>inMemoryPayloadCache := c\<rparr> = stored_cache v (st\<lparr>inMemoryPayloadCache := c\<rparr>)"
  "(stored_cache v st)\<lparr>network := n, requests := r\<rparr> = stored_cache v (st\<lparr>network := n, requests := r\<rparr>)"
  by (simp_all add: stored_cache_def)

lemma setItem_stored_cache:
  "k \<noteq> PAYLOAD_CACHE_KEY \<Longrightarrow> setItem k x (stored_cache v st) = stored_cache v (setItem k x st)"
  by (simp add: setItem_def stored_cache_def fun_upd_twist)

lemma setItem_cache_key [simp]:
  "setItem PAYLOAD_CACHE_KEY x (stored_cache v st) = setItem PAYLOAD_CACHE_KEY x st"
  by (simp add: setItem_def stored_cache_def)

lemma getItem_or_braces_stored_cache [simp]:
  "k \<noteq> PAYLOAD_CACHE_KEY \<Longrightarrow> getItem_or_braces k (stored_cache v st) = getItem_or_braces k st"
  by (simp add: getItem_or_braces_def)

lemma readPayloadCache_stored_cache:
  "readPayloadCache env (stored_cache v st) =
     (case JSON_parse env (case v of None \<Rightarrow> ''{}'' | Some s \<Rightarrow> if s = [] then ''{}'' else s) of
        None \<Rightarrow> JObj [] | Some j \<Rightarrow> j)"
  by (simp add: readPayloadCache_def getItem_or_braces_def)

lemma readPayloadCache_indep:
  "readPayloadCache env (stored_cache v st) = readPayloadCache env (stored_cache v st')"
  by (simp add: readPayloadCache_stored_cache)

lemma dispatch_input_stored_cache [simp]:
  "dispatch_input (stored_cache v st) = stored_cache v (dispatch_input st)"
  by (simp add: dispatch_input_def debouncedTransientSave_def)

lemma run_ui_updates_stored_cache [simp]:
  "run_ui_updates env (stored_cache v st) = stored_cache v (run_ui_updates env st)"
  by (simp add: run_ui_updates_def keys_distinct)

lemma clearFormForUnitUI_stored_cache [simp]:
  "clearFormForUnitUI env (stored_cache v st) = stored_cache v (clearFormForUnitUI env st)"
  by (simp add: clearFormForUnitUI_def Let_def)

lemma persist_coalColorMap_stored_cache [simp]:
  "persist_coalColorMap env p (stored_cache v st) = stored_cache v (persist_coalColorMap env p st)"
  by (simp add: persist_coalColorMap_def Let_def keys_distinct setItem_stored_cache
        split: option.splits)

lemma populateFormFromPayload_stored_cache [simp]:
  "populateFormFromPayload env p (stored_cache v st) = stored_cache v (populateFormFromPayload env p st)"
  by (simp add: populateFormFromPayload_def Let_def)

lemma fetch_stored_cache [simp]:
  "fetch req (stored_cache v st) = (fst (fetch req st), stored_cache v (snd (fetch req st)))"
  by (simp add: fetch_def)

lemma writeBlendIds_stored_cache [simp]:
  "writeBlendIds env m (stored_cache v st) = stored_cache v (writeBlendIds env m st)"
  by (simp add: writeBlendIds_def setItem_stored_cache keys_distinct)

lemma fetchServerUnitMap_stored_cache [simp]:
  "fetchServerUnitMap env (stored_cache v st) =
     (fst (fetchServerUnitMap env st), stored_cache v (snd (fetchServerUnitMap env st)))"
  by (simp add: fetchServerUnitMap_def case_prod_beta split: response.splits option.splits)

lemma readBlendIds_stored_cache [simp]:
  "readBlendIds env (stored_cache v st) = readBlendIds env st"
  by (simp add: readBlendIds_def keys_distinct)

lemma getBlendIdForUnit_stored_cache [simp]:
  "getBlendIdForUnit env u (stored_cache v st) =
     (fst (getBlendIdForUnit env u st), stored_cache v (snd (getBlendIdForUnit env u st)))"
  by (simp add: getBlendIdForUnit_def Let_def)



lemma clear_unless_cached_stored_cache:
  assumes "\<And>s. readPayloadCache env (stored_cache x s) = c"
  shows "clear_unless_cached env key (stored_cache x s) =
     stored_cache x (if \<not> truthy c \<or> \<not> truthy (js_prop c key) then clearFormForUnitUI env s else s)"
  by (simp add: clear_unless_cached_def Let_def assms)

lemma loadUnitData_catch_stored_cache:
  assumes "\<And>s. readPayloadCache env (stored_cache x s) = c"
  shows "loadUnitData_catch env key (stored_cache x s) =
     (if truthy (js_and c (js_prop c key))
      then (js_prop c key, stored_cache x (populateFormFromPayload env (js_prop c key) s))
      else (JNull, stored_cache x (clearFormForUnitUI env s)))"
  by (simp add: loadUnitData_catch_def Let_def assms)


lemma same_outcome_stored_cache:
  assumes v: "\<And>s. readPayloadCache env (stored_cache v s) = c"
      and w: "\<And>s. readPayloadCache env (stored_cache w s) = c"
  shows "same_outcome env (r, stored_cache v s) (r, stored_cache w s)"
  by (simp add: same_outcome_def v w)

lemma loadUnitData_store_same:
  assumes v: "\<And>s. readPayloadCache env (stored_cache v s) = c"
      and w: "\<And>s. readPayloadCache env (stored_cache w s) = c"
  shows "same_outcome env (r, loadUnitData_store env key p (stored_cache v s))
           (r, loadUnitData_store env key p (stored_cache w s))"
  by (simp add: loadUnitData_store_def v w writePayloadCache_def same_outcome_def
        split: option.split)

lemma loadUnitData_fetch_same:
  assumes v: "\<And>s. readPayloadCache env (stored_cache v s) = c"
      and w: "\<And>s. readPayloadCache env (stored_cache w s) = c"
  shows "same_outcome env (loadUnitData_fetch env key bid (stored_cache v s))
           (loadUnitData_fetch env key bid (stored_cache w s))"
  by (simp add: loadUnitData_fetch_def Let_def case_prod_beta
        clear_unless_cached_stored_cache[OF v] clear_unless_cached_stored_cache[OF w]
        loadUnitData_catch_stored_cache[OF v] loadUnitData_catch_stored_cache[OF w]
        same_outcome_stored_cache[OF v w] loadUnitData_store_same[OF v w]
        split: response.split option.split)

lemma loadUnitData_same:
  assumes v: "\<And>s. readPayloadCache env (stored_cache v s) = c"
      and w: "\<And>s. readPayloadCache env (stored_cache w s) = c"
  shows "same_outcome env (loadUnitData env u (stored_cache v st))
           (loadUnitData env u (stored_cache w st))"
  by (simp add: loadUnitData_def Let_def case_prod_beta v w
        clear_unless_cached_stored_cache[OF v] clear_unless_cached_stored_cache[OF w]
        same_outcome_stored_cache[OF v w] loadUnitData_fetch_same[OF v w])


text \<open>
  Claim C7. Whatever is stored under the durable payload-cache key, \<open>readPayloadCache\<close>
  returns a value and never raises; when the key is absent or holds a text that
  \<open>JSON.parse\<close> rejects, that value is the empty mapping, and \<open>loadUnitData\<close> returns
  (every exception of its body is caught) and behaves exactly as with the empty cache
  \<open>{}\<close>: same result, same requests, same form, same memory tier, and the same reading of
  the durable tier afterwards.
\<close>

theorem loadUnitData_corrupt_cache:
  assumes "JSON_parse env ''{}'' = Some (JObj [])" and "corrupt_or_absent env v"
  shows "readPayloadCache env (stored_cache v st) = JObj []
     \<and> same_outcome env (loadUnitData env u (stored_cache v st))
           (loadUnitData env u (stored_cache (Some ''{}'') st))"
proof -
  have v: "\<And>s. readPayloadCache env (stored_cache v s) = JObj []"
    using assms
    by (auto simp: readPayloadCache_stored_cache corrupt_or_absent_def split: option.splits)
  have w: "\<And>s. readPayloadCache env (stored_cache (Some ''{}'') s) = JObj []"
    using assms(1) by (simp add: readPayloadCache_stored_cache)
  from v loadUnitData_same[OF v w] show ?thesis by simp
qed

theorem loadUnitData_corrupt_cache_witness:
  "JSON_parse demo_env ''{}'' = Some (JObj [])
   \<and> corrupt_or_absent demo_env (Some ''{broken'')
   \<and> readPayloadCache demo_env (stored_cache (Some ''{broken'') demo_state) = JObj []
   \<and> same_outcome demo_env (loadUnitData demo_env 2 (stored_cache (Some ''{broken'') demo_state))
        (loadUnitData demo_env 2 (stored_cache (Some ''{}'') demo_state))
   \<and> fst (loadUnitData demo_env 2 (stored_cache (Some ''{}'') demo_state)) = JNull"
proof -
  have a: "JSON_parse demo_env ''{}'' = Some (JObj [])"
    by (simp add: demo_parse_def)
  have b: "corrupt_or_absent demo_env (Some ''{broken'')"
    by (simp add: corrupt_or_absent_def demo_parse_def)
  have c: "fst (loadUnitData demo_env 2 (stored_cache (Some ''{}'') demo_state)) = JNull"
    by (simp add: loadUnitData_def Let_def case_prod_beta readPayloadCache_stored_cache
          demo_parse_def js_and_def getBlendIdForUnit_def fetchServerUnitMap_def fetch_def
          demo_state_def readBlendIds_def getItem_or_braces_def stored_cache_def
          BLEND_IDS_KEY_def PAYLOAD_CACHE_KEY_def String_int_units clear_unless_cached_def
          readPayloadCache_def)
  from loadUnitData_corrupt_cache[OF a b, of demo_state 2] a b c show ?thesis by simp
qed

section \<open>What each operation leaves unchanged\<close>

lemma setItem_fields [simp]:
  "currentUnit (setItem k x st) = currentUnit st"
  "serverUnitMap (setItem k x st) = serverUnitMap st"
  "inMemoryPayloadCache (setItem k x st) = inMemoryPayloadCache st"
  "deferredPayloadWriteTimer (setItem k x st) = deferredPayloadWriteTimer st"
  "debounceTimer (setItem k x st) = debounceTimer st"
  "autosaveAttached (setItem k x st) = autosaveAttached st"
  "document (setItem k x st) = document st"
  "clock (setItem k x st) = clock st"
  "tasks (setItem k x st) = tasks st"
  "network (setItem k x st) = network st"
  "requests (setItem k x st) = requests st"
  "captures (setItem k x st) = captures st"
  "alerts (setItem k x st) = alerts st"
  "localStorage (setItem k x st) = (localStorage st)(k \<mapsto> x)"
  "storageWrites (setItem k x st) = storageWrites st @ [(k, x)]"
  by (simp_all add: setItem_def)

lemma fetch_fields [simp]:
  "currentUnit (snd (fetch req st)) = currentUnit st"
  "serverUnitMap (snd (fetch req st)) = serverUnitMap st"
  "inMemoryPayloadCache (snd (fetch req st)) = inMemoryPayloadCache st"
  "deferredPayloadWriteTimer (snd (fetch req st)) = deferredPayloadWriteTimer st"
  "debounceTimer (snd (fetch req st)) = debounceTimer st"
  "autosaveAttached (snd (fetch req st)) = autosaveAttached st"
  "document (snd (fetch req st)) = document st"
  "clock (snd (fetch req st)) = clock st"
  "tasks (snd (fetch req st)) = tasks st"
  "captures (snd (fetch req st)) = captures st"
  "alerts (snd (fetch req st)) = alerts st"
  "localStorage (snd (fetch req st)) = localStorage st"
  "storageWrites (snd (fetch req st)) = storageWrites st"
  "requests (snd (fetch req st)) = requests st @ [req]"
  "network (snd (fetch req st)) = tl (network st)"
  by (simp_all add: fetch_def)

lemma fetchServerUnitMap_fields [simp]:
  "currentUnit (snd (fetchServerUnitMap env st)) = currentUnit st"
  "inMemoryPayloadCache (snd (fetchServerUnitMap env st)) = inMemoryPayloadCache st"
  "deferredPayloadWriteTimer (snd (fetchServerUnitMap env st)) = deferredPayloadWriteTimer st"
  "debounceTimer (snd (fetchServerUnitMap env st)) = debounceTimer st"
  "autosaveAttached (snd (fetchServerUnitMap env st)) = autosaveAttached st"
  "document (snd (fetchServerUnitMap env st)) = document st"
  "clock (snd (fetchServerUnitMap env st)) = clock st"
  "tasks (snd (fetchServerUnitMap env st)) = tasks st"
  "captures (snd (fetchServerUnitMap env st)) = captures st"
  "alerts (snd (fetchServerUnitMap env st)) = alerts st"
  "k \<noteq> BLEND_IDS_KEY \<Longrightarrow> localStorage (snd (fetchServerUnitMap env st)) k = localStorage st k"
  "network (snd (fetchServerUnitMap env st)) = tl (network st)"
  by (simp_all add: fetchServerUnitMap_def case_prod_beta writeBlendIds_def
        split: response.splits option.splits)

lemma getBlendIdForUnit_fields [simp]:
  "currentUnit (snd (getBlendIdForUnit env u st)) = currentUnit st"
  "inMemoryPayloadCache (snd (getBlendIdForUnit env u st)) = inMemoryPayloadCache st"
  "deferredPayloadWriteTimer (snd (getBlendIdForUnit env u st)) = deferredPayloadWriteTimer st"
  "debounceTimer (snd (getBlendIdForUnit env u st)) = debounceTimer st"
  "autosaveAttached (snd (getBlendIdForUnit env u st)) = autosaveAttached st"
  "document (snd (getBlendIdForUnit env u st)) = document st"
  "clock (snd (getBlendIdForUnit env u st)) = clock st"
  "tasks (snd (getBlendIdForUnit env u st)) = tasks st"
  "captures (snd (getBlendIdForUnit env u st)) = captures st"
  "alerts (snd (getBlendIdForUnit env u st)) = alerts st"
  "k \<noteq> BLEND_IDS_KEY \<Longrightarrow> localStorage (snd (getBlendIdForUnit env u st)) k = localStorage st k"
  by (simp_all add: getBlendIdForUnit_def Let_def)

lemma dispatch_input_fields [simp]:
  "currentUnit (dispatch_input st) = currentUnit st"
  "serverUnitMap (dispatch_input st) = serverUnitMap st"
  "inMemoryPayloadCache (dispatch_input st) = inMemoryPayloadCache st"
  "deferredPayloadWriteTimer (dispatch_input st) = deferredPayloadWriteTimer st"
  "autosaveAttached (dispatch_input st) = autosaveAttached st"
  "document (dispatch_input st) = document st"
  "clock (dispatch_input st) = clock st"
  "tasks (dispatch_input st) = tasks st"
  "network (dispatch_input st) = network st"
  "requests (dispatch_input st) = requests st"
  "captures (dispatch_input st) = captures st"
  "alerts (dispatch_input st) = alerts st"
  "localStorage (dispatch_input st) = localStorage st"
  "storageWrites (dispatch_input st) = storageWrites st"
  by (simp_all add: dispatch_input_def debouncedTransientSave_def)

lemma clearFormForUnitUI_fields [simp]:
  "currentUnit (clearFormForUnitUI env st) = currentUnit st"
  "serverUnitMap (clearFormForUnitUI env st) = serverUnitMap st"
  "inMemoryPayloadCache (clearFormForUnitUI env st) = inMemoryPayloadCache st"
  "deferredPayloadWriteTimer (clearFormForUnitUI env st) = deferredPayloadWriteTimer st"
  "autosaveAttached (clearFormForUnitUI env st) = autosaveAttached st"
  "clock (clearFormForUnitUI env st) = clock st"
  "tasks (clearFormForUnitUI env st) = tasks st"
  "network (clearFormForUnitUI env st) = network st"
  "requests (clearFormForUnitUI env st) = requests st"
  "captures (clearFormForUnitUI env st) = captures st"
  "alerts (clearFormForUnitUI env st) = alerts st"
  "localStorage (clearFormForUnitUI env st) = localStorage st"
  "storageWrites (clearFormForUnitUI env st) = storageWrites st"
  by (simp_all add: clearFormForUnitUI_def run_ui_updates_def Let_def)

lemma persist_coalColorMap_fields [simp]:
  "currentUnit (persist_coalColorMap env p st) = currentUnit st"
  "serverUnitMap (persist_coalColorMap env p st) = serverUnitMap st"
  "inMemoryPayloadCache (persist_coalColorMap env p st) = inMemoryPayloadCache st"
  "deferredPayloadWriteTimer (persist_coalColorMap env p st) = deferredPayloadWriteTimer st"
  "debounceTimer (persist_coalColorMap env p st) = debounceTimer st"
  "autosaveAttached (persist_coalColorMap env p st) = autosaveAttached st"
  "document (persist_coalColorMap env p st) = document st"
  "clock (persist_coalColorMap env p st) = clock st"
  "tasks (persist_coalColorMap env p st) = tasks st"
  "network (persist_coalColorMap env p st) = network st"
  "requests (persist_coalColorMap env p st) = requests st"
  "captures (persist_coalColorMap env p st) = captures st"
  "alerts (persist_coalColorMap env p st) = alerts st"
  "k \<noteq> COLOR_MAP_KEY \<Longrightarrow> localStorage (persist_coalColorMap env p st) k = localStorage st k"
  by (simp_all add: persist_coalColorMap_def Let_def split: option.splits)

lemma populateFormFromPayload_fields [simp]:
  "currentUnit (populateFormFromPayload env p st) = currentUnit st"
  "serverUnitMap (populateFormFromPayload env p st) = serverUnitMap st"
  "inMemoryPayloadCache (populateFormFromPayload env p st) = inMemoryPayloadCache st"
  "deferredPayloadWriteTimer (populateFormFromPayload env p st) = deferredPayloadWriteTimer st"
  "autosaveAttached (populateFormFromPayload env p st) = autosaveAttached st"
  "clock (populateFormFromPayload env p st) = clock st"
  "tasks (populateFormFromPayload env p st) = tasks st"
  "network (populateFormFromPayload env p st) = network st"
  "requests (populateFormFromPayload env p st) = requests st"
  "captures (populateFormFromPayload env p st) = captures st"
  "alerts (populateFormFromPayload env p st) = alerts st"
  "k \<noteq> COLOR_MAP_KEY \<Longrightarrow> localStorage (populateFormFromPayload env p st) k = localStorage st k"
  by (simp_all add: populateFormFromPayload_def run_ui_updates_def Let_def)

lemma schedulePersistPayloadCache_fields [simp]:
  "currentUnit (schedulePersistPayloadCache st) = currentUnit st"
  "serverUnitMap (schedulePersistPayloadCache st) = serverUnitMap st"
  "inMemoryPayloadCache (schedulePersistPayloadCache st) = inMemoryPayloadCache st"
  "debounceTimer (schedulePersistPayloadCache st) = debounceTimer st"
  "autosaveAttached (schedulePersistPayloadCache st) = autosaveAttached st"
  "document (schedulePersistPayloadCache st) = document st"
  "clock (schedulePersistPayloadCache st) = clock st"
  "tasks (schedulePersistPayloadCache st) = tasks st"
  "network (schedulePersistPayloadCache st) = network st"
  "requests (schedulePersistPayloadCache st) = requests st"
  "captures (schedulePersistPayloadCache st) = captures st"
  "alerts (schedulePersistPayloadCache st) = alerts st"
  "localStorage (schedulePersistPayloadCache st) = localStorage st"
  "storageWrites (schedulePersistPayloadCache st) = storageWrites st"
  "deferredPayloadWriteTimer (schedulePersistPayloadCache st) \<noteq> None"
  by (simp_all add: schedulePersistPayloadCache_def)

lemma cached_update [simp]:
  "js_prop (JObj (AList.update k v al)) k = v"
  by (simp add: update_conv')

lemma cached_update_other [simp]:
  "k' \<noteq> k \<Longrightarrow> js_prop (JObj (AList.update k v al)) k' = js_prop (JObj al) k'"
  by (simp add: update_conv')

section \<open>Properties of the background reconciliation\<close>




section \<open>Properties of the unit switch\<close>

lemma String_int_unit_inj:
  "u \<in> {1, 2, 3} \<Longrightarrow> v \<in> {1, 2, 3} \<Longrightarrow> u \<noteq> v \<Longrightarrow> String_int u \<noteq> String_int v"
  by (auto simp: String_int_units)

lemma normalize_unit_id: "u \<in> {1, 2, 3} \<Longrightarrow> normalize_unit u = u"
  by (auto simp: normalize_unit_def)

lemma truthy_collectFormData [simp]: "truthy (collectFormData env st)"
  by (simp add: collectFormData_def Let_def)

lemma saveTransientToMemory_fields [simp]:
  "currentUnit (saveTransientToMemory env st) = currentUnit st"
  "serverUnitMap (saveTransientToMemory env st) = serverUnitMap st"
  "debounceTimer (saveTransientToMemory env st) = debounceTimer st"
  "autosaveAttached (saveTransientToMemory env st) = autosaveAttached st"
  "document (saveTransientToMemory env st) = document st"
  "clock (saveTransientToMemory env st) = clock st"
  "tasks (saveTransientToMemory env st) = tasks st"
  "network (saveTransientToMemory env st) = network st"
  "requests (saveTransientToMemory env st) = requests st"
  "alerts (saveTransientToMemory env st) = alerts st"
  "localStorage (saveTransientToMemory env st) = localStorage st"
  "storageWrites (saveTransientToMemory env st) = storageWrites st"
  "deferredPayloadWriteTimer (saveTransientToMemory env st) \<noteq> None"
  by (simp_all add: saveTransientToMemory_def Let_def)

lemma saveTransientToMemory_cached:
  "currentUnit st \<noteq> 0 \<Longrightarrow>
   cached (saveTransientToMemory env st) k =
     (if k = String_int (currentUnit st) then collectFormData env st else cached st k)"
  by (simp add: saveTransientToMemory_def Let_def cached_def update_conv')

lemma render_unit_fields [simp]:
  "currentUnit (render_unit env u st) = currentUnit st"
  "serverUnitMap (render_unit env u st) = serverUnitMap st"
  "deferredPayloadWriteTimer (render_unit env u st) = deferredPayloadWriteTimer st"
  "autosaveAttached (render_unit env u st) = autosaveAttached st"
  "clock (render_unit env u st) = clock st"
  "tasks (render_unit env u st) = tasks st"
  "network (render_unit env u st) = network st"
  "requests (render_unit env u st) = requests st"
  "captures (render_unit env u st) = captures st"
  "alerts (render_unit env u st) = alerts st"
  "k \<noteq> COLOR_MAP_KEY \<Longrightarrow> localStorage (render_unit env u st) k = localStorage st k"
  by (simp_all add: render_unit_def Let_def split: option.splits)

lemma render_unit_cached:
  "k \<noteq> String_int u \<Longrightarrow> cached (render_unit env u st) k = cached st k"
  by (simp add: render_unit_def Let_def cached_def update_conv' split: option.splits)

lemma render_unit_from_memory:
  "truthy (cached st (String_int u)) \<Longrightarrow>
   render_unit env u st = populateFormFromPayload env (cached st (String_int u)) st"
  by (simp add: render_unit_def Let_def)

lemma cached_simps [simp]:
  "cached (setItem k x st) = cached st"
  "cached (st\<lparr>currentUnit := c\<rparr>) = cached st"
  "cached (st\<lparr>document := d\<rparr>) = cached st"
  "cached (st\<lparr>tasks := ts\<rparr>) = cached st"
  by (simp_all add: cached_def fun_eq_iff)

lemma backgroundFetch_start_fields [simp]:
  "currentUnit (backgroundFetch_start u st) = currentUnit st"
  "serverUnitMap (backgroundFetch_start u st) = serverUnitMap st"
  "inMemoryPayloadCache (backgroundFetch_start u st) = inMemoryPayloadCache st"
  "localStorage (backgroundFetch_start u st) = localStorage st"
  "deferredPayloadWriteTimer (backgroundFetch_start u st) = deferredPayloadWriteTimer st"
  "debounceTimer (backgroundFetch_start u st) = debounceTimer st"
  "autosaveAttached (backgroundFetch_start u st) = autosaveAttached st"
  "document (backgroundFetch_start u st) = document st"
  "clock (backgroundFetch_start u st) = clock st"
  "network (backgroundFetch_start u st) = network st"
  "storageWrites (backgroundFetch_start u st) = storageWrites st"
  "captures (backgroundFetch_start u st) = captures st"
  "alerts (backgroundFetch_start u st) = alerts st"
  by (simp_all add: backgroundFetch_start_def send_def Let_def)

lemma cached_backgroundFetch_start [simp]:
  "cached (backgroundFetch_start u st) = cached st"
  by (simp add: cached_def fun_eq_iff)

lemma requests_backgroundFetch_start:
  "u \<noteq> 0 \<Longrightarrow> requests (backgroundFetch_start u st) = requests st @ started_requests st u"
  by (simp add: backgroundFetch_start_def started_requests_def send_def Let_def)

text \<open>
  The request sent inside the switch is the first request of the background fetch as a
  whole.
\<close>

lemma backgroundFetch_start_first:
  "\<exists>rest. requests (backgroundFetch env u st) = requests (backgroundFetch_start u st) @ rest"
proof -
  have r: "\<And>req s. requests (snd (fetch req s)) = requests s @ [req]"
    by (simp add: fetch_def)
  have g: "\<exists>rest. requests (snd (getBlendIdForUnit env u st)) =
      requests (backgroundFetch_start u st) @ rest"
    by (simp add: getBlendIdForUnit_def backgroundFetch_start_def send_def Let_def
          requests_fetchServerUnitMap)
  then obtain rest where g': "requests (snd (getBlendIdForUnit env u st)) =
      requests (backgroundFetch_start u st) @ rest" by blast
  have t: "requests (backgroundFetch env u st) = requests (snd (getBlendIdForUnit env u st))
      \<or> (\<exists>req. requests (backgroundFetch env u st) =
            requests (snd (getBlendIdForUnit env u st)) @ [req])"
    by (auto simp: backgroundFetch_def Let_def case_prod_beta r reconcile_def
          split: response.split option.split)
  then show ?thesis using g' by auto
qed

lemma setCurrentUnitFast_first:
  assumes "u \<in> {1, 2, 3}" "v \<in> {1, 2, 3}" "u \<noteq> v" "currentUnit st = v"
  shows "cached (setCurrentUnitFast env u st) (String_int v) = collectFormData env st"
    and "currentUnit (setCurrentUnitFast env u st) = u"
    and "requests (setCurrentUnitFast env u st) = requests st @ started_requests st u"
    and "network (setCurrentUnitFast env u st) = network st"
    and "localStorage (setCurrentUnitFast env u st) PAYLOAD_CACHE_KEY = localStorage st PAYLOAD_CACHE_KEY"
    and "serverUnitMap (setCurrentUnitFast env u st) = serverUnitMap st"
proof -
  from assms have v0: "currentUnit st \<noteq> 0" by auto
  from assms(1) have u0: "u \<noteq> 0" by auto
  have k: "String_int v \<noteq> String_int u"
    using assms String_int_unit_inj by metis
  show "cached (setCurrentUnitFast env u st) (String_int v) = collectFormData env st"
    using assms(1,4) k
    by (simp add: setCurrentUnitFast_def Let_def normalize_unit_id render_unit_cached
          saveTransientToMemory_cached[OF v0])
  show "currentUnit (setCurrentUnitFast env u st) = u"
    using assms(1) by (simp add: setCurrentUnitFast_def Let_def normalize_unit_id)
  show "requests (setCurrentUnitFast env u st) = requests st @ started_requests st u"
    using assms(1) u0
    by (simp add: setCurrentUnitFast_def Let_def normalize_unit_id requests_backgroundFetch_start
          started_requests_def)
  show "network (setCurrentUnitFast env u st) = network st"
    by (simp add: setCurrentUnitFast_def Let_def)
  show "localStorage (setCurrentUnitFast env u st) PAYLOAD_CACHE_KEY = localStorage st PAYLOAD_CACHE_KEY"
    by (simp add: setCurrentUnitFast_def Let_def keys_distinct)
  show "serverUnitMap (setCurrentUnitFast env u st) = serverUnitMap st"
    by (simp add: setCurrentUnitFast_def Let_def)
qed

text \<open>
  Claim C1, as the code has it. Let \<open>v\<close> be the active unit and \<open>u\<close> another unit, both
  in \<open>{1, 2, 3}\<close>. The switch to \<open>u\<close> (\<open>setCurrentUnitFast\<close>) snapshots the form into the
  memory-tier entry for \<open>v\<close>; switching back to \<open>v\<close> at once leaves that entry as it is
  and repopulates the form from it, the very payload captured at the first switch. No
  response of the server is waited for or consumed, and the durable payload cache is
  neither read for \<open>v\<close> nor written. The network is involved in one way: each switch
  starts the background fetch of the unit it goes to, which before the switch returns
  sends the request for \<open>/units\<close> when the in-memory unit map has no id for that unit,
  and nothing when it has one.
\<close>

theorem setCurrentUnitFast_round_trip:
  assumes "u \<in> {1, 2, 3}" and "v \<in> {1, 2, 3}" and "u \<noteq> v" and "currentUnit st = v"
  shows
    "cached (setCurrentUnitFast env u st) (String_int v) = collectFormData env st
     \<and> cached (setCurrentUnitFast env v (setCurrentUnitFast env u st)) (String_int v) =
         collectFormData env st
     \<and> document (setCurrentUnitFast env v (setCurrentUnitFast env u st)) =
         document (populateFormFromPayload env (collectFormData env st)
           ((setItem ''currentUnit'' (String_int v)
               ((saveTransientToMemory env (setCurrentUnitFast env u st))\<lparr>currentUnit := v\<rparr>))
             \<lparr>document := mark_unit env v (document (setCurrentUnitFast env u st))\<rparr>))
     \<and> network (setCurrentUnitFast env v (setCurrentUnitFast env u st)) = network st
     \<and> requests (setCurrentUnitFast env v (setCurrentUnitFast env u st)) =
         requests st @ started_requests st u @ started_requests st v
     \<and> localStorage (setCurrentUnitFast env v (setCurrentUnitFast env u st)) PAYLOAD_CACHE_KEY =
         localStorage st PAYLOAD_CACHE_KEY"
proof -
  let ?st1 = "setCurrentUnitFast env u st"
  let ?pre = "(setItem ''currentUnit'' (String_int v)
               ((saveTransientToMemory env ?st1)\<lparr>currentUnit := v\<rparr>))
             \<lparr>document := mark_unit env v (document ?st1)\<rparr>"
  note first = setCurrentUnitFast_first[OF assms, of env]
  have u0: "currentUnit ?st1 \<noteq> 0" using first(2) assms(1) by auto
  from assms(2) have v0: "v \<noteq> 0" by auto
  have k: "String_int v \<noteq> String_int u"
    using assms String_int_unit_inj by metis
  have c: "cached ?pre (String_int v) = collectFormData env st"
    using k first(1,2) by (simp add: saveTransientToMemory_cached[OF u0])
  then have t: "truthy (cached ?pre (String_int v))" by simp
  have r: "render_unit env v ?pre = populateFormFromPayload env (collectFormData env st) ?pre"
    using render_unit_from_memory[OF t] c by simp
  have e: "setCurrentUnitFast env v ?st1 =
      (backgroundFetch_start v (render_unit env v ?pre))
        \<lparr>tasks := tasks (backgroundFetch_start v (render_unit env v ?pre)) @
           [PrefetchOtherUnits v (clock (backgroundFetch_start v (render_unit env v ?pre)) + 240),
            AttachAutosaveListeners
              (clock (backgroundFetch_start v (render_unit env v ?pre)) + 120)]\<rparr>"
    using assms(2) by (simp add: setCurrentUnitFast_def Let_def normalize_unit_id)
  have c2: "cached (setCurrentUnitFast env v ?st1) (String_int v) = collectFormData env st"
    unfolding e r using c by (simp add: cached_def)
  have d: "document (setCurrentUnitFast env v ?st1) =
      document (populateFormFromPayload env (collectFormData env st) ?pre)"
    unfolding e r by simp
  have n: "network (setCurrentUnitFast env v ?st1) = network st"
    unfolding e r using first(4) by simp
  have q: "requests (setCurrentUnitFast env v ?st1) =
      requests st @ started_requests st u @ started_requests st v"
    using setCurrentUnitFast_first(3)[of v u ?st1 env] assms first(2,3,6)
    by (simp add: started_requests_def)
  have l: "localStorage (setCurrentUnitFast env v ?st1) PAYLOAD_CACHE_KEY =
      localStorage st PAYLOAD_CACHE_KEY"
    unfolding e r using first(5) by (simp add: keys_distinct)
  from first(1) c2 d n q l show ?thesis by simp
qed

theorem setCurrentUnitFast_round_trip_witness:
  "(2::int) \<in> {1, 2, 3} \<and> (1::int) \<in> {1, 2, 3} \<and> (2::int) \<noteq> 1 \<and> currentUnit demo_mapped = 1
   \<and> cached (setCurrentUnitFast demo_env 2 demo_mapped) (String_int 1) =
       collectFormData demo_env demo_mapped
   \<and> cached (setCurrentUnitFast demo_env 1 (setCurrentUnitFast demo_env 2 demo_mapped)) (String_int 1) =
       collectFormData demo_env demo_mapped
   \<and> document (setCurrentUnitFast demo_env 1 (setCurrentUnitFast demo_env 2 demo_mapped)) =
       collectFormData demo_env demo_mapped
   \<and> network (setCurrentUnitFast demo_env 1 (setCurrentUnitFast demo_env 2 demo_mapped)) =
       [Response True (Some demo_payload)]
   \<and> requests (setCurrentUnitFast demo_env 1 (setCurrentUnitFast demo_env 2 demo_mapped)) =
       [Request GET Units None]
   \<and> localStorage (setCurrentUnitFast demo_env 1 (setCurrentUnitFast demo_env 2 demo_mapped))
         PAYLOAD_CACHE_KEY = None"
proof -
  have a: "(2::int) \<in> {1, 2, 3}" and b: "(1::int) \<in> {1, 2, 3}" and c: "(2::int) \<noteq> 1"
    and d: "currentUnit demo_mapped = 1"
    by (simp_all add: demo_mapped_def demo_state_def)
  note t = setCurrentUnitFast_round_trip[OF a b c d, of demo_env]
  have p: "\<And>S. document (populateFormFromPayload demo_env (collectFormData demo_env demo_mapped) S) =
      collectFormData demo_env demo_mapped"
    by (simp add: populateFormFromPayload_def Let_def run_ui_updates_def demo_env_def)
  have e: "network demo_mapped = [Response True (Some demo_payload)]"
    "localStorage demo_mapped PAYLOAD_CACHE_KEY = None"
    "requests demo_mapped @ started_requests demo_mapped 2 @ started_requests demo_mapped 1 =
       [Request GET Units None]"
    by (simp_all add: demo_mapped_def demo_state_def started_requests_def demo_ids_def
          String_int_units js_and_def)
  from t a b c d show ?thesis
    unfolding p e by blast
qed

text \<open>
  A round trip is not free of network operations: on the page whose in-memory unit map
  is empty, each of the two switches sends the request for \<open>/units\<close>.
\<close>

theorem setCurrentUnitFast_requests_counterexample:
  "requests demo_state = []
   \<and> requests (setCurrentUnitFast demo_env 1 (setCurrentUnitFast demo_env 2 demo_state)) =
       [Request GET Units None, Request GET Units None]"
proof -
  have a: "(2::int) \<in> {1, 2, 3}" and b: "(1::int) \<in> {1, 2, 3}" and c: "(2::int) \<noteq> 1"
    and d: "currentUnit demo_state = 1"
    by (simp_all add: demo_state_def)
  note f = setCurrentUnitFast_first[OF a b c d, of demo_env]
  have g: "currentUnit (setCurrentUnitFast demo_env 2 demo_state) = 2" by (rule f(2))
  have c': "(1::int) \<noteq> 2" by simp
  note s = setCurrentUnitFast_first(3)[OF b a c' g, of demo_env]
  have e: "requests demo_state = []"
    "started_requests demo_state 2 = [Request GET Units None]"
    "started_requests (setCurrentUnitFast demo_env 2 demo_state) 1 = [Request GET Units None]"
    by (simp_all add: started_requests_def f(6)) (simp_all add: demo_state_def js_and_def)
  show ?thesis
    unfolding s f(3) e by simp
qed

section \<open>Properties of the explicit save\<close>

lemma alert_fields [simp]:
  "serverUnitMap (alert a st) = serverUnitMap st"
  "requests (alert a st) = requests st"
  "network (alert a st) = network st"
  "storageWrites (alert a st) = storageWrites st"
  "localStorage (alert a st) = localStorage st"
  "currentUnit (alert a st) = currentUnit st"
  "inMemoryPayloadCache (alert a st) = inMemoryPayloadCache st"
  "deferredPayloadWriteTimer (alert a st) = deferredPayloadWriteTimer st"
  by (simp_all add: alert_def)

lemma cache_saved_payload_fields [simp]:
  "serverUnitMap (cache_saved_payload env unit data payload st) = serverUnitMap st"
  "requests (cache_saved_payload env unit data payload st) = requests st"
  "network (cache_saved_payload env unit data payload st) = network st"
  "currentUnit (cache_saved_payload env unit data payload st) = currentUnit st"
  "deferredPayloadWriteTimer (cache_saved_payload env unit data payload st) = deferredPayloadWriteTimer st"
  "k \<noteq> PAYLOAD_CACHE_KEY \<Longrightarrow>
     localStorage (cache_saved_payload env unit data payload st) k = localStorage st k"
  "set (storageWrites st) \<subseteq> set (storageWrites (cache_saved_payload env unit data payload st))"
  by (auto simp: cache_saved_payload_def Let_def writePayloadCache_def split: option.splits)

lemma cache_saved_payload_writes:
  "x \<in> set (storageWrites st) \<Longrightarrow>
   x \<in> set (storageWrites (cache_saved_payload env unit data payload st))"
  by (auto simp: cache_saved_payload_def Let_def writePayloadCache_def split: option.splits)

lemma getBlendIdForUnit_from_map:
  "u \<noteq> 0 \<Longrightarrow> has_entry (serverUnitMap st) (String_int u) \<Longrightarrow>
   getBlendIdForUnit env u st = (js_prop (serverUnitMap st) (String_int u), st)"
  by (simp add: getBlendIdForUnit_def Let_def has_entry_def)


lemma record_created_id_requests:
  "record_created_id env unit idF rid ids st = Some (ids', st3) \<Longrightarrow>
   \<exists>more. requests st3 = requests st @ more"
  by (auto simp: record_created_id_def Let_def case_prod_beta writeBlendIds_def
        requests_fetchServerUnitMap split: if_splits option.splits response.splits)

lemma saveToServer_saved_requests:
  "\<exists>more. requests (saveToServer_saved env unit idF ids payload data st2) = requests st2 @ more"
proof (cases "get_prop data ''id''")
  case None
  then show ?thesis by (simp add: saveToServer_saved_def)
next
  case (Some data_id)
  let ?rid = "js_or (js_or data_id (js_prop data ''_id'')) JNull"
  show ?thesis
  proof (cases "record_created_id env unit idF ?rid ids st2")
    case None
    with Some show ?thesis by (simp add: saveToServer_saved_def)
  next
    case (Some r)
    obtain ids' st3 where r: "r = (ids', st3)" by (cases r)
    from record_created_id_requests[OF Some[unfolded r]]
    obtain more where "requests st3 = requests st2 @ more" by blast
    with Some r \<open>get_prop data ''id'' = Some data_id\<close> show ?thesis
      by (auto simp: saveToServer_saved_def Let_def split: option.splits)
  qed
qed


lemma saveToServer_after_fetch:
  assumes "currentUnit st \<noteq> 0"
    and "getBlendIdForUnit env (currentUnit st) st = (idForUnit, st1)"
    and "req = (if truthy idForUnit then Request PUT (BlendId idForUnit) (Some (collectFormData env st))
        else Request POST Blend (Some (collectFormData env st)))"
  shows "saveToServer env st =
     (case fst (fetch req st1) of
        NetworkError \<Rightarrow> alert SaveError (snd (fetch req st1))
      | Response ok body \<Rightarrow>
          if \<not> ok then alert SaveFailed (snd (fetch req st1))
          else (case body of
                  None \<Rightarrow> alert SaveError (snd (fetch req st1))
                | Some data \<Rightarrow>
                    saveToServer_saved env (currentUnit st) idForUnit (readBlendIds env st)
                      (collectFormData env st) data (snd (fetch req st1))))"
proof -
  have i: "idForUnit = fst (getBlendIdForUnit env (currentUnit st) st)"
    and s: "st1 = snd (getBlendIdForUnit env (currentUnit st) st)"
    using assms(2) by simp_all
  show ?thesis
    unfolding assms(3) i s using assms(1)
    by (cases "truthy (fst (getBlendIdForUnit env (currentUnit st) st))")
       (simp_all add: saveToServer_def Let_def case_prod_beta)
qed

lemma saveToServer_request:
  assumes "currentUnit st \<noteq> 0"
    and "getBlendIdForUnit env (currentUnit st) st = (idForUnit, st1)"
  shows "\<exists>more. requests (saveToServer env st) =
     requests st1 @
       (if truthy idForUnit then Request PUT (BlendId idForUnit) (Some (collectFormData env st))
        else Request POST Blend (Some (collectFormData env st))) # more"
proof -
  define req where "req = (if truthy idForUnit
        then Request PUT (BlendId idForUnit) (Some (collectFormData env st))
        else Request POST Blend (Some (collectFormData env st)))"
  let ?st2 = "snd (fetch req st1)"
  have q: "requests ?st2 = requests st1 @ [req]" by simp
  have "\<exists>more. requests (saveToServer env st) = requests ?st2 @ more"
    unfolding saveToServer_after_fetch[OF assms req_def]
    using saveToServer_saved_requests[of env "currentUnit st" idForUnit "readBlendIds env st"
        "collectFormData env st" _ ?st2]
    by (simp split: response.split option.split)
  then show ?thesis unfolding q req_def by simp
qed


lemma fetchServerUnitMap_grows:
  "set (storageWrites st) \<subseteq> set (storageWrites (snd (fetchServerUnitMap env st)))"
  "set (requests st) \<subseteq> set (requests (snd (fetchServerUnitMap env st)))"
  by (auto simp: fetchServerUnitMap_def case_prod_beta writeBlendIds_def
        split: response.splits option.splits)

lemma fetchServerUnitMap_ok:
  "network st = Response True (Some m) # rest \<Longrightarrow>
   serverUnitMap (snd (fetchServerUnitMap env st)) = js_or m (JObj [])"
  by (simp add: fetchServerUnitMap_def fetch_def)

lemma fetch_head:
  "network st = r # rest \<Longrightarrow> fst (fetch req st) = r"
  by (simp add: fetch_def)

lemma has_entry_truthy: "has_entry m k \<Longrightarrow> truthy m \<and> truthy (js_prop m k)"
  by (auto simp: has_entry_def js_and_def split: if_splits)

lemma record_created_id_create:
  assumes "\<not> truthy idF" and "truthy rid"
    and "record_created_id env unit idF rid (JObj kvs) st = Some (ids', st3)"
  shows "(BLEND_IDS_KEY, JSON_stringify env (JObj (AList.update (String_int unit) rid kvs)))
           \<in> set (storageWrites st3)"
    and "Request PUT (UnitsOf unit) (Some (JObj [(''blendId'', rid)])) \<in> set (requests st3)"
    and "network st = r_put # Response True (Some m) # rest \<Longrightarrow> r_put \<noteq> NetworkError \<Longrightarrow>
         serverUnitMap st3 = js_or m (JObj [])"
proof -
  let ?ids = "JObj (AList.update (String_int unit) rid kvs)"
  let ?w = "writeBlendIds env ?ids st"
  let ?put = "Request PUT (UnitsOf unit) (Some (JObj [(''blendId'', rid)]))"
  let ?p = "snd (fetch ?put ?w)"
  have st3: "st3 = (case fst (fetch ?put ?w) of NetworkError \<Rightarrow> ?p
                    | Response ok body \<Rightarrow> snd (fetchServerUnitMap env ?p))"
    using assms by (auto simp: record_created_id_def Let_def case_prod_beta split: response.splits)
  have w: "(BLEND_IDS_KEY, JSON_stringify env ?ids) \<in> set (storageWrites ?p)"
    by (simp add: writeBlendIds_def)
  have q: "?put \<in> set (requests ?p)" by simp
  show "(BLEND_IDS_KEY, JSON_stringify env ?ids) \<in> set (storageWrites st3)"
    unfolding st3 using w fetchServerUnitMap_grows(1)[of ?p env]
    by (auto split: response.splits)
  show "?put \<in> set (requests st3)"
    unfolding st3 using q fetchServerUnitMap_grows(2)[of ?p env]
    by (auto split: response.splits)
  assume n: "network st = r_put # Response True (Some m) # rest" and r: "r_put \<noteq> NetworkError"
  have nw: "network ?w = r_put # Response True (Some m) # rest"
    using n by (simp add: writeBlendIds_def)
  have f: "fst (fetch ?put ?w) = r_put" using fetch_head[OF nw] .
  have np: "network ?p = Response True (Some m) # rest" using nw by simp
  show "serverUnitMap st3 = js_or m (JObj [])"
    unfolding st3 f using r fetchServerUnitMap_ok[OF np]
    by (cases r_put) simp_all
qed

lemma record_created_id_Some:
  "\<not> truthy idF \<Longrightarrow> truthy rid \<Longrightarrow>
   \<exists>ids' st3. record_created_id env unit idF rid (JObj kvs) st = Some (ids', st3)"
  by (simp add: record_created_id_def Let_def case_prod_beta split: response.split)

text \<open>
  Claim C2. An explicit save (\<open>saveToServer\<close>) on an active unit resolves the unit's
  record id and then issues a POST (create) when there is none and a PUT (update) of that
  record when there is one. After a successful create that returned an id, the id is
  written into the locally persisted map and sent to the remote unit-mapping store
  (\<open>PUT /units/:unit\<close> with \<open>{ blendId }\<close>); and when the server accepts it and lists it
  in the refreshed map, a subsequent \<open>getBlendIdForUnit\<close> for that unit returns the id from
  the in-memory remote map and leaves the state as it is: it issues no request.
\<close>

theorem saveToServer_create_or_update:
  assumes "currentUnit st \<in> {1, 2, 3}"
    and "getBlendIdForUnit env (currentUnit st) st = (idForUnit, st1)"
  shows
    "(\<exists>more. requests (saveToServer env st) =
        requests st1 @
          (if truthy idForUnit then Request PUT (BlendId idForUnit) (Some (collectFormData env st))
           else Request POST Blend (Some (collectFormData env st))) # more)
     \<and> (\<not> truthy idForUnit \<and> network st1 = Response True (Some data) # rest
          \<and> data \<noteq> JNull \<and> data \<noteq> JUndefined
          \<and> truthy (js_or (js_or (js_prop data ''id'') (js_prop data ''_id'')) JNull)
          \<and> readBlendIds env st = JObj kvs \<longrightarrow>
          (BLEND_IDS_KEY,
           JSON_stringify env
             (JObj (AList.update (String_int (currentUnit st))
                (js_or (js_or (js_prop data ''id'') (js_prop data ''_id'')) JNull) kvs)))
            \<in> set (storageWrites (saveToServer env st))
          \<and> Request PUT (UnitsOf (currentUnit st))
               (Some (JObj [(''blendId'', js_or (js_or (js_prop data ''id'') (js_prop data ''_id'')) JNull)]))
            \<in> set (requests (saveToServer env st))
          \<and> (\<forall>r_put m rest'.
                rest = r_put # Response True (Some m) # rest' \<and> r_put \<noteq> NetworkError
                \<and> has_entry m (String_int (currentUnit st))
                \<and> js_prop m (String_int (currentUnit st)) =
                    js_or (js_or (js_prop data ''id'') (js_prop data ''_id'')) JNull \<longrightarrow>
                serverUnitMap (saveToServer env st) = m
                \<and> getBlendIdForUnit env (currentUnit st) (saveToServer env st) =
                    (js_or (js_or (js_prop data ''id'') (js_prop data ''_id'')) JNull,
                     saveToServer env st)))"
proof (intro conjI impI)
  from assms(1) have u0: "currentUnit st \<noteq> 0" by auto
  show "\<exists>more. requests (saveToServer env st) =
        requests st1 @
          (if truthy idForUnit then Request PUT (BlendId idForUnit) (Some (collectFormData env st))
           else Request POST Blend (Some (collectFormData env st))) # more"
    by (rule saveToServer_request[OF u0 assms(2)])
next
  let ?rid = "js_or (js_or (js_prop data ''id'') (js_prop data ''_id'')) JNull"
  let ?unit = "currentUnit st"
  let ?key = "String_int ?unit"
  let ?post = "Request POST Blend (Some (collectFormData env st))"
  let ?st2 = "snd (fetch ?post st1)"
  assume h: "\<not> truthy idForUnit \<and> network st1 = Response True (Some data) # rest
          \<and> data \<noteq> JNull \<and> data \<noteq> JUndefined \<and> truthy ?rid \<and> readBlendIds env st = JObj kvs"
  from assms(1) have u0: "?unit \<noteq> 0" by auto
  from h have nt: "\<not> truthy idForUnit" and net: "network st1 = Response True (Some data) # rest"
    and d: "data \<noteq> JNull" "data \<noteq> JUndefined" and tr: "truthy ?rid"
    and ids: "readBlendIds env st = JObj kvs"
    by simp_all
  have req: "?post = (if truthy idForUnit then Request PUT (BlendId idForUnit) (Some (collectFormData env st))
        else Request POST Blend (Some (collectFormData env st)))"
    using nt by simp
  have f: "fst (fetch ?post st1) = Response True (Some data)" using fetch_head[OF net] .
  have n2: "network ?st2 = rest" using net by simp
  have e: "saveToServer env st =
      saveToServer_saved env ?unit idForUnit (JObj kvs) (collectFormData env st) data ?st2"
    unfolding saveToServer_after_fetch[OF u0 assms(2) req] f ids by simp
  have gp: "get_prop data ''id'' = Some (js_prop data ''id'')"
    using d by (simp add: get_prop_def)
  obtain ids' st3 where rc: "record_created_id env ?unit idForUnit ?rid (JObj kvs) ?st2 = Some (ids', st3)"
    using record_created_id_Some[OF nt tr] by blast
  note facts = record_created_id_create[OF nt tr rc]
  have "\<exists>a. saveToServer env st = alert a (cache_saved_payload env ?unit data (collectFormData env st) st3)"
    unfolding e by (auto simp: saveToServer_saved_def gp rc Let_def split: option.splits)
  then obtain a where fin: "saveToServer env st =
      alert a (cache_saved_payload env ?unit data (collectFormData env st) st3)"
    by blast
  show "(BLEND_IDS_KEY, JSON_stringify env (JObj (AList.update ?key ?rid kvs)))
            \<in> set (storageWrites (saveToServer env st))"
    unfolding fin using cache_saved_payload_writes[OF facts(1)] by simp
  show "Request PUT (UnitsOf ?unit) (Some (JObj [(''blendId'', ?rid)]))
            \<in> set (requests (saveToServer env st))"
    unfolding fin using facts(2) by simp
  show "\<forall>r_put m rest'.
                rest = r_put # Response True (Some m) # rest' \<and> r_put \<noteq> NetworkError
                \<and> has_entry m ?key \<and> js_prop m ?key = ?rid \<longrightarrow>
                serverUnitMap (saveToServer env st) = m
                \<and> getBlendIdForUnit env ?unit (saveToServer env st) = (?rid, saveToServer env st)"
  proof (intro allI impI)
    fix r_put m rest'
    assume g: "rest = r_put # Response True (Some m) # rest' \<and> r_put \<noteq> NetworkError
                \<and> has_entry m ?key \<and> js_prop m ?key = ?rid"
    then have n3: "network ?st2 = r_put # Response True (Some m) # rest'" using n2 by simp
    from g have rp: "r_put \<noteq> NetworkError" and he: "has_entry m ?key" and jm: "js_prop m ?key = ?rid"
      by simp_all
    have "serverUnitMap st3 = js_or m (JObj [])" using facts(3)[OF n3 rp] .
    moreover have "truthy m" using has_entry_truthy[OF he] by simp
    ultimately have sm: "serverUnitMap (saveToServer env st) = m"
      unfolding fin by (simp add: js_or_def)
    have he': "has_entry (serverUnitMap (saveToServer env st)) ?key" using he sm by simp
    show "serverUnitMap (saveToServer env st) = m
          \<and> getBlendIdForUnit env ?unit (saveToServer env st) = (?rid, saveToServer env st)"
      using getBlendIdForUnit_from_map[OF u0 he', of env] sm jm by simp
  qed
qed


theorem saveToServer_create_or_update_witness:
  "currentUnit demo_unsaved \<in> {1, 2, 3}
   \<and> fst (getBlendIdForUnit demo_env (currentUnit demo_unsaved) demo_unsaved) = JNull
   \<and> (BLEND_IDS_KEY, ''created'') \<in> set (storageWrites (saveToServer demo_env demo_unsaved))
   \<and> Request PUT (UnitsOf 1) (Some (JObj [(''blendId'', JStr ''abc123'')]))
        \<in> set (requests (saveToServer demo_env demo_unsaved))
   \<and> serverUnitMap (saveToServer demo_env demo_unsaved) = demo_created
   \<and> getBlendIdForUnit demo_env 1 (saveToServer demo_env demo_unsaved) =
       (JStr ''abc123'', saveToServer demo_env demo_unsaved)"
proof -
  let ?S = demo_unsaved
  let ?S1 = "snd (getBlendIdForUnit demo_env (currentUnit ?S) ?S)"
  let ?data = "JObj [(''id'', JStr ''abc123'')]"
  have cu: "currentUnit ?S = 1" by (simp add: demo_unsaved_def demo_state_def)
  have u: "currentUnit ?S \<in> {1, 2, 3}" by (simp add: cu)
  have fs: "fetchServerUnitMap demo_env ?S =
      (JObj [], (setItem BLEND_IDS_KEY ''{}'' (?S\<lparr>network := tl (network ?S),
          requests := [Request GET Units None]\<rparr>))\<lparr>serverUnitMap := JObj []\<rparr>)"
    by (simp add: fetchServerUnitMap_def fetch_def demo_unsaved_def demo_state_def
          writeBlendIds_def js_or_def demo_stringify_def)
  have i: "fst (getBlendIdForUnit demo_env (currentUnit ?S) ?S) = JNull"
    unfolding cu
    by (simp add: getBlendIdForUnit_def Let_def fs readBlendIds_def getItem_or_braces_def
          BLEND_IDS_KEY_def demo_parse_def js_and_def String_int_units)
       (simp add: demo_unsaved_def demo_state_def js_and_def String_int_units)
  then have g: "getBlendIdForUnit demo_env (currentUnit ?S) ?S = (JNull, ?S1)"
    by (metis prod.collapse)
  have n: "network ?S1 = Response True (Some ?data) # [Response True None, Response True (Some demo_created)]"
    unfolding cu
    by (simp add: getBlendIdForUnit_def Let_def fs)
       (simp add: demo_unsaved_def demo_state_def js_and_def String_int_units)
  have ids: "readBlendIds demo_env ?S = JObj []"
    by (simp add: readBlendIds_def getItem_or_braces_def demo_unsaved_def demo_state_def
          demo_parse_def)
  have rid: "js_or (js_or (js_prop ?data ''id'') (js_prop ?data ''_id'')) JNull = JStr ''abc123''"
    by (simp add: js_or_def)
  have he: "has_entry demo_created (String_int (currentUnit ?S))"
    "js_prop demo_created (String_int (currentUnit ?S)) = JStr ''abc123''"
    by (simp_all add: cu has_entry_def demo_created_def js_and_def String_int_units)
  have st: "JSON_stringify demo_env (JObj (AList.update (String_int (currentUnit ?S)) (JStr ''abc123'') [])) = ''created''"
    by (simp add: cu String_int_units demo_stringify_def demo_created_def demo_ids_def)
  note t = saveToServer_create_or_update[OF u g, of ?data
      "[Response True None, Response True (Some demo_created)]" "[]",
      THEN conjunct2, unfolded rid, rule_format]
  have pre: "\<not> truthy JNull \<and>
    network ?S1 = Response True (Some ?data) # [Response True None, Response True (Some demo_created)] \<and>
    ?data \<noteq> JNull \<and> ?data \<noteq> JUndefined \<and> truthy (JStr ''abc123'') \<and>
    readBlendIds demo_env ?S = JObj []"
    using n ids by simp
  from t[OF pre] have w: "(BLEND_IDS_KEY, ''created'') \<in> set (storageWrites (saveToServer demo_env ?S))"
    and p: "Request PUT (UnitsOf (currentUnit ?S)) (Some (JObj [(''blendId'', JStr ''abc123'')]))
        \<in> set (requests (saveToServer demo_env ?S))"
    and r: "\<And>r_put m rest'.
       [Response True None, Response True (Some demo_created)] = r_put # Response True (Some m) # rest' \<and>
       r_put \<noteq> NetworkError \<and> has_entry m (String_int (currentUnit ?S)) \<and>
       js_prop m (String_int (currentUnit ?S)) = JStr ''abc123'' \<Longrightarrow>
       serverUnitMap (saveToServer demo_env ?S) = m \<and>
       getBlendIdForUnit demo_env (currentUnit ?S) (saveToServer demo_env ?S) =
         (JStr ''abc123'', saveToServer demo_env ?S)"
    unfolding st by blast+
  have "serverUnitMap (saveToServer demo_env ?S) = demo_created \<and>
       getBlendIdForUnit demo_env (currentUnit ?S) (saveToServer demo_env ?S) =
         (JStr ''abc123'', saveToServer demo_env ?S)"
    using r[of "Response True None" demo_created "[]"] he by simp
  with u i w p show ?thesis by (simp add: cu)
qed

section \<open>Properties of the deferred flush\<close>

lemma cache_writes_simps [simp]:
  "k \<noteq> PAYLOAD_CACHE_KEY \<Longrightarrow> cache_writes (setItem k x st) = cache_writes st"
  "cache_writes (setItem PAYLOAD_CACHE_KEY x st) = cache_writes st @ [x]"
  "cache_writes (st\<lparr>document := d\<rparr>) = cache_writes st"
  "cache_writes (st\<lparr>currentUnit := c\<rparr>) = cache_writes st"
  "cache_writes (st\<lparr>tasks := ts\<rparr>) = cache_writes st"
  "cache_writes (st\<lparr>inMemoryPayloadCache := m\<rparr>) = cache_writes st"
  "cache_writes (st\<lparr>serverUnitMap := sm\<rparr>) = cache_writes st"
  "cache_writes (st\<lparr>debounceTimer := dt\<rparr>) = cache_writes st"
  "cache_writes (st\<lparr>deferredPayloadWriteTimer := pt\<rparr>) = cache_writes st"
  "cache_writes (st\<lparr>clock := c'\<rparr>) = cache_writes st"
  by (simp_all add: cache_writes_def setItem_def)

lemma cache_writes_cong: "storageWrites a = storageWrites b \<Longrightarrow> cache_writes a = cache_writes b"
  by (simp add: cache_writes_def)

lemma cache_writes_basic [simp]:
  "cache_writes (snd (fetch req st)) = cache_writes st"
  "cache_writes (dispatch_input st) = cache_writes st"
  "cache_writes (clearFormForUnitUI env st) = cache_writes st"
  "cache_writes (schedulePersistPayloadCache st) = cache_writes st"
  "cache_writes (saveTransientToMemory env st) = cache_writes st"
  by (rule cache_writes_cong, simp)+

lemma cache_writes_persist_coalColorMap [simp]:
  "cache_writes (persist_coalColorMap env p st) = cache_writes st"
  by (simp add: persist_coalColorMap_def Let_def keys_distinct split: option.splits)

lemma cache_writes_populate [simp]:
  "cache_writes (populateFormFromPayload env p st) = cache_writes st"
  by (simp add: populateFormFromPayload_def Let_def run_ui_updates_def)

lemma cache_writes_fetchServerUnitMap [simp]:
  "cache_writes (snd (fetchServerUnitMap env st)) = cache_writes st"
  by (simp add: fetchServerUnitMap_def case_prod_beta writeBlendIds_def keys_distinct
        split: response.splits option.splits)

lemma cache_writes_getBlendIdForUnit [simp]:
  "cache_writes (snd (getBlendIdForUnit env u st)) = cache_writes st"
  by (simp add: getBlendIdForUnit_def Let_def)

lemma cache_writes_render_unit [simp]:
  "cache_writes (render_unit env u st) = cache_writes st"
  by (simp add: render_unit_def Let_def split: option.splits)

lemma cache_writes_backgroundFetch_start [simp]:
  "cache_writes (backgroundFetch_start u st) = cache_writes st"
  by (simp add: cache_writes_def)

lemma cache_writes_setCurrentUnitFast:
  "cache_writes (setCurrentUnitFast env u st) = cache_writes st"
  by (simp add: setCurrentUnitFast_def Let_def keys_distinct)

lemma cache_writes_reconcile [simp]:
  "cache_writes (reconcile env k p st) = cache_writes st"
  by (simp add: reconcile_def Let_def)

lemma cache_writes_backgroundFetch:
  "cache_writes (backgroundFetch env u st) = cache_writes st"
  by (simp add: backgroundFetch_def Let_def case_prod_beta split: response.splits option.splits)

lemma cache_writes_prefetch_loop [simp]:
  "cache_writes (snd (prefetch_loop env c us st)) = cache_writes st"
  by (induction us arbitrary: st)
     (simp_all add: Let_def case_prod_beta split: option.splits)

lemma cache_writes_prefetch_done [simp]:
  "cache_writes (prefetch_done k r st) = cache_writes st"
  by (simp add: prefetch_done_def split: response.splits option.splits)

lemma cache_writes_prefetch_fold:
  "cache_writes (foldl (\<lambda>s (key, r). prefetch_done key r s) st rs) = cache_writes st"
  by (induction rs arbitrary: st) (simp_all add: case_prod_beta)

lemma cache_writes_prefetchOtherUnits:
  "cache_writes (prefetchOtherUnits env c st) = cache_writes st"
  by (simp add: prefetchOtherUnits_def Let_def case_prod_beta cache_writes_prefetch_fold
        del: prefetch_loop.simps)

lemma cache_writes_persist_flush:
  "cache_writes (persist_flush env st) =
     cache_writes st @ [JSON_stringify env (JObj (inMemoryPayloadCache st))]"
  by (simp add: persist_flush_def writePayloadCache_def)


lemma run_timers_idle:
  "due t st = None \<Longrightarrow> run_timers env t st = st\<lparr>clock := max (clock st) t\<rparr>"
  by (subst run_timers.simps) simp

lemma run_timers_fire:
  "due t st = Some (tm, d) \<Longrightarrow> run_timers env t st = run_timers env t (fire env tm d st)"
  by (subst run_timers.simps) simp

lemma saveTransientToMemory_timer:
  "deferredPayloadWriteTimer (saveTransientToMemory env st) =
     (case deferredPayloadWriteTimer st of None \<Rightarrow> Some (clock st + 300) | Some p \<Rightarrow> Some p)"
  by (simp add: saveTransientToMemory_def Let_def schedulePersistPayloadCache_def
        split: option.splits)

lemma captures_at_window:
  assumes "deferredPayloadWriteTimer st = Some p" and "debounceTimer st = None"
    and "\<forall>c \<in> set cs. fst c < p"
  shows "deferredPayloadWriteTimer (captures_at env cs st) = Some p
    \<and> debounceTimer (captures_at env cs st) = None
    \<and> cache_writes (captures_at env cs st) = cache_writes st"
  using assms
proof (induction cs arbitrary: st)
  case Nil
  then show ?case by simp
next
  case (Cons c cs)
  obtain t change where c: "c = (t, change)" by (cases c)
  from Cons.prems c have t: "t < p" by simp
  have idle: "due t st = None"
    using Cons.prems(1,2) t by (simp add: due_def)
  let ?st1 = "st\<lparr>clock := max (clock st) t\<rparr>"
  let ?st2 = "saveTransientToMemory env (?st1\<lparr>document := change (document ?st1)\<rparr>)"
  have step: "captures_at env (c # cs) st = captures_at env cs ?st2"
    unfolding c by (simp add: run_timers_idle[OF idle] Let_def)
  have a: "deferredPayloadWriteTimer ?st2 = Some p"
    using Cons.prems(1) by (simp add: saveTransientToMemory_timer)
  have b: "debounceTimer ?st2 = None" using Cons.prems(2) by simp
  have w: "cache_writes ?st2 = cache_writes st" by simp
  from Cons.prems(3) have rest: "\<forall>c \<in> set cs. fst c < p" by simp
  show ?case
    unfolding step using Cons.IH[OF a b rest] w by simp
qed

lemma flush_at_deadline:
  assumes "deferredPayloadWriteTimer st = Some p" and "debounceTimer st = None" and "p \<le> T"
  shows "cache_writes (run_timers env T st) =
           cache_writes st @ [JSON_stringify env (JObj (inMemoryPayloadCache st))]"
    and "deferredPayloadWriteTimer (run_timers env T st) = None"
    and "inMemoryPayloadCache (run_timers env T st) = inMemoryPayloadCache st"
proof -
  have d: "due T st = Some (PersistTimer, p)"
    using assms by (simp add: due_def)
  let ?f = "fire env PersistTimer p st"
  have f: "?f = persist_flush env (st\<lparr>clock := max (clock st) p\<rparr>)"
    by (simp add: fire_def)
  have idle: "due T ?f = None"
    using assms(2) by (simp add: f due_def persist_flush_def writePayloadCache_def)
  have r: "run_timers env T st = ?f\<lparr>clock := max (clock ?f) T\<rparr>"
    using run_timers_fire[OF d] run_timers_idle[OF idle] by simp
  show "cache_writes (run_timers env T st) =
           cache_writes st @ [JSON_stringify env (JObj (inMemoryPayloadCache st))]"
    unfolding r f by (simp add: cache_writes_persist_flush)
  show "deferredPayloadWriteTimer (run_timers env T st) = None"
    unfolding r f by (simp add: persist_flush_def)
  show "inMemoryPayloadCache (run_timers env T st) = inMemoryPayloadCache st"
    unfolding r f by (simp add: persist_flush_def writePayloadCache_def)
qed

lemma coalesced_flush:
  assumes "deferredPayloadWriteTimer st = None" and "debounceTimer st = None"
    and "clock st \<le> t0" and "\<forall>c \<in> set cs. fst c < t0 + 300" and "t0 + 300 \<le> T"
  shows "cache_writes (run_timers env T (captures_at env ((t0, change) # cs) st)) =
           cache_writes st @
             [JSON_stringify env (JObj (inMemoryPayloadCache (captures_at env ((t0, change) # cs) st)))]"
    and "deferredPayloadWriteTimer (run_timers env T (captures_at env ((t0, change) # cs) st)) = None"
    and "inMemoryPayloadCache (run_timers env T (captures_at env ((t0, change) # cs) st)) =
           inMemoryPayloadCache (captures_at env ((t0, change) # cs) st)"
proof -
  have idle: "due t0 st = None" using assms(1,2) by (simp add: due_def)
  let ?st1 = "st\<lparr>clock := max (clock st) t0\<rparr>"
  let ?st2 = "saveTransientToMemory env (?st1\<lparr>document := change (document ?st1)\<rparr>)"
  let ?S = "captures_at env ((t0, change) # cs) st"
  have step: "?S = captures_at env cs ?st2"
    by (simp add: run_timers_idle[OF idle] Let_def)
  have a: "deferredPayloadWriteTimer ?st2 = Some (t0 + 300)"
    using assms(1,3) by (simp add: saveTransientToMemory_timer max_def)
  have b: "debounceTimer ?st2 = None" using assms(2) by simp
  have w: "cache_writes ?st2 = cache_writes st" by simp
  note inv = captures_at_window[OF a b assms(4), of env, folded step]
  from inv have p: "deferredPayloadWriteTimer ?S = Some (t0 + 300)"
    and d: "debounceTimer ?S = None" and cw: "cache_writes ?S = cache_writes st"
    using w by simp_all
  note fl = flush_at_deadline[OF p d assms(5), of env]
  show "cache_writes (run_timers env T ?S) =
           cache_writes st @ [JSON_stringify env (JObj (inMemoryPayloadCache ?S))]"
    using fl(1) cw by simp
  show "deferredPayloadWriteTimer (run_timers env T ?S) = None" by (rule fl(2))
  show "inMemoryPayloadCache (run_timers env T ?S) = inMemoryPayloadCache ?S" by (rule fl(3))
qed


lemma cache_writes_cache_saved_payload:
  "cache_writes (cache_saved_payload env unit data payload st) =
     cache_writes st @
       (case assign (readPayloadCache env st) (String_int unit)
               (js_or (js_or (js_or (js_prop data ''payload'') (js_prop data ''data'')) JNull) payload) of
          None \<Rightarrow> []
        | Some cache \<Rightarrow> [JSON_stringify env cache])"
  by (simp add: cache_saved_payload_def Let_def writePayloadCache_def split: option.splits)

lemma cache_writes_loadUnitData_store:
  "cache_writes (loadUnitData_store env key payload st) =
     cache_writes st @
       (case assign (readPayloadCache env st) key payload of
          None \<Rightarrow> []
        | Some cache \<Rightarrow> [JSON_stringify env cache])"
  by (simp add: loadUnitData_store_def writePayloadCache_def split: option.splits)

lemma readPayloadCache_cong:
  "localStorage a PAYLOAD_CACHE_KEY = localStorage b PAYLOAD_CACHE_KEY \<Longrightarrow>
   readPayloadCache env a = readPayloadCache env b"
  by (simp add: readPayloadCache_def getItem_or_braces_def)

lemma cache_writes_alert [simp]: "cache_writes (alert a st) = cache_writes st"
  by (rule cache_writes_cong) simp

lemma saveToServer_saved_update:
  assumes "truthy idF" and "data \<noteq> JNull" and "data \<noteq> JUndefined"
  shows "\<exists>a. saveToServer_saved env unit idF ids payload data st2 =
           alert a (cache_saved_payload env unit data payload st2)"
  using assms
  by (auto simp: saveToServer_saved_def record_created_id_def get_prop_def Let_def
        split: option.splits)

lemma saveToServer_update_writes_cache:
  assumes "currentUnit st \<noteq> 0"
    and "getBlendIdForUnit env (currentUnit st) st = (idF, st1)" and "truthy idF"
    and "network st1 = Response True (Some data) # rest"
    and "data \<noteq> JNull" and "data \<noteq> JUndefined"
  shows "cache_writes (saveToServer env st) =
     cache_writes st @
       (case assign (readPayloadCache env st) (String_int (currentUnit st))
               (js_or (js_or (js_or (js_prop data ''payload'') (js_prop data ''data'')) JNull)
                  (collectFormData env st)) of
          None \<Rightarrow> []
        | Some cache \<Rightarrow> [JSON_stringify env cache])"
    and "deferredPayloadWriteTimer (saveToServer env st) = deferredPayloadWriteTimer st"
proof -
  let ?req = "Request PUT (BlendId idF) (Some (collectFormData env st))"
  let ?st2 = "snd (fetch ?req st1)"
  have st1: "st1 = snd (getBlendIdForUnit env (currentUnit st) st)" using assms(2) by simp
  have req: "?req = (if truthy idF then Request PUT (BlendId idF) (Some (collectFormData env st))
        else Request POST Blend (Some (collectFormData env st)))"
    using assms(3) by simp
  have f: "fst (fetch ?req st1) = Response True (Some data)" using fetch_head[OF assms(4)] .
  have e: "saveToServer env st =
      saveToServer_saved env (currentUnit st) idF (readBlendIds env st) (collectFormData env st)
        data ?st2"
    unfolding saveToServer_after_fetch[OF assms(1,2) req] f by simp
  obtain a where fin: "saveToServer env st =
      alert a (cache_saved_payload env (currentUnit st) data (collectFormData env st) ?st2)"
    unfolding e using saveToServer_saved_update[OF assms(3,5,6)] by blast
  have r: "readPayloadCache env ?st2 = readPayloadCache env st"
    by (rule readPayloadCache_cong) (simp add: st1 keys_distinct)
  have w: "cache_writes st1 = cache_writes st" by (simp add: st1)
  show "cache_writes (saveToServer env st) =
     cache_writes st @
       (case assign (readPayloadCache env st) (String_int (currentUnit st))
               (js_or (js_or (js_or (js_prop data ''payload'') (js_prop data ''data'')) JNull)
                  (collectFormData env st)) of
          None \<Rightarrow> []
        | Some cache \<Rightarrow> [JSON_stringify env cache])"
    unfolding fin by (simp add: cache_writes_cache_saved_payload r w)
  show "deferredPayloadWriteTimer (saveToServer env st) = deferredPayloadWriteTimer st"
    unfolding fin by (simp add: st1)
qed

text \<open>
  Claim C3, as the code has it. The autosave capture (\<open>saveTransientToMemory\<close>), the unit
  switch (\<open>setCurrentUnitFast\<close>), its background reconciliation and the prefetch never
  write the payload-cache key themselves: they only call \<open>schedulePersistPayloadCache\<close>,
  whose timer writes the entire memory tier, serialized, once. All the calls that arrive
  within the 300 ms after the first one are coalesced into that single write. The explicit
  save and \<open>loadUnitData\<close> do write the key directly: the persisted map as they read it,
  with the entry of the one unit replaced.
\<close>

theorem payload_cache_written_by_flush:
  assumes "deferredPayloadWriteTimer st = None" and "debounceTimer st = None"
    and "clock st \<le> t0" and "\<forall>c \<in> set cs. fst c < t0 + 300" and "t0 + 300 \<le> T"
  shows
    "cache_writes (saveTransientToMemory env s) = cache_writes s
     \<and> cache_writes (setCurrentUnitFast env u s) = cache_writes s
     \<and> cache_writes (backgroundFetch env u s) = cache_writes s
     \<and> cache_writes (prefetchOtherUnits env u s) = cache_writes s
     \<and> cache_writes (persist_flush env s) =
         cache_writes s @ [JSON_stringify env (JObj (inMemoryPayloadCache s))]
     \<and> cache_writes (captures_at env ((t0, change) # cs) st) = cache_writes st
     \<and> cache_writes (run_timers env T (captures_at env ((t0, change) # cs) st)) =
         cache_writes st @
           [JSON_stringify env (JObj (inMemoryPayloadCache (captures_at env ((t0, change) # cs) st)))]
     \<and> deferredPayloadWriteTimer (run_timers env T (captures_at env ((t0, change) # cs) st)) = None
     \<and> cache_writes (cache_saved_payload env u data payload s) =
         cache_writes s @
           (case assign (readPayloadCache env s) (String_int u)
                   (js_or (js_or (js_or (js_prop data ''payload'') (js_prop data ''data'')) JNull)
                      payload) of
              None \<Rightarrow> []
            | Some cache \<Rightarrow> [JSON_stringify env cache])
     \<and> cache_writes (loadUnitData_store env key payload s) =
         cache_writes s @
           (case assign (readPayloadCache env s) key payload of
              None \<Rightarrow> []
            | Some cache \<Rightarrow> [JSON_stringify env cache])"
proof -
  have idle: "due t0 st = None" using assms(1,2) by (simp add: due_def)
  let ?st1 = "st\<lparr>clock := max (clock st) t0\<rparr>"
  let ?st2 = "saveTransientToMemory env (?st1\<lparr>document := change (document ?st1)\<rparr>)"
  have step: "captures_at env ((t0, change) # cs) st = captures_at env cs ?st2"
    by (simp add: run_timers_idle[OF idle] Let_def)
  have a: "deferredPayloadWriteTimer ?st2 = Some (t0 + 300)"
    using assms(1,3) by (simp add: saveTransientToMemory_timer max_def)
  have b: "debounceTimer ?st2 = None" using assms(2) by simp
  have "cache_writes (captures_at env cs ?st2) = cache_writes ?st2"
    using captures_at_window[OF a b assms(4)] by simp
  then have cw: "cache_writes (captures_at env ((t0, change) # cs) st) = cache_writes st"
    unfolding step by simp
  note fl = coalesced_flush[OF assms, of env change]
  show ?thesis
    using cw fl(1,2)
    by (simp add: cache_writes_setCurrentUnitFast cache_writes_backgroundFetch
          cache_writes_prefetchOtherUnits cache_writes_persist_flush
          cache_writes_cache_saved_payload cache_writes_loadUnitData_store)
qed

theorem payload_cache_written_by_flush_witness:
  "deferredPayloadWriteTimer demo_state = None \<and> debounceTimer demo_state = None
   \<and> clock demo_state \<le> 1000
   \<and> list_all (\<lambda>c. fst c < 1000 + 300) [(1100, \<lambda>doc. doc), (1250 :: nat, \<lambda>doc :: jsval. doc)]
   \<and> (1000 :: nat) + 300 \<le> 1300
   \<and> cache_writes (captures_at demo_env [(1000, \<lambda>doc. doc), (1100, \<lambda>doc. doc), (1250, \<lambda>doc. doc)]
        demo_state) = []
   \<and> length (cache_writes (run_timers demo_env 1300
        (captures_at demo_env [(1000, \<lambda>doc. doc), (1100, \<lambda>doc. doc), (1250, \<lambda>doc. doc)]
           demo_state))) = 1
   \<and> deferredPayloadWriteTimer (run_timers demo_env 1300
        (captures_at demo_env [(1000, \<lambda>doc. doc), (1100, \<lambda>doc. doc), (1250, \<lambda>doc. doc)]
           demo_state)) = None"
proof -
  have a: "deferredPayloadWriteTimer demo_state = None" and b: "debounceTimer demo_state = None"
    and c: "clock demo_state \<le> 1000"
    by (simp_all add: demo_state_def)
  have d: "\<forall>c \<in> set [(1100, \<lambda>doc. doc), (1250 :: nat, \<lambda>doc :: jsval. doc)]. fst c < 1000 + 300"
    by simp
  have e: "(1000 :: nat) + 300 \<le> 1300" by simp
  have w: "cache_writes demo_state = []" by (simp add: cache_writes_def demo_state_def)
  from payload_cache_written_by_flush[OF a b c d e, where env = demo_env and change = "\<lambda>doc. doc"] a b c w
  show ?thesis by simp
qed

text \<open>
  \<open>loadUnitData\<close> and \<open>saveToServer\<close> write the payload-cache key while no flush is or
  was scheduled.
\<close>

theorem payload_cache_direct_write_counterexample:
  "deferredPayloadWriteTimer demo_mapped = None
   \<and> cache_writes demo_mapped = []
   \<and> deferredPayloadWriteTimer (snd (loadUnitData demo_env 2 demo_mapped)) = None
   \<and> cache_writes (snd (loadUnitData demo_env 2 demo_mapped)) = [''cache'']
   \<and> deferredPayloadWriteTimer (saveToServer demo_env (demo_mapped\<lparr>currentUnit := 2\<rparr>)) = None
   \<and> length (cache_writes (saveToServer demo_env (demo_mapped\<lparr>currentUnit := 2\<rparr>))) = 1"
proof -
  have m0: "deferredPayloadWriteTimer demo_mapped = None" "cache_writes demo_mapped = []"
    by (simp_all add: demo_mapped_def demo_state_def cache_writes_def)
  have g: "getBlendIdForUnit demo_env 2 demo_mapped = (JStr ''abc123'', demo_mapped)"
    by (simp add: getBlendIdForUnit_def Let_def demo_mapped_def demo_state_def demo_ids_def
          js_and_def String_int_units)
  have f: "fetch (Request GET (BlendId (JStr ''abc123'')) None) demo_mapped =
       (Response True (Some demo_payload), demo_fetched)"
    by (simp add: fetch_def demo_mapped_def demo_fetched_def demo_state_def)
  have r0: "readPayloadCache demo_env demo_mapped = JObj []"
    by (simp add: readPayloadCache_def getItem_or_braces_def demo_mapped_def demo_state_def
          demo_parse_def)
  have uw: "unwrap_loadUnitData demo_payload = demo_payload"
    by (simp add: unwrap_loadUnitData_def demo_payload_def js_and_def js_or_def)
  have pop: "\<And>d. populateFormFromPayload demo_env demo_payload (demo_fetched\<lparr>document := d\<rparr>) =
      demo_fetched\<lparr>document := demo_payload\<rparr>"
    by (simp add: populateFormFromPayload_def Let_def run_ui_updates_def demo_env_def
          persist_coalColorMap_def demo_payload_def)
  have st: "loadUnitData_store demo_env ''2'' demo_payload (demo_fetched\<lparr>document := demo_payload\<rparr>) =
      (setItem PAYLOAD_CACHE_KEY ''cache'' (demo_fetched\<lparr>document := demo_payload\<rparr>))
        \<lparr>inMemoryPayloadCache := [(''2'', demo_payload)]\<rparr>"
    by (simp add: loadUnitData_store_def readPayloadCache_def getItem_or_braces_def
          demo_fetched_def demo_state_def demo_parse_def writePayloadCache_def demo_stringify_def
          demo_ids_def demo_created_def demo_payload_def)
  have lf: "loadUnitData_fetch demo_env ''2'' (JStr ''abc123'') demo_mapped =
      (demo_payload, (setItem PAYLOAD_CACHE_KEY ''cache'' (demo_fetched\<lparr>document := demo_payload\<rparr>))
        \<lparr>inMemoryPayloadCache := [(''2'', demo_payload)]\<rparr>)"
    unfolding loadUnitData_fetch_def f by (simp add: Let_def uw pop st)
  have l: "snd (loadUnitData demo_env 2 demo_mapped) =
      (setItem PAYLOAD_CACHE_KEY ''cache'' (demo_fetched\<lparr>document := demo_payload\<rparr>))
        \<lparr>inMemoryPayloadCache := [(''2'', demo_payload)]\<rparr>"
    by (simp add: loadUnitData_def Let_def r0 js_and_def String_int_units g lf)
  have l1: "deferredPayloadWriteTimer (snd (loadUnitData demo_env 2 demo_mapped)) = None"
    and l2: "cache_writes (snd (loadUnitData demo_env 2 demo_mapped)) = [''cache'']"
    unfolding l by (simp_all add: demo_fetched_def demo_state_def cache_writes_def)
  let ?S = "demo_mapped\<lparr>currentUnit := 2\<rparr>"
  have u0: "currentUnit ?S \<noteq> 0" by simp
  have g': "getBlendIdForUnit demo_env (currentUnit ?S) ?S = (JStr ''abc123'', ?S)"
    by (simp add: getBlendIdForUnit_def Let_def demo_mapped_def demo_state_def demo_ids_def
          js_and_def String_int_units)
  have n: "network ?S = Response True (Some demo_payload) # []"
    by (simp add: demo_mapped_def demo_state_def)
  have dn: "demo_payload \<noteq> JNull" "demo_payload \<noteq> JUndefined"
    by (simp_all add: demo_payload_def)
  have r1: "readPayloadCache demo_env ?S = JObj []"
    by (simp add: readPayloadCache_def getItem_or_braces_def demo_mapped_def demo_state_def
          demo_parse_def)
  note sv = saveToServer_update_writes_cache[OF u0 g' _ n dn]
  have s1: "deferredPayloadWriteTimer (saveToServer demo_env ?S) = None"
    using sv(2) m0(1) by simp
  have c0: "cache_writes ?S = []"
    by (simp add: cache_writes_def demo_mapped_def demo_state_def)
  have s2: "length (cache_writes (saveToServer demo_env ?S)) = 1"
    using sv(1) unfolding r1 c0 by simp
  show ?thesis using m0 l1 l2 s1 s2 by simp
qed

section \<open>Properties of the debounced autosave\<close>


lemma persist_flush_fields [simp]:
  "currentUnit (persist_flush env st) = currentUnit st"
  "debounceTimer (persist_flush env st) = debounceTimer st"
  "autosaveAttached (persist_flush env st) = autosaveAttached st"
  "document (persist_flush env st) = document st"
  "clock (persist_flush env st) = clock st"
  "captures (persist_flush env st) = captures st"
  "inMemoryPayloadCache (persist_flush env st) = inMemoryPayloadCache st"
  "deferredPayloadWriteTimer (persist_flush env st) = None"
  "k \<noteq> PAYLOAD_CACHE_KEY \<Longrightarrow> localStorage (persist_flush env st) k = localStorage st k"
  by (simp_all add: persist_flush_def writePayloadCache_def)











end
